(* ===== verification/Rust_Text.thy ===== *)
theory Rust_Text
  imports Ndhcp_Prelude "HOL-Library.Sublist"
begin

text \<open>
  The parts of Rust's standard library that handle text and that the sources call:
  \<open>str::split\<close>, \<open>join\<close>, \<open>trim\<close>, \<open>to_lowercase\<close>, \<open>u8::from_str_radix\<close>,
  the \<open>{:02x}\<close> format, \<open>Ipv4Addr\<close>'s \<open>Display\<close> and \<open>FromStr\<close>, and
  \<open>String::from_utf8_lossy\<close>. Texts are UTF-8 byte strings.

  \<open>to_lowercase\<close> maps the ASCII letters only. The code compares the result with the text
  of a hardware address (digits, \<open>a\<close>..\<open>f\<close> and colons), and no character outside
  ASCII has a lower case made of those characters, so the comparison is the same one.
\<close>

section \<open>Splitting, joining, trimming\<close>

fun split_on :: "char \<Rightarrow> string \<Rightarrow> string list" where
  "split_on c [] = [[]]"
| "split_on c (x # xs) =
     (if x = c then [] # split_on c xs
      else (case split_on c xs of [] \<Rightarrow> [[x]] | p # ps \<Rightarrow> (x # p) # ps))"

fun join :: "string \<Rightarrow> string list \<Rightarrow> string" where
  "join sep [] = []"
| "join sep [p] = p"
| "join sep (p # q # ps) = p @ sep @ join sep (q # ps)"

text \<open>The UTF-8 encodings of the characters with the Unicode property White\_Space.\<close>

definition white_space :: "string list" where
  "white_space = map string_of
     ([[9], [10], [11], [12], [13], [32], [0xC2, 0x85], [0xC2, 0xA0], [0xE1, 0x9A, 0x80]] @
      map (\<lambda>n. [0xE2, 0x80, of_nat (0x80 + n)]) [0..<11] @
      [[0xE2, 0x80, 0xA8], [0xE2, 0x80, 0xA9], [0xE2, 0x80, 0xAF], [0xE2, 0x81, 0x9F],
       [0xE3, 0x80, 0x80]])"

definition strip_ws_prefix :: "string \<Rightarrow> string option" where
  "strip_ws_prefix s =
     map_option (\<lambda>w. drop (length w) s) (List.find (\<lambda>w. prefix w s) white_space)"

definition strip_ws_suffix :: "string \<Rightarrow> string option" where
  "strip_ws_suffix s =
     map_option (\<lambda>w. take (length s - length w) s) (List.find (\<lambda>w. suffix w s) white_space)"

lemma white_space_nonempty: "w \<in> set white_space \<Longrightarrow> w \<noteq> []"
  by (auto simp: white_space_def string_of_def)

lemma strip_ws_prefix_shorter: "strip_ws_prefix s = Some t \<Longrightarrow> length t < length s"
  using white_space_nonempty
  by (auto simp: strip_ws_prefix_def prefix_def dest!: find_Some_in)

lemma strip_ws_suffix_shorter: "strip_ws_suffix s = Some t \<Longrightarrow> length t < length s"
  using white_space_nonempty
  by (auto simp: strip_ws_suffix_def suffix_def dest!: find_Some_in)

function trim_start :: "string \<Rightarrow> string" where
  "trim_start s = (case strip_ws_prefix s of None \<Rightarrow> s | Some t \<Rightarrow> trim_start t)"
  by pat_completeness auto
termination
  by (relation "measure length") (auto simp: strip_ws_prefix_shorter)

function trim_end :: "string \<Rightarrow> string" where
  "trim_end s = (case strip_ws_suffix s of None \<Rightarrow> s | Some t \<Rightarrow> trim_end t)"
  by pat_completeness auto
termination
  by (relation "measure length") (auto simp: strip_ws_suffix_shorter)

declare trim_start.simps [simp del] trim_end.simps [simp del]

definition trim :: "string \<Rightarrow> string" where
  "trim s = trim_end (trim_start s)"

definition lower_char :: "char \<Rightarrow> char" where
  "lower_char c = (let n = of_char c :: nat in if 65 \<le> n \<and> n \<le> 90 then char_of (n + 32) else c)"

definition to_lowercase :: "string \<Rightarrow> string" where
  "to_lowercase s = map lower_char s"

section \<open>Digits\<close>

definition hex_digit :: "nat \<Rightarrow> char" where
  "hex_digit n = (if n < 10 then char_of (48 + n) else char_of (87 + n))"

text \<open>The format \<open>{:02x}\<close> of a byte.\<close>

definition hex2 :: "u8 \<Rightarrow> string" where
  "hex2 b = [hex_digit (unat b div 16), hex_digit (unat b mod 16)]"

definition to_digit :: "nat \<Rightarrow> char \<Rightarrow> nat option" where
  "to_digit radix c =
     (let n = of_char c :: nat;
          d = (if 48 \<le> n \<and> n \<le> 57 then n - 48
               else if 97 \<le> n \<and> n \<le> 122 then n - 87
               else if 65 \<le> n \<and> n \<le> 90 then n - 55 else 36)
      in if d < radix then Some d else None)"

text \<open>The digit loop with its checked multiplication and addition below a limit.\<close>

fun radix_loop :: "nat \<Rightarrow> nat \<Rightarrow> nat \<Rightarrow> string \<Rightarrow> nat option" where
  "radix_loop radix limit acc [] = Some acc"
| "radix_loop radix limit acc (c # cs) =
     (case to_digit radix c of
        None \<Rightarrow> None
      | Some d \<Rightarrow>
          (if acc * radix + d < limit then radix_loop radix limit (acc * radix + d) cs
           else None))"

definition u8_from_str_radix :: "string \<Rightarrow> nat \<Rightarrow> u8 option" where
  "u8_from_str_radix s radix =
     (case s of
        [] \<Rightarrow> None
      | c # cs \<Rightarrow>
          (if c = CHR ''+'' then
             (if cs = [] then None else map_option of_nat (radix_loop radix 256 0 cs))
           else map_option of_nat (radix_loop radix 256 0 s)))"

text \<open>\<open>i64::from_str\<close>: a sign and digits, \<open>None\<close> on anything else and on overflow.\<close>

definition i64_from_str :: "string \<Rightarrow> i64 option" where
  "i64_from_str s =
     (case s of
        [] \<Rightarrow> None
      | c # cs \<Rightarrow>
          (if c = CHR ''-'' then
             (if cs = [] then None else map_option (\<lambda>n. - int n) (radix_loop 10 (2 ^ 63 + 1) 0 cs))
           else if c = CHR ''+'' then
             (if cs = [] then None else map_option int (radix_loop 10 (2 ^ 63) 0 cs))
           else map_option int (radix_loop 10 (2 ^ 63) 0 s)))"

text \<open>The format \<open>{}\<close> of unsigned and signed integers.\<close>

fun dec_nat :: "nat \<Rightarrow> string" where
  "dec_nat n = (if n < 10 then [hex_digit n] else dec_nat (n div 10) @ [hex_digit (n mod 10)])"

declare dec_nat.simps [simp del]

definition dec_int :: "int \<Rightarrow> string" where
  "dec_int i = (if i < 0 then CHR ''-'' # dec_nat (nat (- i)) else dec_nat (nat i))"

section \<open>IPv4 addresses as text\<close>

definition dec_u8 :: "u8 \<Rightarrow> string" where
  "dec_u8 b =
     (let n = unat b in
      if n < 10 then [hex_digit n]
      else if n < 100 then [hex_digit (n div 10), hex_digit (n mod 10)]
      else [hex_digit (n div 100), hex_digit (n div 10 mod 10), hex_digit (n mod 10)])"

definition ipv4_octet :: "string \<Rightarrow> u8 option" where
  "ipv4_octet s =
     (if s = [] \<or> 3 < length s \<or> (hd s = CHR ''0'' \<and> 1 < length s) then None
      else map_option of_nat (radix_loop 10 256 0 s))"

definition ipv4_to_string :: "u32 \<Rightarrow> string" where
  "ipv4_to_string ip = join ''.'' (map dec_u8 (be32 ip))"

definition ipv4_parse :: "string \<Rightarrow> u32 option" where
  "ipv4_parse s =
     (if 15 < length s then None
      else (case split_on CHR ''.'' s of
         [p, q, r, t] \<Rightarrow> do { a \<leftarrow> ipv4_octet p; b \<leftarrow> ipv4_octet q; c \<leftarrow> ipv4_octet r;
                             d \<leftarrow> ipv4_octet t; Some (of_be32 a b c d) }
       | _ \<Rightarrow> None))"

section \<open>UTF-8\<close>

definition is_cont :: "u8 \<Rightarrow> bool" where
  "is_cont b \<longleftrightarrow> b AND 192 = 128"

definition utf8_width :: "u8 \<Rightarrow> nat" where
  "utf8_width b =
     (if b < 0x80 then 1 else if 0xC2 \<le> b \<and> b \<le> 0xDF then 2
      else if 0xE0 \<le> b \<and> b \<le> 0xEF then 3 else if 0xF0 \<le> b \<and> b \<le> 0xF4 then 4 else 0)"

definition utf8_second_ok :: "u8 \<Rightarrow> u8 \<Rightarrow> bool" where
  "utf8_second_ok b c \<longleftrightarrow>
     (if b = 0xE0 then 0xA0 \<le> c \<and> c \<le> 0xBF
      else if b = 0xED then 0x80 \<le> c \<and> c \<le> 0x9F
      else if b = 0xF0 then 0x90 \<le> c \<and> c \<le> 0xBF
      else if b = 0xF4 then 0x80 \<le> c \<and> c \<le> 0x8F
      else 0x80 \<le> c \<and> c \<le> 0xBF)"

text \<open>
  How many bytes of a non-empty input belong to its first unit, and whether they are a
  character: \<open>Utf8Chunks\<close> gives up on a unit at the first byte that cannot continue it and
  resumes at that byte.
\<close>

definition safe_get :: "bytes \<Rightarrow> nat \<Rightarrow> u8" where
  "safe_get xs i = (if i < length xs then xs ! i else 0)"

definition utf8_unit :: "u8 \<Rightarrow> bytes \<Rightarrow> nat \<times> bool" where
  "utf8_unit b rest =
     (let w = utf8_width b
      in if w = 1 then (1, True)
         else if w = 2 then (if is_cont (safe_get rest 0) then (2, True) else (1, False))
         else if w = 3 then
           (if \<not> utf8_second_ok b (safe_get rest 0) then (1, False)
            else if \<not> is_cont (safe_get rest 1) then (2, False) else (3, True))
         else if w = 4 then
           (if \<not> utf8_second_ok b (safe_get rest 0) then (1, False)
            else if \<not> is_cont (safe_get rest 1) then (2, False)
            else if \<not> is_cont (safe_get rest 2) then (3, False) else (4, True))
         else (1, False))"

definition replacement :: bytes where
  "replacement = [0xEF, 0xBF, 0xBD]"

lemma utf8_unit_pos: "0 < fst (utf8_unit b rest)"
  by (simp add: utf8_unit_def Let_def)

function utf8_lossy :: "bytes \<Rightarrow> bytes" where
  "utf8_lossy [] = []"
| "utf8_lossy (b # rest) =
     (case utf8_unit b rest of
        (n, ok) \<Rightarrow> (if ok then take n (b # rest) else replacement) @
          utf8_lossy (drop (n - 1) rest))"
  by pat_completeness auto
termination
  by (relation "measure length") auto

function utf8_valid :: "bytes \<Rightarrow> bool" where
  "utf8_valid [] = True"
| "utf8_valid (b # rest) =
     (case utf8_unit b rest of (n, ok) \<Rightarrow> ok \<and> utf8_valid (drop (n - 1) rest))"
  by pat_completeness auto
termination
  by (relation "measure length") auto

definition from_utf8_lossy :: "bytes \<Rightarrow> string" where
  "from_utf8_lossy bs = string_of (utf8_lossy bs)"

section \<open>Lemmas\<close>

lemma split_on_nonempty [simp]: "split_on c s \<noteq> []"
  by (induction s) (auto split: list.splits)

lemma split_on_clean: "c \<notin> set s \<Longrightarrow> split_on c s = [s]"
  by (induction s) auto

lemma split_on_append: "c \<notin> set p \<Longrightarrow> split_on c (p @ c # s) = p # split_on c s"
  by (induction p) auto

lemma split_on_join:
  "ps \<noteq> [] \<Longrightarrow> \<forall>p\<in>set ps. c \<notin> set p \<Longrightarrow> split_on c (join [c] ps) = ps"
  by (induction "[c]" ps rule: join.induct) (auto simp: split_on_clean split_on_append)

lemma to_lowercase_idem_on:
  "\<forall>c\<in>set s. lower_char c = c \<Longrightarrow> to_lowercase s = s"
  by (simp add: to_lowercase_def map_idI)

lemma hex_digit_of_char: "n < 16 \<Longrightarrow> (of_char (hex_digit n) :: nat) = (if n < 10 then 48 + n else 87 + n)"
  by (simp add: hex_digit_def)

lemma to_digit_hex_digit: "n < radix \<Longrightarrow> radix \<le> 16 \<Longrightarrow> to_digit radix (hex_digit n) = Some n"
  by (auto simp: to_digit_def hex_digit_of_char Let_def)

lemma lower_hex_digit: "n < 16 \<Longrightarrow> lower_char (hex_digit n) = hex_digit n"
  by (simp add: lower_char_def hex_digit_of_char)

lemma hex_digit_neq:
  "n < 16 \<Longrightarrow> hex_digit n \<noteq> CHR '':''" "n < 16 \<Longrightarrow> hex_digit n \<noteq> CHR ''+''"
  "n < 16 \<Longrightarrow> hex_digit n \<noteq> CHR ''.''" "n < 16 \<Longrightarrow> hex_digit n \<noteq> CHR '',''"
  by (auto dest!: arg_cong [where f = "of_char :: char \<Rightarrow> nat"]
      simp: hex_digit_of_char split: if_splits)

text \<open>An integer that was printed is parsed back.\<close>

lemma radix_loop_dec_nat:
  "acc * 10 ^ length (dec_nat n) + n < limit \<Longrightarrow>
   radix_loop 10 limit acc (dec_nat n @ cs) = radix_loop 10 limit (acc * 10 ^ length (dec_nat n) + n) cs"
proof (induction n arbitrary: cs rule: dec_nat.induct)
  case (1 n)
  show ?case
  proof (cases "n < 10")
    case True
    with 1(2) show ?thesis by (simp add: dec_nat.simps [of n] to_digit_hex_digit)
  next
    case False
    let ?m = "n div 10"
    have len: "length (dec_nat n) = Suc (length (dec_nat ?m))" using False by (simp add: dec_nat.simps [of n])
    have n: "?m * 10 + n mod 10 = n" by simp
    have sum: "(acc * 10 ^ length (dec_nat ?m) + ?m) * 10 + n mod 10 = acc * 10 ^ length (dec_nat n) + n"
      using n by (simp add: len algebra_simps)
    have "x < limit" if "x * 10 + d < limit" for x d :: nat using that by simp
    with sum 1(2) have "acc * 10 ^ length (dec_nat ?m) + ?m < limit" by metis
    from 1(1) [OF False this, of "hex_digit (n mod 10) # cs"] False 1(2) sum show ?thesis
      by (simp add: dec_nat.simps [of n] to_digit_hex_digit algebra_simps)
  qed
qed

lemma dec_nat_hd: "\<exists>d<10. \<exists>cs. dec_nat n = hex_digit d # cs"
proof (induction n rule: dec_nat.induct)
  case (1 n)
  then show ?case by (cases "n < 10") (auto simp: dec_nat.simps [of n])
qed

lemma i64_from_str_dec_int:
  assumes "- (2 ^ 63) \<le> i" and "i < 2 ^ 63"
  shows "i64_from_str (dec_int i) = Some i"
proof -
  have digits: "radix_loop 10 limit 0 (dec_nat n) = Some n" if "n < limit" for n limit
    using radix_loop_dec_nat [of 0 n limit "[]"] that by simp
  obtain d cs where d: "d < 10" "dec_nat (nat i) = hex_digit d # cs" using dec_nat_hd by blast
  have "hex_digit d \<noteq> CHR ''-''" "hex_digit d \<noteq> CHR ''+''"
    using hex_digit_of_char [of d] d(1) by auto
  moreover have "dec_nat (nat (- i)) \<noteq> []" using dec_nat_hd [of "nat (- i)"] by auto
  ultimately show ?thesis
    using assms d(2) digits [of "nat i" "2 ^ 63"] digits [of "nat (- i)" "2 ^ 63 + 1"]
    by (auto simp: i64_from_str_def dec_int_def)
qed

lemma unat_u8_lt: "unat (b :: u8) < 256"
  using unsigned_less [of b] by simp

lemma unat_u8_div16: "unat (b :: u8) div 16 < 16"
  using unat_u8_lt [of b] by simp

lemma u8_from_str_radix_hex2: "u8_from_str_radix (hex2 b) 16 = Some b"
proof -
  have "unat b div 16 * 16 + unat b mod 16 = unat b"
    by simp
  then show ?thesis
    using unat_u8_lt [of b] unat_u8_div16 [of b]
    by (simp add: u8_from_str_radix_def hex2_def hex_digit_neq to_digit_hex_digit)
qed

lemma colon_notin_hex2: "CHR '':'' \<notin> set (hex2 b)"
  using unat_u8_div16 [of b] by (auto simp: hex2_def hex_digit_neq dest: sym)

lemma lower_hex2: "c \<in> set (hex2 b) \<Longrightarrow> lower_char c = c"
  using unat_u8_div16 [of b] by (auto simp: hex2_def lower_hex_digit)

lemma unat_u8_div100: "unat (b :: u8) div 100 < 3"
  using unat_u8_lt [of b] by simp

lemma hex_digit_eq_zero: "n < 16 \<Longrightarrow> hex_digit n = CHR ''0'' \<longleftrightarrow> n = 0"
  by (simp add: hex_digit_of_char flip: of_char_eq_iff [where 'a = nat])

lemma dec_u8_cases:
  obtains (one) d where "d < 10" and "unat b = d" and "dec_u8 b = [hex_digit d]"
  | (two) d e where "0 < d" and "d < 10" and "e < 10" and "unat b = d * 10 + e"
      and "dec_u8 b = [hex_digit d, hex_digit e]"
  | (three) d e f where "0 < d" and "d < 10" and "e < 10" and "f < 10"
      and "unat b = (d * 10 + e) * 10 + f"
      and "dec_u8 b = [hex_digit d, hex_digit e, hex_digit f]"
proof -
  let ?n = "unat b"
  consider "?n < 10" | "10 \<le> ?n" "?n < 100" | "100 \<le> ?n" by linarith
  then show thesis
  proof cases
    case 1
    then show thesis by (intro one [of ?n]) (simp_all add: dec_u8_def Let_def)
  next
    case 2
    then show thesis
      by (intro two [of "?n div 10" "?n mod 10"]) (auto simp: dec_u8_def Let_def)
  next
    case 3
    have "?n div 100 = ?n div 10 div 10"
      by (simp add: div_mult2_eq)
    then have "(?n div 100 * 10 + ?n div 10 mod 10) * 10 + ?n mod 10 = ?n"
      by simp
    with 3 show thesis
      using unat_u8_div100 [of b]
      by (intro three [of "?n div 100" "?n div 10 mod 10" "?n mod 10"])
        (auto simp: dec_u8_def Let_def)
  qed
qed

lemma ipv4_octet_dec_u8 [simp]: "ipv4_octet (dec_u8 b) = Some b"
proof -
  have b: "b = of_nat (unat b)" by simp
  have lt: "unat b < 256" by (rule unat_u8_lt)
  show ?thesis
    by (cases b rule: dec_u8_cases)
      (use b lt in \<open>auto simp: ipv4_octet_def to_digit_hex_digit hex_digit_eq_zero\<close>)
qed

lemma dec_u8_chars: "c \<in> set (dec_u8 b) \<Longrightarrow> \<exists>n<10. c = hex_digit n"
  by (cases b rule: dec_u8_cases) auto

lemma dec_u8_notin:
  "CHR ''.'' \<notin> set (dec_u8 b)" "CHR '','' \<notin> set (dec_u8 b)"
  by (auto dest!: dec_u8_chars simp: hex_digit_neq dest: sym)

lemma length_dec_u8: "length (dec_u8 b) \<le> 3"
  by (cases b rule: dec_u8_cases) auto

lemma ipv4_to_string_length: "length (ipv4_to_string ip) \<le> 15"
proof -
  have "length (dec_u8 a) + length (dec_u8 b) + length (dec_u8 c) + length (dec_u8 d) \<le> 12"
    for a b c d
    using length_dec_u8 [of a] length_dec_u8 [of b] length_dec_u8 [of c] length_dec_u8 [of d]
    by linarith
  then show ?thesis
    by (simp add: ipv4_to_string_def be32_def add.assoc)
qed

lemma ipv4_parse_to_string [simp]: "ipv4_parse (ipv4_to_string ip) = Some ip"
proof -
  have "split_on CHR ''.'' (ipv4_to_string ip) = map dec_u8 (be32 ip)"
    unfolding ipv4_to_string_def
    by (rule split_on_join) (auto simp: be32_def dec_u8_notin)
  then show ?thesis
    using ipv4_to_string_length [of ip]
    by (simp add: ipv4_parse_def be32_def be_simps)
qed

lemma ipv4_to_string_inj: "ipv4_to_string a = ipv4_to_string b \<longleftrightarrow> a = b"
  by (metis ipv4_parse_to_string option.inject)

lemma ipv4_to_string_chars:
  "c \<in> set (ipv4_to_string ip) \<Longrightarrow> c = CHR ''.'' \<or> (\<exists>n<10. c = hex_digit n)"
  by (auto simp: ipv4_to_string_def be32_def dest: dec_u8_chars)

lemma dec_u8_nonempty [simp]: "dec_u8 b \<noteq> []"
  by (cases b rule: dec_u8_cases) auto

lemma ipv4_to_string_nonempty [simp]: "ipv4_to_string ip \<noteq> []"
  by (simp add: ipv4_to_string_def be32_def)

section \<open>UTF-8 lemmas\<close>

lemma is_cont_0: "\<not> is_cont 0"
  by (simp add: is_cont_def)

lemma utf8_second_ok_0: "\<not> utf8_second_ok b 0"
  by (simp add: utf8_second_ok_def)

lemma is_cont_len: "is_cont (safe_get xs i) \<Longrightarrow> i < length xs"
  by (auto simp: safe_get_def is_cont_0 split: if_splits)

lemma second_ok_len: "utf8_second_ok b (safe_get xs i) \<Longrightarrow> i < length xs"
  by (auto simp: safe_get_def utf8_second_ok_0 split: if_splits)

lemma safe_get_take: "i < m \<Longrightarrow> m \<le> length xs \<Longrightarrow> safe_get (take m xs @ ys) i = safe_get xs i"
  by (simp add: safe_get_def nth_append)

lemma utf8_unit_okE:
  assumes "utf8_unit b rest = (n, True)"
  obtains "n - 1 \<le> length rest" and "0 < n"
    and "\<And>ys. utf8_unit b (take (n - 1) rest @ ys) = (n, True)"
proof -
  have "n - 1 \<le> length rest \<and> 0 < n"
    using assms
    by (auto simp: utf8_unit_def Let_def Suc_le_eq split: if_splits
        dest!: is_cont_len second_ok_len)
  moreover have "utf8_unit b (take (n - 1) rest @ ys) = (n, True)" for ys
    using assms calculation
    by (auto simp: utf8_unit_def Let_def safe_get_take split: if_splits)
  ultimately show thesis using that by blast
qed

lemma utf8_lossy_id: "utf8_valid bs \<Longrightarrow> utf8_lossy bs = bs"
proof (induction bs rule: utf8_lossy.induct)
  case (2 b rest)
  obtain n ok where u: "utf8_unit b rest = (n, ok)" by fastforce
  with 2 have ok: "ok" and IH: "utf8_lossy (drop (n - 1) rest) = drop (n - 1) rest"
    by auto
  from u ok have "0 < n" by (auto elim: utf8_unit_okE)
  then have "take n (b # rest) @ drop (n - 1) rest = b # rest"
    by (cases n) auto
  with u ok IH show ?case by simp
qed simp

lemma utf8_valid_append_unit:
  assumes "utf8_unit b rest = (n, True)"
  shows "utf8_valid (take n (b # rest) @ ys) = utf8_valid ys"
proof -
  obtain m where n: "n = Suc m" and len: "m \<le> length rest"
    using assms by (cases n) (auto elim: utf8_unit_okE)
  from assms have "utf8_unit b (take m rest @ ys) = (n, True)"
    by (rule utf8_unit_okE) (use n in simp)
  with n len show ?thesis by simp
qed

lemma utf8_valid_replacement: "utf8_valid (replacement @ ys) = utf8_valid ys"
  by (simp add: replacement_def utf8_unit_def utf8_width_def utf8_second_ok_def is_cont_def
      safe_get_def)

lemma utf8_valid_lossy [simp]: "utf8_valid (utf8_lossy bs)"
proof (induction bs rule: utf8_lossy.induct)
  case (2 b rest)
  obtain n ok where u: "utf8_unit b rest = (n, ok)" by fastforce
  with 2 have IH: "utf8_valid (utf8_lossy (drop (n - 1) rest))" by simp
  with u show ?case
    using utf8_valid_append_unit [of b rest n] by (cases ok) (auto simp: utf8_valid_replacement)
qed simp

lemma utf8_lossy_idem [simp]: "utf8_lossy (utf8_lossy bs) = utf8_lossy bs"
  by (simp add: utf8_lossy_id)

end
