(* ===== verification/Mac_Address.thy ===== *)
theory Mac_Address
  imports Rust_Text
begin

text \<open>
  Hardware addresses (\<open>crates/dhcp-proto/src/mac.rs\<close>). The array \<open>[u8; 6]\<close> is a
  constructor with six bytes, so its length is part of the type.
\<close>

datatype mac_address = MacAddress u8 u8 u8 u8 u8 u8

definition mac_new :: "u8 \<Rightarrow> u8 \<Rightarrow> u8 \<Rightarrow> u8 \<Rightarrow> u8 \<Rightarrow> u8 \<Rightarrow> mac_address" where
  "mac_new = MacAddress"

definition mac_from_slice :: "bytes \<Rightarrow> mac_address option" where
  "mac_from_slice data =
     (if 6 \<le> length data
      then Some (MacAddress (data ! 0) (data ! 1) (data ! 2) (data ! 3) (data ! 4) (data ! 5))
      else None)"

fun mac_as_bytes :: "mac_address \<Rightarrow> bytes" where
  "mac_as_bytes (MacAddress a b c d e f) = [a, b, c, d, e, f]"

definition mac_to_string :: "mac_address \<Rightarrow> string" where
  "mac_to_string m = join '':'' (map hex2 (mac_as_bytes m))"

text \<open>
  The loop of \<open>from_string\<close> stores each part's value at its index and leaves with
  \<open>None\<close> at the first part that is not a hexadecimal byte.
\<close>

definition mac_from_string :: "string \<Rightarrow> mac_address option" where
  "mac_from_string s =
     (let parts = split_on CHR '':'' s in
      if length parts \<noteq> 6 then None
      else do {
        bs \<leftarrow> those (map (\<lambda>part. u8_from_str_radix part 16) parts);
        mac_from_slice bs
      })"

section \<open>Properties\<close>

lemma length_mac_as_bytes [simp]: "length (mac_as_bytes m) = 6"
  by (cases m) simp

lemma mac_from_slice_as_bytes: "mac_from_slice (mac_as_bytes m @ rest) = Some m"
  by (cases m) (simp add: mac_from_slice_def)

lemma mac_from_slice_None_iff: "mac_from_slice s = None \<longleftrightarrow> length s < 6"
  by (auto simp: mac_from_slice_def)

lemma mac_as_bytes_from_slice: "mac_from_slice s = Some m \<Longrightarrow> mac_as_bytes m = take 6 s"
  by (auto simp: mac_from_slice_def numeral_eq_Suc Suc_le_length_iff split: if_splits)

lemma mac_to_string_split: "split_on CHR '':'' (mac_to_string m) = map hex2 (mac_as_bytes m)"
  unfolding mac_to_string_def
  by (rule split_on_join) (cases m, auto simp: colon_notin_hex2)

lemma those_map_Some: "(\<And>x. x \<in> set xs \<Longrightarrow> f x = Some (g x)) \<Longrightarrow> those (map f xs) = Some (map g xs)"
  by (induction xs) auto

lemma mac_from_to_string: "mac_from_string (mac_to_string m) = Some m"
proof -
  have "those (map (\<lambda>p. u8_from_str_radix p 16) (map hex2 (mac_as_bytes m))) = Some (mac_as_bytes m)"
    using those_map_Some [of "mac_as_bytes m" "\<lambda>b. u8_from_str_radix (hex2 b) 16" id]
    by (simp add: u8_from_str_radix_hex2 comp_def)
  then show ?thesis
    using mac_from_slice_as_bytes [of m "[]"]
    by (simp add: mac_from_string_def mac_to_string_split)
qed

lemma mac_to_string_inj: "mac_to_string m = mac_to_string m' \<longleftrightarrow> m = m'"
  by (metis mac_from_to_string option.inject)

lemma mac_to_string_lower [simp]: "to_lowercase (mac_to_string m) = mac_to_string m"
proof (rule to_lowercase_idem_on, cases m)
  fix a b c d e f assume m: "m = MacAddress a b c d e f"
  have "lower_char CHR '':'' = CHR '':''" by (simp add: lower_char_def)
  then show "\<forall>x\<in>set (mac_to_string m). lower_char x = x"
    by (auto simp: m mac_to_string_def lower_hex2)
qed

text \<open>
  \<open>MacAddress::to_string\<close> and \<open>from_string\<close> are inverse on every address: the text the
  server stores in a lease identifies the client, and it is already in lower case, so the case
  folding of the database lookups does not merge two clients.
\<close>

theorem mac_text_roundtrip:
  "mac_from_string (mac_to_string m) = Some m \<and>
   to_lowercase (mac_to_string m) = mac_to_string m \<and>
   (to_lowercase (mac_to_string m) = to_lowercase (mac_to_string m') \<longleftrightarrow> m = m')"
  by (simp add: mac_from_to_string mac_to_string_inj)

end
