(* ===== verification/Dhcp_Option.thy ===== *)
theory Dhcp_Option
  imports Mac_Address
begin

text \<open>
  Message types and options (\<open>crates/dhcp-proto/src/message_type.rs\<close>, \<open>option.rs\<close>). An
  \<open>Ipv4Addr\<close> is its 32-bit value; \<open>octets\<close> is \<open>be32\<close> and \<open>Ipv4Addr::new\<close>
  is \<open>of_be32\<close>.
\<close>

type_synonym ipv4 = u32

section \<open>Message types\<close>

datatype message_type = Discover | Offer | Request | Decline | Ack | Nak | Release | Inform

fun mt_to_u8 :: "message_type \<Rightarrow> u8" where
  "mt_to_u8 Discover = 1"
| "mt_to_u8 Offer = 2"
| "mt_to_u8 Request = 3"
| "mt_to_u8 Decline = 4"
| "mt_to_u8 Ack = 5"
| "mt_to_u8 Nak = 6"
| "mt_to_u8 Release = 7"
| "mt_to_u8 Inform = 8"

definition mt_from_u8 :: "u8 \<Rightarrow> message_type option" where
  "mt_from_u8 v =
     (if v = 1 then Some Discover else if v = 2 then Some Offer
      else if v = 3 then Some Request else if v = 4 then Some Decline
      else if v = 5 then Some Ack else if v = 6 then Some Nak
      else if v = 7 then Some Release else if v = 8 then Some Inform
      else None)"

text \<open>
  \<open>DhcpMessageType\<close> of \<open>crates/ndhcpd/src/dhcp/mod.rs\<close>, kept there for backward compatibility, with
  the discriminants of its \<open>repr(u8)\<close>.
\<close>

datatype dhcp_message_type =
    DMT_Discover | DMT_Offer | DMT_Request | DMT_Decline | DMT_Ack | DMT_Nak | DMT_Release | DMT_Inform

fun dmt_repr :: "dhcp_message_type \<Rightarrow> u8" where
  "dmt_repr DMT_Discover = 1"
| "dmt_repr DMT_Offer = 2"
| "dmt_repr DMT_Request = 3"
| "dmt_repr DMT_Decline = 4"
| "dmt_repr DMT_Ack = 5"
| "dmt_repr DMT_Nak = 6"
| "dmt_repr DMT_Release = 7"
| "dmt_repr DMT_Inform = 8"

definition dmt_from_u8 :: "u8 \<Rightarrow> dhcp_message_type option" where
  "dmt_from_u8 v =
     map_option (\<lambda>mt. case mt of Discover \<Rightarrow> DMT_Discover | Offer \<Rightarrow> DMT_Offer | Request \<Rightarrow> DMT_Request
       | Decline \<Rightarrow> DMT_Decline | Ack \<Rightarrow> DMT_Ack | Nak \<Rightarrow> DMT_Nak | Release \<Rightarrow> DMT_Release
       | Inform \<Rightarrow> DMT_Inform) (mt_from_u8 v)"

section \<open>Options\<close>

datatype dhcp_option =
    SubnetMask ipv4
  | Router "ipv4 list"
  | DnsServer "ipv4 list"
  | DomainName string
  | RequestedIpAddress ipv4
  | LeaseTime u32
  | MessageType message_type
  | ServerIdentifier ipv4
  | RenewalTime u32
  | RebindingTime u32
  | Hostname string
  | End
  | Unknown u8 bytes

text \<open>\<open>data.chunks_exact(4)\<close>, each chunk read as an address; a shorter tail is dropped.\<close>

fun ipv4_chunks :: "bytes \<Rightarrow> ipv4 list" where
  "ipv4_chunks (a # b # c # d # rest) = of_be32 a b c d # ipv4_chunks rest"
| "ipv4_chunks _ = []"

definition be32_at :: "bytes \<Rightarrow> nat \<Rightarrow> u32" where
  "be32_at data i = of_be32 (data ! i) (data ! (i + 1)) (data ! (i + 2)) (data ! (i + 3))"

definition option_parse :: "u8 \<Rightarrow> bytes \<Rightarrow> dhcp_option" where
  "option_parse code data =
     (if code = 1 \<and> length data = 4 then SubnetMask (be32_at data 0)
      else if code = 3 then Router (ipv4_chunks data)
      else if code = 6 then DnsServer (ipv4_chunks data)
      else if code = 15 then DomainName (from_utf8_lossy data)
      else if code = 50 \<and> length data = 4 then RequestedIpAddress (be32_at data 0)
      else if code = 51 \<and> length data = 4 then LeaseTime (be32_at data 0)
      else if code = 53 \<and> length data = 1 then
        (case mt_from_u8 (data ! 0) of Some mt \<Rightarrow> MessageType mt | None \<Rightarrow> Unknown code data)
      else if code = 54 \<and> length data = 4 then ServerIdentifier (be32_at data 0)
      else if code = 58 \<and> length data = 4 then RenewalTime (be32_at data 0)
      else if code = 59 \<and> length data = 4 then RebindingTime (be32_at data 0)
      else if code = 12 then Hostname (from_utf8_lossy data)
      else Unknown code data)"

text \<open>The length byte is an \<open>as u8\<close> cast: it is the length modulo 256.\<close>

fun option_to_bytes :: "dhcp_option \<Rightarrow> bytes" where
  "option_to_bytes (SubnetMask addr) = [1, 4] @ be32 addr"
| "option_to_bytes (Router addrs) = [3, of_nat (length addrs * 4)] @ concat (map be32 addrs)"
| "option_to_bytes (DnsServer addrs) = [6, of_nat (length addrs * 4)] @ concat (map be32 addrs)"
| "option_to_bytes (DomainName name) = [15, of_nat (length name)] @ bytes_of name"
| "option_to_bytes (RequestedIpAddress addr) = [50, 4] @ be32 addr"
| "option_to_bytes (LeaseTime time) = [51, 4] @ be32 time"
| "option_to_bytes (MessageType mt) = [53, 1, mt_to_u8 mt]"
| "option_to_bytes (ServerIdentifier addr) = [54, 4] @ be32 addr"
| "option_to_bytes (RenewalTime time) = [58, 4] @ be32 time"
| "option_to_bytes (RebindingTime time) = [59, 4] @ be32 time"
| "option_to_bytes (Hostname name) = [12, of_nat (length name)] @ bytes_of name"
| "option_to_bytes End = []"
| "option_to_bytes (Unknown code data) = [code, of_nat (length data)] @ data"

text \<open>
  An option fits the wire format when its data has at most 255 bytes; a text is the UTF-8 text a
  Rust \<open>String\<close> always is, and \<open>Unknown\<close> holds what \<open>parse\<close> would leave unknown.
\<close>

fun option_fits :: "dhcp_option \<Rightarrow> bool" where
  "option_fits (Router addrs) \<longleftrightarrow> length addrs \<le> 63"
| "option_fits (DnsServer addrs) \<longleftrightarrow> length addrs \<le> 63"
| "option_fits (DomainName name) \<longleftrightarrow> length name \<le> 255 \<and> utf8_valid (bytes_of name)"
| "option_fits (Hostname name) \<longleftrightarrow> length name \<le> 255 \<and> utf8_valid (bytes_of name)"
| "option_fits (Unknown code data) \<longleftrightarrow>
     code \<noteq> 0 \<and> code \<noteq> 255 \<and> length data \<le> 255 \<and> option_parse code data = Unknown code data"
| "option_fits _ \<longleftrightarrow> True"

section \<open>Lemmas\<close>

lemma mt_from_to_u8 [simp]: "mt_from_u8 (mt_to_u8 mt) = Some mt"
  by (cases mt) (simp_all add: mt_from_u8_def)

lemma mt_from_u8_Some: "mt_from_u8 v = Some mt \<Longrightarrow> v = mt_to_u8 mt"
  by (auto simp: mt_from_u8_def split: if_splits)

lemma mt_from_u8_None_iff: "mt_from_u8 v = None \<longleftrightarrow> v = 0 \<or> 8 < v"
  by (auto simp: mt_from_u8_def) unat_arith+

lemma dmt_from_u8_iff: "dmt_from_u8 v = Some d \<longleftrightarrow> v = dmt_repr d"
  by (cases d) (auto simp: dmt_from_u8_def mt_from_u8_def split: if_splits)

lemma be32_at_be32 [simp]: "be32_at (be32 w) 0 = w"
  by (simp add: be32_at_def be32_def be_simps)

lemma be32_at_0: "length bs = 4 \<Longrightarrow> be32 (be32_at bs 0) = bs"
  by (auto simp: be32_at_def be_simps length_Suc_conv numeral_eq_Suc)

lemma ipv4_chunks_be32 [simp]: "ipv4_chunks (be32 w @ rest) = w # ipv4_chunks rest"
  by (simp add: be32_def be_simps)

lemma ipv4_chunks_concat [simp]: "ipv4_chunks (concat (map be32 addrs)) = addrs"
  by (induction addrs) auto

lemma length_concat_be32 [simp]: "length (concat (map be32 addrs)) = 4 * length addrs"
  by (induction addrs) auto

lemma length_ipv4_chunks: "length (ipv4_chunks bs) = length bs div 4"
  by (induction bs rule: ipv4_chunks.induct) auto

lemma from_utf8_lossy_bytes_of [simp]:
  "utf8_valid (bytes_of s) \<Longrightarrow> from_utf8_lossy (bytes_of s) = s"
  by (simp add: from_utf8_lossy_def utf8_lossy_id)

text \<open>
  The shape of an option that fits: a code that is neither padding nor the end marker, the
  length of the data, and data from which \<open>parse\<close> gives the option back.
\<close>

lemma option_to_bytes_shape:
  assumes "option_fits x" and "x \<noteq> End"
  obtains code data where "option_to_bytes x = code # of_nat (length data) # data"
    and "length data \<le> 255" and "code \<noteq> 0" and "code \<noteq> 255" and "option_parse code data = x"
proof (cases x)
  case (Unknown code data)
  with assms show thesis by (intro that [of code data]) auto
qed (use assms in \<open>auto simp: option_parse_def mult.commute intro: that\<close>)

end
