(* ===== verification/Dhcp_Packet.thy ===== *)
theory Dhcp_Packet
  imports Dhcp_Option
begin

text \<open>
  The DHCP message (\<open>crates/dhcp-proto/src/packet.rs\<close>): its fields, the parser with its
  option loop, and the serialiser. The error of \<open>Result<Self, String>\<close> is \<open>Inl\<close>.
\<close>

record dhcp_packet =
  op :: u8
  htype :: u8
  hlen :: u8
  hops :: u8
  xid :: u32
  secs :: u16
  flags :: u16
  ciaddr :: ipv4
  yiaddr :: ipv4
  siaddr :: ipv4
  giaddr :: ipv4
  chaddr :: mac_address
  options :: "dhcp_option list"

definition DHCP_MAGIC_COOKIE :: bytes where
  "DHCP_MAGIC_COOKIE = [99, 130, 83, 99]"

definition packet_new :: dhcp_packet where
  "packet_new = \<lparr> op = 1, htype = 1, hlen = 6, hops = 0, xid = 0, secs = 0, flags = 0,
     ciaddr = 0, yiaddr = 0, siaddr = 0, giaddr = 0, chaddr = MacAddress 0 0 0 0 0 0,
     options = [] \<rparr>"

text \<open>The \<open>while i < data.len()\<close> loop over the options.\<close>

function parse_options :: "bytes \<Rightarrow> nat \<Rightarrow> dhcp_option list" where
  "parse_options data i =
     (if length data \<le> i then []
      else if data ! i = 255 then [End]
      else if data ! i = 0 then parse_options data (i + 1)
      else if length data \<le> i + 1 then []
      else if length data < i + 2 + unat (data ! (i + 1)) then []
      else option_parse (data ! i) (take (unat (data ! (i + 1))) (drop (i + 2) data)) #
        parse_options data (i + 2 + unat (data ! (i + 1))))"
  by pat_completeness auto
termination
  by (relation "measure (\<lambda>(data, i). length data - i)") auto

declare parse_options.simps [simp del]

definition packet_parse :: "bytes \<Rightarrow> string + dhcp_packet" where
  "packet_parse data =
     (if length data < 240 then Inl ''Packet too small''
      else case mac_from_slice (take 6 (drop 28 data)) of
        None \<Rightarrow> Inl ''Invalid MAC address''
      | Some mac \<Rightarrow> Inr
        \<lparr> op = data ! 0, htype = data ! 1, hlen = data ! 2, hops = data ! 3,
          xid = be32_at data 4,
          secs = of_be16 (data ! 8) (data ! 9), flags = of_be16 (data ! 10) (data ! 11),
          ciaddr = be32_at data 12, yiaddr = be32_at data 16,
          siaddr = be32_at data 20, giaddr = be32_at data 24,
          chaddr = mac,
          options =
            (if 240 < length data \<and> take 4 (drop 236 data) = DHCP_MAGIC_COOKIE
             then parse_options data 240 else []) \<rparr>)"

text \<open>The fixed fields at offsets 0 to 34; the bytes 34 to 236 of the vector stay zero.\<close>

definition packet_header :: "dhcp_packet \<Rightarrow> bytes" where
  "packet_header p =
     [op p, htype p, hlen p, hops p] @ be32 (xid p) @ be16 (secs p) @ be16 (flags p) @
     be32 (ciaddr p) @ be32 (yiaddr p) @ be32 (siaddr p) @ be32 (giaddr p) @
     mac_as_bytes (chaddr p)"

definition packet_to_bytes :: "dhcp_packet \<Rightarrow> bytes" where
  "packet_to_bytes p =
     packet_header p @ replicate 202 0 @ DHCP_MAGIC_COOKIE @
     concat (map option_to_bytes (options p)) @ [255]"

definition get_message_type :: "dhcp_packet \<Rightarrow> message_type option" where
  "get_message_type p =
     find_map (\<lambda>x. case x of MessageType mt \<Rightarrow> Some mt | _ \<Rightarrow> None) (options p)"

text \<open>A packet whose options all fit the one-byte length.\<close>

definition packet_fits :: "dhcp_packet \<Rightarrow> bool" where
  "packet_fits p \<longleftrightarrow> (\<forall>x\<in>set (options p). option_fits x)"

section \<open>Lemmas\<close>

lemma length_packet_header [simp]: "length (packet_header p) = 34"
  by (simp add: packet_header_def)

lemma length_cookie [simp]: "length DHCP_MAGIC_COOKIE = 4"
  by (simp add: DHCP_MAGIC_COOKIE_def)

lemma packet_to_bytes_length: "241 \<le> length (packet_to_bytes p)"
  by (simp add: packet_to_bytes_def)

lemma parse_options_end: "parse_options (pre @ 255 # post) (length pre) = [End]"
  by (simp add: parse_options.simps)

lemma parse_options_one:
  assumes "code \<noteq> 0" and "code \<noteq> 255" and "length d \<le> 255"
  shows "parse_options (pre @ code # of_nat (length d) # d @ post) (length pre) =
    option_parse code d #
      parse_options (pre @ code # of_nat (length d) # d @ post) (length pre + 2 + length d)"
proof -
  let ?data = "pre @ code # of_nat (length d) # d @ post"
  have "unat (of_nat (length d) :: u8) = length d"
    using assms(3) by (simp add: unat_of_nat take_bit_nat_eq_self)
  moreover have "?data ! (length pre + 1) = of_nat (length d)"
    by (simp add: nth_append)
  ultimately show ?thesis
    using assms(1,2) by (simp add: parse_options.simps [of ?data "length pre"])
qed

lemma parse_options_concat:
  "\<forall>x\<in>set opts. option_fits x \<Longrightarrow>
   parse_options (pre @ concat (map option_to_bytes opts) @ 255 # post) (length pre) =
     filter (\<lambda>x. x \<noteq> End) opts @ [End]"
proof (induction opts arbitrary: pre)
  case Nil
  show ?case by (simp add: parse_options_end)
next
  case (Cons x opts)
  show ?case
  proof (cases "x = End")
    case True
    with Cons show ?thesis by simp
  next
    case False
    with Cons.prems obtain code d where x: "option_to_bytes x = code # of_nat (length d) # d"
        and d: "length d \<le> 255" and code: "code \<noteq> 0" "code \<noteq> 255"
        and parsed: "option_parse code d = x"
      by (auto elim: option_to_bytes_shape)
    have "parse_options ((pre @ option_to_bytes x) @ concat (map option_to_bytes opts) @ 255 # post)
        (length (pre @ option_to_bytes x)) = filter (\<lambda>x. x \<noteq> End) opts @ [End]"
      using Cons.prems by (intro Cons.IH) simp
    with x parse_options_one [OF code d, of pre "concat (map option_to_bytes opts) @ 255 # post"]
    show ?thesis using False parsed by (simp add: add.assoc)
  qed
qed

lemma packet_parse_to_bytes_gen:
  assumes "packet_fits p"
  shows "packet_parse (packet_to_bytes p @ post) =
    Inr (p\<lparr> options := filter (\<lambda>x. x \<noteq> End) (options p) @ [End] \<rparr>)"
proof -
  let ?data = "packet_to_bytes p @ post"
  let ?rest = "concat (map option_to_bytes (options p)) @ 255 # post"
  let ?pre = "packet_header p @ replicate 202 0 @ DHCP_MAGIC_COOKIE"
  have data: "?data = ?pre @ ?rest" and pre: "length ?pre = 240"
    by (simp_all add: packet_to_bytes_def)
  have "parse_options ?data 240 = filter (\<lambda>x. x \<noteq> End) (options p) @ [End]"
    using parse_options_concat [of "options p" ?pre post] assms
    by (simp add: packet_fits_def packet_to_bytes_def)
  moreover have "take 4 (drop 236 ?data) = DHCP_MAGIC_COOKIE" and "240 < length ?data"
    by (simp_all add: packet_to_bytes_def)
  moreover have "mac_from_slice (take 6 (drop 28 ?data)) = Some (chaddr p)"
    using mac_from_slice_as_bytes [of "chaddr p" "[]"]
    by (simp add: packet_to_bytes_def packet_header_def be32_def be16_def)
  ultimately show ?thesis
    by (simp add: packet_parse_def)
      (simp add: packet_to_bytes_def packet_header_def be32_def be16_def be32_at_def be_simps)
qed

lemma get_message_type_Some_in:
  "get_message_type p = Some mt \<Longrightarrow> MessageType mt \<in> set (options p)"
  by (auto simp: get_message_type_def dest!: find_map_Some_in split: dhcp_option.splits)

section \<open>Properties\<close>

text \<open>
  C31. A message survives the wire: when every option fits its one-byte length, parsing the
  bytes of the message, with anything after the end marker, gives the message back, with the
  end marker as its last option and nowhere else.
\<close>

theorem packet_roundtrip:
  assumes "packet_fits p"
  shows "packet_parse (packet_to_bytes p @ post) =
    Inr (p\<lparr> options := filter (\<lambda>x. x \<noteq> End) (options p) @ [End] \<rparr>)"
  by (rule packet_parse_to_bytes_gen [OF assms])

theorem packet_roundtrip_witness:
  "packet_parse (packet_to_bytes (packet_new\<lparr> xid := 5, options := [MessageType Discover, Hostname ''pc''] \<rparr>) @ [0, 0]) =
     Inr (packet_new\<lparr> xid := 5, options := [MessageType Discover, Hostname ''pc'', End] \<rparr>)"
proof -
  have "packet_fits (packet_new\<lparr> xid := 5, options := [MessageType Discover, Hostname ''pc''] \<rparr>)"
    by code_simp
  from packet_roundtrip [OF this] show ?thesis by simp
qed

text \<open>
  The parser accepts exactly the datagrams of at least 240 bytes, and its only error is the
  one for shorter ones; the hardware address never fails to parse. On an accepted datagram it
  reads the fixed fields, and options only after the magic cookie.
\<close>

theorem packet_parse_total:
  "case packet_parse data of
     Inl e \<Rightarrow> length data < 240 \<and> e = ''Packet too small''
   | Inr p \<Rightarrow> 240 \<le> length data \<and> mac_as_bytes (chaddr p) = take 6 (drop 28 data) \<and>
       be32 (xid p) = take 4 (drop 4 data) \<and> be32 (ciaddr p) = take 4 (drop 12 data) \<and>
       be32 (giaddr p) = take 4 (drop 24 data) \<and>
       options p = (if 240 < length data \<and> take 4 (drop 236 data) = DHCP_MAGIC_COOKIE
         then parse_options data 240 else [])"
proof (cases "length data < 240")
  case False
  then obtain mac where mac: "mac_from_slice (take 6 (drop 28 data)) = Some mac"
    using mac_from_slice_None_iff [of "take 6 (drop 28 data)"] by fastforce
  have word: "be32 (be32_at data i) = take 4 (drop i data)" if "i + 4 \<le> length data" for i
    using that be32_at_0 [of "take 4 (drop i data)"] by (simp add: be32_at_def)
  show ?thesis
    using False mac mac_as_bytes_from_slice [OF mac] word by (auto simp: packet_parse_def)
qed (simp add: packet_parse_def)

end
