(* ===== verification/Models.thy ===== *)
theory Models
  imports Dhcp_Packet
begin

text \<open>
  The records of \<open>crates/ndhcpd/src/models.rs\<close> and \<open>config.rs\<close>. Field names carry a
  prefix for their record, since several Rust structs share names such as \<open>id\<close>. An
  \<open>Ipv6Addr\<close> is its 128-bit value. YAML and JSON (de)serialisation is done by serde and is
  not modelled; the values it falls back to are.
\<close>

section \<open>Data model\<close>

type_synonym ipv6 = "128 word"

record subnet =
  s_id :: "i64 option"
  s_network :: ipv4
  s_netmask :: u8
  s_gateway :: ipv4
  s_dns_servers :: "ipv4 list"
  s_domain_name :: "string option"

record dynamic_range =
  r_id :: "i64 option"
  r_subnet_id :: i64
  r_range_start :: ipv4
  r_range_end :: ipv4
  r_enabled :: bool

record static_ip =
  st_subnet_id :: i64
  st_mac_address :: string
  st_ip_address :: ipv4
  st_hostname :: "string option"

record lease =
  l_id :: "i64 option"
  l_subnet_id :: i64
  l_mac_address :: string
  l_ip_address :: ipv4
  l_lease_start :: i64
  l_lease_end :: i64
  l_hostname :: "string option"

record api_token =
  tk_id :: "i64 option"
  tk_name :: string
  tk_token_hash :: "string option"
  tk_salt :: "string option"
  tk_created_at :: "i64 option"
  tk_last_used_at :: "i64 option"
  tk_enabled :: bool
  tk_token :: "string option"

record create_token_response =
  ctr_id :: i64
  ctr_name :: string
  ctr_token :: string

record ia_prefix =
  p_id :: "i64 option"
  p_interface :: string
  p_prefix :: ipv6
  p_prefix_len :: u8
  p_preferred_lifetime :: u32
  p_valid_lifetime :: u32
  p_dns_servers :: "ipv6 list"
  p_dns_lifetime :: u32

definition default_true :: bool where
  "default_true = True"

text \<open>\<open>Subnet::dns_servers_to_string\<close> and \<open>Subnet::dns_servers_from_string\<close>.\<close>

definition dns_servers_to_string :: "subnet \<Rightarrow> string" where
  "dns_servers_to_string s = join '','' (map ipv4_to_string (s_dns_servers s))"

definition dns_servers_from_string :: "string \<Rightarrow> ipv4 list" where
  "dns_servers_from_string s = List.map_filter (\<lambda>ip. ipv4_parse (trim ip)) (split_on CHR '','' s)"

section \<open>Configuration\<close>

record logging_config =
  log_syslog :: bool
  log_level :: string

record api_config =
  api_listen_address :: string
  api_port :: u16
  api_unix_socket :: "string option"
  api_require_authentication :: "bool option"

record dhcp_config =
  default_lease_time :: u32
  max_lease_time :: u32
  lease_cleanup_interval_minutes :: u32

record ra_config =
  ra_enabled :: bool
  ip6_listen_interfaces :: "string list"
  default_preferred_lifetime :: u32
  default_valid_lifetime :: u32
  default_dns_lifetime :: u32

record config =
  listen_interfaces :: "string list"
  database_path :: string
  cfg_api :: api_config
  cfg_dhcp :: dhcp_config
  cfg_ra :: "ra_config option"
  cfg_logging :: logging_config

text \<open>The two targets the sources distinguish with \<open>cfg(target_os)\<close>.\<close>

datatype target_os = Linux | FreeBSD

definition logging_default :: logging_config where
  "logging_default = \<lparr> log_syslog = False, log_level = ''info'' \<rparr>"

fun default_db_path :: "target_os \<Rightarrow> string" where
  "default_db_path FreeBSD = ''/var/db/ndhcpd.db''"
| "default_db_path Linux = ''/var/lib/ndhcpd/dhcp.db''"

definition ra_default :: ra_config where
  "ra_default = \<lparr> ra_enabled = False, ip6_listen_interfaces = [],
     default_preferred_lifetime = 86400, default_valid_lifetime = 2592000,
     default_dns_lifetime = 86400 \<rparr>"

definition config_default :: "target_os \<Rightarrow> config" where
  "config_default os = \<lparr> listen_interfaces = [''eth0''], database_path = default_db_path os,
     cfg_api = \<lparr> api_listen_address = ''127.0.0.1'', api_port = 8080,
       api_unix_socket = Some ''/var/run/ndhcpd.sock'', api_require_authentication = Some False \<rparr>,
     cfg_dhcp = \<lparr> default_lease_time = 86400, max_lease_time = 604800,
       lease_cleanup_interval_minutes = 60 \<rparr>,
     cfg_ra = None, cfg_logging = logging_default \<rparr>"

section \<open>Lemmas\<close>

definition ws_code :: "nat \<Rightarrow> bool" where
  "ws_code n \<longleftrightarrow> n \<le> 32 \<or> 128 \<le> n"

lemma white_space_ends:
  "\<forall>w\<in>set white_space. ws_code (of_char (hd w)) \<and> ws_code (of_char (last w))"
  by (simp add: white_space_def string_of_def ws_code_def upt_rec)

lemma trim_start_id: "\<not> ws_code (of_char (hd s)) \<Longrightarrow> trim_start s = s"
proof -
  assume hd: "\<not> ws_code (of_char (hd s))"
  have "\<not> prefix w s" if "w \<in> set white_space" for w
    using hd white_space_ends white_space_nonempty [OF that] that
    by (auto simp: prefix_def)
  then have "strip_ws_prefix s = None"
    by (auto simp: strip_ws_prefix_def find_None_iff)
  then show ?thesis by (simp add: trim_start.simps)
qed

lemma trim_end_id: "\<not> ws_code (of_char (last s)) \<Longrightarrow> trim_end s = s"
proof -
  assume last: "\<not> ws_code (of_char (last s))"
  have "\<not> suffix w s" if "w \<in> set white_space" for w
    using last white_space_ends white_space_nonempty [OF that] that
    by (auto simp: suffix_def)
  then have "strip_ws_suffix s = None"
    by (auto simp: strip_ws_suffix_def find_None_iff)
  then show ?thesis by (simp add: trim_end.simps)
qed

lemma ipv4_char_not_ws: "c \<in> set (ipv4_to_string ip) \<Longrightarrow> \<not> ws_code (of_char c)"
  by (auto dest!: ipv4_to_string_chars simp: ws_code_def hex_digit_of_char)

lemma trim_ipv4_to_string [simp]: "trim (ipv4_to_string ip) = ipv4_to_string ip"
  using ipv4_char_not_ws [of "hd (ipv4_to_string ip)" ip]
    ipv4_char_not_ws [of "last (ipv4_to_string ip)" ip]
  by (simp add: trim_def trim_start_id trim_end_id)

lemma comma_notin_ipv4: "CHR '','' \<notin> set (ipv4_to_string ip)"
  by (auto dest!: ipv4_to_string_chars simp: hex_digit_neq dest: sym)

lemma trim_Nil [simp]: "trim [] = []"
proof -
  have "strip_ws_prefix [] = None" and "strip_ws_suffix [] = None"
    using strip_ws_prefix_shorter [of "[]"] strip_ws_suffix_shorter [of "[]"] by fastforce+
  then show ?thesis by (simp add: trim_def trim_start.simps trim_end.simps)
qed

lemma map_filter_Some: "(\<And>x. x \<in> set xs \<Longrightarrow> f (g x) = Some x) \<Longrightarrow> List.map_filter f (map g xs) = xs"
  by (induction xs) (auto simp: List.map_filter_def)

text \<open>A list of addresses stored as one comma-separated column is read back as it was, in order.\<close>

lemma comma_column_roundtrip:
  assumes "\<And>x. parse (trim (show x)) = Some x" and "\<And>x. CHR '','' \<notin> set (show x)" and "parse [] = None"
  shows "List.map_filter (\<lambda>t. parse (trim t)) (split_on CHR '','' (join '','' (map show xs))) = xs"
proof (cases xs)
  case Nil
  with assms(3) show ?thesis by (simp add: List.map_filter_def)
next
  case (Cons x xs')
  then have "split_on CHR '','' (join '','' (map show xs)) = map show xs"
    using assms(2) by (intro split_on_join) auto
  with assms(1) show ?thesis by (simp add: map_filter_Some)
qed

lemma ipv4_parse_Nil: "ipv4_parse [] = None"
  by (simp add: ipv4_parse_def)

lemma dns_servers_roundtrip [simp]:
  "dns_servers_from_string (dns_servers_to_string s) = s_dns_servers s"
  unfolding dns_servers_from_string_def dns_servers_to_string_def
  by (rule comma_column_roundtrip) (simp_all add: comma_notin_ipv4 ipv4_parse_Nil)

end
