(* ===== verification/Database.thy ===== *)
theory Database
  imports Models
begin

text \<open>
  The \<open>Database\<close> trait (\<open>crates/ndhcpd/src/db/mod.rs\<close>). A trait object is a record of
  its methods over a state type: a method that may change the database takes the state and
  returns its result with the new state, a method that only reads returns its result. Methods
  whose implementations read the system clock take the reading \<open>now\<close> as an argument. An
  \<open>anyhow::Error\<close> is \<open>Inl\<close>; what the callers ask of it is whether it is a unique
  violation reported by the database driver.

  The locale states what the DHCP server relies on; \<open>Memory_Db\<close> interprets it.
\<close>

section \<open>The trait\<close>

datatype db_error =
    SqlxDatabase bool  \<comment> \<open>\<open>sqlx::Error::Database\<close>, with the driver's \<open>is_unique_violation()\<close>\<close>
  | SqlxOther
  | OtherError string

fun is_unique_violation :: "db_error \<Rightarrow> bool" where
  "is_unique_violation (SqlxDatabase unique) = unique"
| "is_unique_violation SqlxOther = False"
| "is_unique_violation (OtherError _) = False"

type_synonym ('db, 'a) db_read = "'db \<Rightarrow> db_error + 'a"
type_synonym ('db, 'a) db_write = "'db \<Rightarrow> (db_error + 'a) \<times> 'db"

record 'db database =
  db_create_subnet :: "subnet \<Rightarrow> ('db, i64) db_write"
  db_get_subnet :: "i64 \<Rightarrow> ('db, subnet option) db_read"
  db_list_subnets :: "('db, subnet list) db_read"
  db_update_subnet :: "i64 \<Rightarrow> subnet \<Rightarrow> ('db, unit) db_write"
  db_delete_subnet :: "i64 \<Rightarrow> ('db, unit) db_write"
  db_create_range :: "dynamic_range \<Rightarrow> ('db, i64) db_write"
  db_list_ranges :: "i64 option \<Rightarrow> ('db, dynamic_range list) db_read"
  db_delete_range :: "i64 \<Rightarrow> ('db, unit) db_write"
  db_create_static_ip :: "static_ip \<Rightarrow> ('db, unit) db_write"
  db_list_static_ips :: "i64 option \<Rightarrow> ('db, static_ip list) db_read"
  db_get_static_ip_by_mac :: "string \<Rightarrow> ('db, static_ip option) db_read"
  db_update_static_ip_hostname :: "string \<Rightarrow> string option \<Rightarrow> ('db, unit) db_write"
  db_delete_static_ip :: "string \<Rightarrow> ('db, unit) db_write"
  db_create_lease :: "lease \<Rightarrow> ('db, i64) db_write"
  db_get_active_lease :: "i64 \<Rightarrow> string \<Rightarrow> ('db, lease option) db_read"
  db_list_active_leases :: "i64 \<Rightarrow> ('db, lease list) db_read"
  db_expire_lease :: "i64 \<Rightarrow> ('db, unit) db_write"
  db_delete_expired_leases :: "i64 \<Rightarrow> ('db, nat) db_write"
  db_create_ia_prefix :: "ia_prefix \<Rightarrow> ('db, i64) db_write"
  db_get_ia_prefix :: "i64 \<Rightarrow> ('db, ia_prefix option) db_read"
  db_list_ia_prefixes :: "string option \<Rightarrow> ('db, ia_prefix list) db_read"
  db_update_ia_prefix :: "i64 \<Rightarrow> ia_prefix \<Rightarrow> ('db, unit) db_write"
  db_delete_ia_prefix :: "i64 \<Rightarrow> ('db, unit) db_write"
  db_list_tokens :: "('db, (string \<times> i64) list) db_read"
  db_list_api_tokens :: "('db, api_token list) db_read"
  db_create_token :: "i64 \<Rightarrow> string \<Rightarrow> string \<Rightarrow> string \<Rightarrow> ('db, i64) db_write"
  db_delete_token :: "i64 \<Rightarrow> ('db, unit) db_write"
  db_toggle_token :: "i64 \<Rightarrow> bool \<Rightarrow> ('db, unit) db_write"
  db_update_token_last_used :: "i64 \<Rightarrow> string \<Rightarrow> ('db, unit) db_write"

section \<open>Tables with generated identifiers\<close>

text \<open>
  Subnets, ranges, leases and IPv6 prefixes are rows that receive an identifier when they are
  inserted. A table is abstracted to the finite map from identifiers to rows; \<open>table_ok n\<close>
  says that identifiers are unique, below the counter, and that the counter can serve \<open>n\<close>
  more insertions before it leaves the range of \<open>i64\<close>.
\<close>

definition table_map :: "('row \<Rightarrow> i64 option) \<Rightarrow> 'row list \<Rightarrow> i64 \<Rightarrow> 'row option" where
  "table_map row_id rs i = List.find (\<lambda>r. row_id r = Some i) rs"

definition table_ok :: "('row \<Rightarrow> i64 option) \<Rightarrow> nat \<Rightarrow> 'row list \<Rightarrow> i64 \<Rightarrow> bool" where
  "table_ok row_id n rs nxt \<longleftrightarrow>
     1 \<le> nxt \<and> nxt + int n \<le> i64_max \<and> distinct (map row_id rs) \<and>
     list_all (\<lambda>r. case row_id r of None \<Rightarrow> False | Some i \<Rightarrow> 1 \<le> i \<and> i < nxt) rs"

lemma table_ok_mono: "table_ok f n rs nxt \<Longrightarrow> m \<le> n \<Longrightarrow> table_ok f m rs nxt"
  by (auto simp: table_ok_def)

lemma table_ok_empty: "int n < i64_max \<Longrightarrow> table_ok f n [] 1"
  by (simp add: table_ok_def)

lemma table_ok_fresh: "table_ok f n rs nxt \<Longrightarrow> r \<in> set rs \<Longrightarrow> f r \<noteq> Some nxt"
  by (auto simp: table_ok_def list_all_iff split: option.splits)

lemma table_ok_Some: "table_ok f n rs nxt \<Longrightarrow> r \<in> set rs \<Longrightarrow> f r \<noteq> None"
  by (auto simp: table_ok_def list_all_iff split: option.splits)

lemma table_ok_inj: "table_ok f n rs nxt \<Longrightarrow> inj_on f (set rs)"
  by (simp add: table_ok_def distinct_map)

lemma table_ok_next: "table_ok f (Suc n) rs nxt \<Longrightarrow> i64_add nxt 1 = nxt + 1"
  by (auto simp: table_ok_def intro!: i64_add_id)

lemma table_ok_snoc:
  "table_ok f (Suc n) rs nxt \<Longrightarrow> f r = Some nxt \<Longrightarrow> table_ok f n (rs @ [r]) (i64_add nxt 1)"
  using table_ok_fresh [of f "Suc n" rs nxt] table_ok_next [of f n rs nxt]
  by (force simp: table_ok_def list_all_iff split: option.splits)

lemma table_ok_filter: "table_ok f n rs nxt \<Longrightarrow> table_ok f n (filter p rs) nxt"
  by (auto simp: table_ok_def list_all_iff distinct_map intro: inj_on_subset)

lemma table_ok_update_first:
  "table_ok f n rs nxt \<Longrightarrow> (\<And>r. p r \<Longrightarrow> f (g r) = f r) \<Longrightarrow> table_ok f n (update_first p g rs) nxt"
  by (auto simp: table_ok_def map_update_first_at)
    (induction rs, auto split: option.splits)

lemma find_update_first_same:
  "(\<And>r. p r \<Longrightarrow> p (g r)) \<Longrightarrow> List.find p (update_first p g rs) = map_option g (List.find p rs)"
  by (induction rs) auto

lemma find_update_first_other:
  "(\<And>r. p r \<Longrightarrow> \<not> q r) \<Longrightarrow> (\<And>r. p r \<Longrightarrow> \<not> q (g r)) \<Longrightarrow>
   List.find q (update_first p g rs) = List.find q rs"
  by (induction rs) auto

lemma find_append:
  "List.find p (xs @ ys) = (case List.find p xs of None \<Rightarrow> List.find p ys | Some x \<Rightarrow> Some x)"
  by (induction xs) auto

lemma find_filter: "List.find p (filter q rs) = List.find (\<lambda>r. q r \<and> p r) rs"
  by (induction rs) auto

locale id_table =
  fixes rows :: "'db \<Rightarrow> 'row list"
    and next_id :: "'db \<Rightarrow> i64"
    and row_id :: "'row \<Rightarrow> i64 option"
    and with_id :: "i64 \<Rightarrow> 'row \<Rightarrow> 'row"
    and create :: "'row \<Rightarrow> ('db, i64) db_write"
    and delete :: "i64 \<Rightarrow> ('db, unit) db_write"
  assumes row_id_with_id: "row_id (with_id i r) = Some i"
    and create_result: "fst (create r db) = Inr (next_id db)"
    and create_rows: "rows (snd (create r db)) = rows db @ [with_id (next_id db) r]"
    and create_next: "next_id (snd (create r db)) = i64_add (next_id db) 1"
    and delete_result: "fst (delete i db) = Inr ()"
    and delete_rows: "rows (snd (delete i db)) = filter (\<lambda>r. row_id r \<noteq> Some i) (rows db)"
    and delete_next: "next_id (snd (delete i db)) = next_id db"
begin

lemma create_ok:
  "table_ok row_id (Suc n) (rows db) (next_id db) \<Longrightarrow>
   table_ok row_id n (rows (snd (create r db))) (next_id (snd (create r db)))"
  by (simp add: create_rows create_next table_ok_snoc row_id_with_id)

lemma delete_ok:
  "table_ok row_id n (rows db) (next_id db) \<Longrightarrow>
   table_ok row_id n (rows (snd (delete i db))) (next_id (snd (delete i db)))"
  by (simp add: delete_rows delete_next table_ok_filter)

lemma create_map:
  "table_ok row_id n (rows db) (next_id db) \<Longrightarrow>
   table_map row_id (rows (snd (create r db))) =
     (table_map row_id (rows db))(next_id db \<mapsto> with_id (next_id db) r)"
proof
  fix i assume ok: "table_ok row_id n (rows db) (next_id db)"
  then have "List.find (\<lambda>r. row_id r = Some (next_id db)) (rows db) = None"
    by (auto simp: find_None_iff dest: table_ok_fresh)
  then show "table_map row_id (rows (snd (create r db))) i =
      ((table_map row_id (rows db))(next_id db \<mapsto> with_id (next_id db) r)) i"
    by (auto simp: table_map_def create_rows find_append row_id_with_id split: option.splits)
qed

lemma delete_map:
  "table_map row_id (rows (snd (delete i db))) = (table_map row_id (rows db))(i := None)"
  by (auto simp: table_map_def delete_rows find_filter find_None_iff fun_eq_iff
      intro!: arg_cong [where f = "\<lambda>p. List.find p (rows db)"])

end

locale id_table_update = id_table rows next_id row_id with_id create delete
  for rows :: "'db \<Rightarrow> 'row list" and next_id row_id with_id
    and create :: "'row \<Rightarrow> ('db, i64) db_write" and delete +
  fixes update :: "i64 \<Rightarrow> 'row \<Rightarrow> ('db, unit) db_write"
  assumes update_result: "fst (update i r db) = Inr ()"
    and update_rows: "rows (snd (update i r db)) =
      update_first (\<lambda>x. row_id x = Some i) (\<lambda>_. with_id i r) (rows db)"
    and update_next: "next_id (snd (update i r db)) = next_id db"
begin

lemma update_ok:
  "table_ok row_id n (rows db) (next_id db) \<Longrightarrow>
   table_ok row_id n (rows (snd (update i r db))) (next_id (snd (update i r db)))"
  unfolding update_rows update_next
  by (rule table_ok_update_first) (simp_all add: row_id_with_id)

lemma update_map:
  "table_map row_id (rows (snd (update i r db))) =
     (case table_map row_id (rows db) i of
        None \<Rightarrow> table_map row_id (rows db)
      | Some _ \<Rightarrow> (table_map row_id (rows db))(i \<mapsto> with_id i r))"
proof (cases "table_map row_id (rows db) i")
  case None
  then have "update_first (\<lambda>x. row_id x = Some i) (\<lambda>_. with_id i r) (rows db) = rows db"
    by (intro update_first_id) (auto simp: table_map_def find_None_iff)
  with None show ?thesis by (simp add: update_rows)
next
  case (Some x)
  let ?upd = "update_first (\<lambda>x. row_id x = Some i) (\<lambda>_. with_id i r) (rows db)"
  have "List.find (\<lambda>r. row_id r = Some i) ?upd = Some (with_id i r)"
    using Some by (simp add: find_update_first_same row_id_with_id table_map_def)
  moreover have "List.find (\<lambda>r. row_id r = Some j) ?upd = table_map row_id (rows db) j"
    if "j \<noteq> i" for j
    unfolding table_map_def
    by (rule find_update_first_other) (use that in \<open>auto simp: row_id_with_id\<close>)
  ultimately show ?thesis
    using Some by (auto simp: fun_eq_iff table_map_def update_rows)
qed

end

section \<open>What the DHCP server relies on\<close>

text \<open>
  \<open>config_store\<close>: the configuration tables as sets, and what the read methods return when
  they succeed. \<open>lease_store\<close>: the lease table as a set of records with unique
  identifiers; \<open>inv n\<close> is the store's own invariant, with room for \<open>n\<close> more
  insertions. \<open>dhcp_store\<close> adds that lease methods leave the configuration alone. No
  law says that a method succeeds.
\<close>

definition active :: "i64 \<Rightarrow> lease \<Rightarrow> bool" where
  "active now l \<longleftrightarrow> now < l_lease_end l"

lemma active_mono: "active t l \<Longrightarrow> s \<le> t \<Longrightarrow> active s l"
  by (simp add: active_def)

locale config_store =
  fixes D :: "'db database"
    and subnets :: "'db \<Rightarrow> subnet set"
    and ranges :: "'db \<Rightarrow> dynamic_range set"
    and statics :: "'db \<Rightarrow> static_ip set"
  assumes get_subnet_Some: "db_get_subnet D i db = Inr (Some s) \<Longrightarrow> s \<in> subnets db \<and> s_id s = Some i"
    and get_subnet_None: "db_get_subnet D i db = Inr None \<Longrightarrow> s \<in> subnets db \<Longrightarrow> s_id s \<noteq> Some i"
    and list_subnets: "db_list_subnets D db = Inr ss \<Longrightarrow> set ss = subnets db"
    and list_ranges_all: "db_list_ranges D None db = Inr rs \<Longrightarrow> set rs = ranges db"
    and list_ranges_of: "db_list_ranges D (Some i) db = Inr rs \<Longrightarrow>
      set rs = {r \<in> ranges db. r_subnet_id r = i}"
    and static_Some: "db_get_static_ip_by_mac D m db = Inr (Some st) \<Longrightarrow>
      st \<in> statics db \<and> to_lowercase (st_mac_address st) = to_lowercase m"
    and static_None: "db_get_static_ip_by_mac D m db = Inr None \<Longrightarrow> st \<in> statics db \<Longrightarrow>
      to_lowercase (st_mac_address st) \<noteq> to_lowercase m"

locale lease_store =
  fixes D :: "'db database"
    and leases :: "'db \<Rightarrow> lease set"
    and inv :: "nat \<Rightarrow> 'db \<Rightarrow> bool"
  assumes active_Some: "db_get_active_lease D now m db = Inr (Some l) \<Longrightarrow>
      l \<in> leases db \<and> active now l \<and> to_lowercase (l_mac_address l) = to_lowercase m"
    and active_None: "db_get_active_lease D now m db = Inr None \<Longrightarrow> l \<in> leases db \<Longrightarrow>
      active now l \<Longrightarrow> to_lowercase (l_mac_address l) \<noteq> to_lowercase m"
    and list_active: "db_list_active_leases D now db = Inr ls \<Longrightarrow> set ls = {l \<in> leases db. active now l}"
    and create_lease_ok: "inv (Suc n) db \<Longrightarrow> db_create_lease D l db = (Inr i, db') \<Longrightarrow>
      leases db' = insert (l\<lparr> l_id := Some i \<rparr>) (leases db) \<and>
      (\<forall>x\<in>leases db. l_id x \<noteq> Some i) \<and> inv n db'"
    and create_lease_err: "inv (Suc n) db \<Longrightarrow> db_create_lease D l db = (Inl e, db') \<Longrightarrow>
      leases db' = leases db \<and> inv n db'"
    and expire_ok: "inv n db \<Longrightarrow> db_expire_lease D i db = (Inr u, db') \<Longrightarrow>
      leases db' = {l \<in> leases db. l_id l \<noteq> Some i} \<and> inv n db'"
    and expire_err: "inv n db \<Longrightarrow> db_expire_lease D i db = (Inl e, db') \<Longrightarrow>
      leases db' = leases db \<and> inv n db'"
    and purge_ok: "inv n db \<Longrightarrow> db_delete_expired_leases D now db = (Inr c, db') \<Longrightarrow>
      leases db' = {l \<in> leases db. now \<le> l_lease_end l} \<and> inv n db'"
    and purge_err: "inv n db \<Longrightarrow> db_delete_expired_leases D now db = (Inl e, db') \<Longrightarrow>
      leases db' = leases db \<and> inv n db'"
    and lease_id: "inv n db \<Longrightarrow> l \<in> leases db \<Longrightarrow> l_id l \<noteq> None"
    and lease_id_inj: "inv n db \<Longrightarrow> inj_on l_id (leases db)"
    and inv_mono: "inv (Suc n) db \<Longrightarrow> inv n db"
begin

lemma expire_cases:
  "inv n db \<Longrightarrow> db_expire_lease D i db = (res, db') \<Longrightarrow>
   inv n db' \<and> (leases db' = leases db \<or> leases db' = {l \<in> leases db. l_id l \<noteq> Some i})"
  by (cases res) (auto dest: expire_ok expire_err)

lemma purge_keeps_active:
  "inv n db \<Longrightarrow> db_delete_expired_leases D now db = (res, db') \<Longrightarrow> now \<le> t \<Longrightarrow>
   inv n db' \<and> leases db' \<subseteq> leases db \<and>
   {l \<in> leases db'. active t l} = {l \<in> leases db. active t l}"
  by (cases res) (auto dest: purge_ok purge_err simp: active_def)

end

locale dhcp_store = config_store D subnets ranges statics + lease_store D leases inv
  for D :: "'db database" and subnets ranges statics leases inv +
  assumes subnet_id_inj: "inv n db \<Longrightarrow> inj_on s_id (subnets db)"
    and create_lease_frame: "db_create_lease D l db = (res, db') \<Longrightarrow>
      subnets db' = subnets db \<and> ranges db' = ranges db \<and> statics db' = statics db"
    and expire_frame: "db_expire_lease D i db = (u, db') \<Longrightarrow>
      subnets db' = subnets db \<and> ranges db' = ranges db \<and> statics db' = statics db"
    and purge_frame: "db_delete_expired_leases D now db = (c, db') \<Longrightarrow>
      subnets db' = subnets db \<and> ranges db' = ranges db \<and> statics db' = statics db"

text \<open>
  A database whose methods succeed, as the in-memory one's do; a lease may be refused when its
  subnet is not there, as SQLite's foreign key does, or when the identifiers are used up.
\<close>

locale reliable_store = dhcp_store D subnets ranges statics leases inv
  for D :: "'db database" and subnets ranges statics leases inv +
  assumes get_subnet_total: "\<exists>x. db_get_subnet D i db = Inr x"
    and list_subnets_total: "\<exists>x. db_list_subnets D db = Inr x"
    and list_ranges_total: "\<exists>x. db_list_ranges D sid db = Inr x"
    and get_static_total: "\<exists>x. db_get_static_ip_by_mac D m db = Inr x"
    and get_active_total: "\<exists>x. db_get_active_lease D now m db = Inr x"
    and list_active_total: "\<exists>x. db_list_active_leases D now db = Inr x"
    and create_lease_total: "inv (Suc n) db \<Longrightarrow> s \<in> subnets db \<Longrightarrow> s_id s = Some (l_subnet_id l) \<Longrightarrow>
      \<exists>x. fst (db_create_lease D l db) = Inr x"
    and expire_total: "\<exists>x. fst (db_expire_lease D i db) = Inr x"

section \<open>Administration\<close>

text \<open>
  The writing methods that the REST handlers and the token check call. \<open>admin_store\<close>: none of
  them adds or changes a lease (deleting a subnet may delete leases).
\<close>

datatype admin_op =
    CreateSubnet subnet | UpdateSubnet i64 subnet | DeleteSubnet i64
  | CreateRange dynamic_range | DeleteRange i64
  | CreateStaticIp static_ip | UpdateStaticIpHostname string "string option" | DeleteStaticIp string
  | CreateIaPrefix ia_prefix | UpdateIaPrefix i64 ia_prefix | DeleteIaPrefix i64
  | CreateToken i64 string string string | DeleteToken i64 | ToggleToken i64 bool
  | UpdateTokenLastUsed i64 string

fun admin_apply :: "'db database \<Rightarrow> admin_op \<Rightarrow> 'db \<Rightarrow> 'db" where
  "admin_apply D (CreateSubnet s) db = snd (db_create_subnet D s db)"
| "admin_apply D (UpdateSubnet i s) db = snd (db_update_subnet D i s db)"
| "admin_apply D (DeleteSubnet i) db = snd (db_delete_subnet D i db)"
| "admin_apply D (CreateRange r) db = snd (db_create_range D r db)"
| "admin_apply D (DeleteRange i) db = snd (db_delete_range D i db)"
| "admin_apply D (CreateStaticIp st) db = snd (db_create_static_ip D st db)"
| "admin_apply D (UpdateStaticIpHostname ip h) db = snd (db_update_static_ip_hostname D ip h db)"
| "admin_apply D (DeleteStaticIp ip) db = snd (db_delete_static_ip D ip db)"
| "admin_apply D (CreateIaPrefix p) db = snd (db_create_ia_prefix D p db)"
| "admin_apply D (UpdateIaPrefix i p) db = snd (db_update_ia_prefix D i p db)"
| "admin_apply D (DeleteIaPrefix i) db = snd (db_delete_ia_prefix D i db)"
| "admin_apply D (CreateToken now n h s) db = snd (db_create_token D now n h s db)"
| "admin_apply D (DeleteToken i) db = snd (db_delete_token D i db)"
| "admin_apply D (ToggleToken i e) db = snd (db_toggle_token D i e db)"
| "admin_apply D (UpdateTokenLastUsed now h) db = snd (db_update_token_last_used D now h db)"

locale admin_store = dhcp_store D subnets ranges statics leases inv
  for D :: "'db database" and subnets ranges statics leases inv +
  assumes admin_inv: "inv (Suc n) db \<Longrightarrow> inv n (admin_apply D x db)"
    and admin_leases: "inv (Suc n) db \<Longrightarrow> leases (admin_apply D x db) \<subseteq> leases db"

end
