(* ===== verification/Network_Util.thy ===== *)
theory Network_Util
  imports Models
begin

text \<open>
  Network arithmetic (\<open>crates/ndhcpd/src/utils/network.rs\<close>, and \<open>netmask_from_prefix\<close> and
  \<open>iface_in_subnet\<close> of \<open>dhcp/server.rs\<close>): prefix masks, subnet overlap, the Internet
  checksum and the Ethernet/IPv4/UDP frame the server forges. The functions of that file that
  query the kernel for an interface (\<open>get_iface_mac\<close>, \<open>get_ifindex\<close>,
  \<open>get_link_local_addr\<close>) are system calls; their results are arguments of the model.
\<close>

section \<open>Definitions\<close>

text \<open>
  \<open>!0u32 << (32 - prefix)\<close>: the subtraction is on \<open>u8\<close> and wraps, the shift distance
  is reduced modulo 32.
\<close>

definition netmask_from_prefix :: "u8 \<Rightarrow> ipv4" where
  "netmask_from_prefix p =
     (if p = 0 then 0 else push_bit (unat (32 - p) mod 32) (- 1))"

definition subnets_overlap :: "ipv4 \<Rightarrow> u8 \<Rightarrow> ipv4 \<Rightarrow> u8 \<Rightarrow> bool" where
  "subnets_overlap net_a prefix_a net_b prefix_b =
     (let mask_a = netmask_from_prefix prefix_a;
          mask_b = netmask_from_prefix prefix_b;
          start_a = net_a AND mask_a;
          end_a = start_a OR NOT mask_a;
          start_b = net_b AND mask_b;
          end_b = start_b OR NOT mask_b
      in start_a \<le> end_b \<and> start_b \<le> end_a)"

definition iface_in_subnet :: "ipv4 list \<Rightarrow> subnet \<Rightarrow> bool" where
  "iface_in_subnet iface_ips s =
     (let m = netmask_from_prefix (s_netmask s);
          net = s_network s AND m
      in list_ex (\<lambda>ip. ip AND m = net) iface_ips)"

text \<open>The two loops of \<open>ip_checksum\<close>: the sum of the 16-bit words, then the carries.\<close>

fun sum_words :: "bytes \<Rightarrow> u32 \<Rightarrow> u32" where
  "sum_words (a # b # rest) acc = sum_words rest (acc + ucast (of_be16 a b))"
| "sum_words [a] acc = acc + push_bit 8 (ucast a)"
| "sum_words [] acc = acc"

lemma unat_carry_step:
  "unat ((acc AND 0xffff) + drop_bit 16 acc) = unat acc mod 65536 + unat acc div 65536"
  for acc :: u32
proof -
  have "acc AND 0xffff = take_bit 16 acc"
    by (simp add: take_bit_eq_mask mask_eq_exp_minus_1)
  then have "unat (acc AND 0xffff) = unat acc mod 65536"
    by (simp only: unsigned_take_bit_eq) (simp add: take_bit_eq_mod)
  moreover have "unat (drop_bit 16 acc) = unat acc div 65536"
    by (simp add: drop_bit_eq_div unat_div)
  moreover have "unat acc div 65536 < 65536"
    using unat_lt [of acc] by (simp add: less_mult_imp_div_less)
  moreover have "unat acc mod 65536 < 65536"
    by simp
  ultimately have "unat (acc AND 0xffff) + unat (drop_bit 16 acc) < 2 ^ LENGTH(32)"
    by simp
  then show ?thesis
    using \<open>unat (acc AND 0xffff) = _\<close> \<open>unat (drop_bit 16 acc) = _\<close>
    by (simp add: unat_add_lem [THEN iffD1])
qed

lemma drop16_nonzero: "drop_bit 16 acc \<noteq> 0 \<longleftrightarrow> 65536 \<le> unat acc" for acc :: u32
proof -
  have "drop_bit 16 acc = 0 \<longleftrightarrow> unat (drop_bit 16 acc) = 0"
    by (simp add: unat_eq_zero)
  also have "unat (drop_bit 16 acc) = unat acc div 65536"
    by (simp add: drop_bit_eq_div unat_div)
  finally show ?thesis by (simp add: div_eq_0_iff not_less)
qed

lemma carry_less: "65536 \<le> n \<Longrightarrow> n mod 65536 + n div 65536 < n" for n :: nat
  using div_mult_mod_eq [of n 65536] by linarith

function fold_carries :: "u32 \<Rightarrow> u32" where
  "fold_carries acc =
     (if drop_bit 16 acc \<noteq> 0 then fold_carries ((acc AND 0xffff) + drop_bit 16 acc) else acc)"
  by pat_completeness auto
termination
  by (relation "measure unat")
    (simp_all only: in_measure drop16_nonzero unat_carry_step carry_less wf_measure)

declare fold_carries.simps [simp del]

definition ip_checksum :: "bytes \<Rightarrow> u16" where
  "ip_checksum data = NOT (ucast (fold_carries (sum_words data 0)))"

definition ETH_P_IP :: u16 where
  "ETH_P_IP = 0x0800"

text \<open>The 20 bytes of the IPv4 header, before the checksum is patched in at offset 10.\<close>

definition ipv4_header :: "u16 \<Rightarrow> ipv4 \<Rightarrow> ipv4 \<Rightarrow> bytes" where
  "ipv4_header total_len src_ip dst_ip =
     [0x45, 0x00] @ be16 total_len @ be16 0 @ be16 0x4000 @ [128, 17] @ be16 0 @
     be32 src_ip @ be32 dst_ip"

text \<open>The arrays \<open>[u8; 6]\<close> are values of the six-byte type of \<open>Mac_Address\<close>.\<close>

definition build_l2_udp_frame ::
  "mac_address \<Rightarrow> mac_address \<Rightarrow> ipv4 \<Rightarrow> ipv4 \<Rightarrow> u16 \<Rightarrow> u16 \<Rightarrow> bytes \<Rightarrow> bytes" where
  "build_l2_udp_frame src_mac dst_mac src_ip dst_ip src_port dst_port payload =
     (let udp_len = 8 + of_nat (length payload) :: u16;
          ip_total_len = 20 + udp_len;
          eth = mac_as_bytes dst_mac @ mac_as_bytes src_mac @ be16 ETH_P_IP;
          ip = ipv4_header ip_total_len src_ip dst_ip;
          cksum = be16 (ip_checksum ip);
          ip = ip[10 := cksum ! 0, 11 := cksum ! 1]
      in eth @ ip @ be16 src_port @ be16 dst_port @ be16 udp_len @ be16 0 @ payload)"

section \<open>Prefix masks\<close>

lemma netmask_low_bits:
  assumes "p \<le> 32"
  shows "netmask_from_prefix p = NOT (mask (32 - unat p))"
proof (cases "p = 0")
  case True
  then show ?thesis by (simp add: netmask_from_prefix_def mask_eq_exp_minus_1)
next
  case False
  have "unat (32 - p) = 32 - unat p"
    using assms by (simp add: unat_sub)
  moreover have "0 < unat p"
    using False by (simp add: unat_gt_0)
  ultimately show ?thesis
    using False by (simp add: netmask_from_prefix_def minus_exp_eq_not_mask push_bit_eq_mult)
qed

lemma and_not_mask_unat:
  fixes x :: "'a::len word"
  assumes "k \<le> LENGTH('a)"
  shows "unat (x AND NOT (mask k)) = (unat x div 2 ^ k) * 2 ^ k"
proof -
  have "x AND NOT (mask k) = push_bit k (drop_bit k x)"
    by (rule bit_word_eqI) (auto simp: bit_simps)
  then have "unat (x AND NOT (mask k)) = take_bit LENGTH('a) (push_bit k (drop_bit k (unat x)))"
    by (simp only: unsigned_push_bit_eq unsigned_drop_bit_eq)
      (simp add: take_bit_nat_eq_self unsigned_less)
  moreover have "(unat x div 2 ^ k) * 2 ^ k < 2 ^ LENGTH('a)"
    by (metis div_mult_mod_eq le_add1 order_le_less_trans unsigned_less)
  ultimately show ?thesis
    by (simp add: push_bit_eq_mult drop_bit_eq_div take_bit_eq_mod)
qed

lemma or_mask_unat:
  fixes x :: u32
  assumes "k \<le> 32"
  shows "unat ((x AND NOT (mask k)) OR mask k) = (unat x div 2 ^ k) * 2 ^ k + (2 ^ k - 1)"
proof -
  let ?s = "x AND NOT (mask k)"
  have "?s OR mask k = ?s + mask k"
    by (rule sym, rule disjunctive_add_eq_or) (simp add: word_bw_assocs)
  moreover have "unat (mask k :: u32) = 2 ^ k - 1"
  proof -
    have mask: "mask k = (of_nat (2 ^ k - 1) :: u32)"
      by (simp add: mask_eq_exp_minus_1 of_nat_diff)
    have "(2::nat) ^ k \<le> 2 ^ 32"
      using assms by (intro power_increasing) auto
    moreover have "(0::nat) < 2 ^ k" by simp
    ultimately have "take_bit 32 (2 ^ k - 1 :: nat) = 2 ^ k - 1"
      by (intro take_bit_nat_eq_self) linarith
    then show ?thesis
      unfolding mask unat_of_nat by (simp add: take_bit_eq_mod)
  qed
  moreover have "(unat x div 2 ^ k) * 2 ^ k + (2 ^ k - 1) < 2 ^ 32"
  proof -
    have "unat x div 2 ^ k < 2 ^ (32 - k)"
      using assms unat_lt [of x] by (simp add: less_mult_imp_div_less flip: power_add)
    then have "(unat x div 2 ^ k + 1) * 2 ^ k \<le> 2 ^ (32 - k) * 2 ^ k"
      by (intro mult_right_mono) auto
    also have "\<dots> = 2 ^ 32"
      using assms by (simp flip: power_add)
    finally have "(unat x div 2 ^ k) * 2 ^ k + 2 ^ k \<le> 2 ^ 32"
      by (simp add: distrib_right)
    moreover have "(0::nat) < 2 ^ k" by simp
    ultimately show ?thesis by linarith
  qed
  ultimately show ?thesis
    using assms by (simp add: unat_word_ariths and_not_mask_unat)
qed

lemma same_block_iff:
  "(x div m = n div m) \<longleftrightarrow> ((n div m) * m \<le> x \<and> x \<le> (n div m) * m + (m - 1))" if "0 < m"
  for x n m :: nat
proof
  assume "x div m = n div m"
  moreover have "x mod m \<le> m - 1" using that by (simp add: Suc_le_eq less_Suc_eq_le [symmetric])
  ultimately show "(n div m) * m \<le> x \<and> x \<le> (n div m) * m + (m - 1)"
    using div_mult_mod_eq [of x m] by (metis add_le_cancel_left le_add1)
next
  assume "(n div m) * m \<le> x \<and> x \<le> (n div m) * m + (m - 1)"
  then have "(n div m) * m \<le> x" and "x < Suc (n div m) * m"
    using that by auto
  then show "x div m = n div m"
    by (intro div_nat_eqI) (simp_all add: mult.commute)
qed

lemma prefix_interval:
  assumes "p \<le> 32"
  shows "ip AND netmask_from_prefix p = net AND netmask_from_prefix p \<longleftrightarrow>
    net AND netmask_from_prefix p \<le> ip \<and>
    ip \<le> (net AND netmask_from_prefix p) OR NOT (netmask_from_prefix p)"
proof -
  let ?k = "32 - unat p"
  have "ip AND NOT (mask ?k) = net AND NOT (mask ?k) \<longleftrightarrow> unat ip div 2 ^ ?k = unat net div 2 ^ ?k"
    by (simp add: and_not_mask_unat word_unat_eq_iff)
  then show ?thesis
    using same_block_iff [of "2 ^ ?k" "unat ip" "unat net"]
    by (simp add: netmask_low_bits [OF assms] word_le_nat_alt and_not_mask_unat or_mask_unat)
qed

text \<open>The addresses of a subnet, as the mask comparison of the server decides them.\<close>

definition in_prefix :: "ipv4 \<Rightarrow> u8 \<Rightarrow> ipv4 \<Rightarrow> bool" where
  "in_prefix net p ip \<longleftrightarrow> ip AND netmask_from_prefix p = net AND netmask_from_prefix p"

lemma iface_in_subnet_iff:
  "iface_in_subnet ips s \<longleftrightarrow> (\<exists>ip\<in>set ips. in_prefix (s_network s) (s_netmask s) ip)"
  by (simp add: iface_in_subnet_def in_prefix_def Let_def list_ex_iff)

lemma subnets_overlap_common:
  assumes "p \<le> 32" and "q \<le> 32"
  shows "subnets_overlap a p b q \<longleftrightarrow> (\<exists>ip. in_prefix a p ip \<and> in_prefix b q ip)"
proof -
  let ?sa = "a AND netmask_from_prefix p" and ?sb = "b AND netmask_from_prefix q"
  let ?ea = "?sa OR NOT (netmask_from_prefix p)" and ?eb = "?sb OR NOT (netmask_from_prefix q)"
  have common: "in_prefix a p ip \<and> in_prefix b q ip \<longleftrightarrow> ?sa \<le> ip \<and> ip \<le> ?ea \<and> ?sb \<le> ip \<and> ip \<le> ?eb"
    for ip
    unfolding in_prefix_def prefix_interval [OF assms(1)] prefix_interval [OF assms(2)] by blast
  have "?sa \<le> ?ea" and "?sb \<le> ?eb"
    by (rule le_word_or2)+
  then have "?sa \<le> ?eb \<and> ?sb \<le> ?ea \<longleftrightarrow> (\<exists>ip. ?sa \<le> ip \<and> ip \<le> ?ea \<and> ?sb \<le> ip \<and> ip \<le> ?eb)"
    by (meson linorder_linear order_refl order_trans)
  then show ?thesis
    by (simp add: subnets_overlap_def Let_def common)
qed

section \<open>The Internet checksum\<close>

text \<open>The sum of the 16-bit words as a number, and its reduction modulo \<open>2\<^sup>1\<^sup>6 - 1\<close>.\<close>

fun words_total :: "bytes \<Rightarrow> nat" where
  "words_total (a # b # rest) = unat (of_be16 a b) + words_total rest"
| "words_total [a] = unat a * 256"
| "words_total [] = 0"

lemma unat_u16_le: "unat (w :: u16) \<le> 65535"
  using unat_lt [of w] by simp

lemma words_total_bound: "words_total bs \<le> 65535 * ((length bs + 1) div 2)"
proof (induction bs rule: words_total.induct)
  case (1 a b rest)
  then show ?case using unat_u16_le [of "of_be16 a b"] by simp
next
  case (2 a)
  then show ?case using unat_u8_lt [of a] by simp
qed simp

lemma unat_sum_words:
  "unat acc + words_total bs < 2 ^ 32 \<Longrightarrow> unat (sum_words bs acc) = unat acc + words_total bs"
proof (induction bs acc rule: sum_words.induct)
  case (1 a b rest acc)
  have "unat (acc + ucast (of_be16 a b)) = unat acc + unat (of_be16 a b)"
    using "1.prems" by (subst unat_add_lem [THEN iffD1]) (simp_all add: unsigned_ucast_eq take_bit_nat_eq_self)
  with 1 show ?case by simp
next
  case (2 a acc)
  have "unat (ucast a :: u32) = unat a"
    using unat_u8_lt [of a] by (simp add: unsigned_ucast_eq take_bit_nat_eq_self)
  then have "unat (push_bit 8 (ucast a :: u32)) = unat a * 256"
    using unat_u8_lt [of a] by (simp add: unat_word_ariths push_bit_eq_mult)
  with 2 show ?case
    by (subst sum_words.simps, subst unat_add_lem [THEN iffD1]) simp_all
qed simp

lemma fold_carries_spec:
  "unat (fold_carries acc) < 65536 \<and>
   unat (fold_carries acc) mod 65535 = unat acc mod 65535 \<and>
   (unat (fold_carries acc) = 0 \<longleftrightarrow> unat acc = 0)"
proof (induction acc rule: fold_carries.induct)
  case (1 acc)
  show ?case
  proof (cases "65536 \<le> unat acc")
    case True
    let ?next = "(acc AND 0xffff) + drop_bit 16 acc"
    have "fold_carries acc = fold_carries ?next"
      using True by (subst fold_carries.simps) (simp only: drop16_nonzero if_True)
    moreover have "(unat acc mod 65536 + unat acc div 65536) mod 65535 = unat acc mod 65535"
    proof -
      have "unat acc mod 65535 = (unat acc div 65536 * 65536 + unat acc mod 65536) mod 65535"
        by simp
      also have "unat acc div 65536 * 65536 + unat acc mod 65536 =
          (unat acc mod 65536 + unat acc div 65536) + unat acc div 65536 * 65535"
        by linarith
      finally show ?thesis by (simp only: mod_mult_self1)
    qed
    moreover have "0 < unat acc div 65536"
      using True by (simp add: div_greater_zero_iff)
    ultimately show ?thesis
      using "1.IH" True unat_carry_step [of acc] drop16_nonzero [of acc] by simp
  next
    case False
    then have "fold_carries acc = acc"
      by (subst fold_carries.simps) (simp only: drop16_nonzero if_False)
    with False show ?thesis by simp
  qed
qed

lemma unat_ip_checksum:
  assumes "words_total data < 2 ^ 32"
  shows "unat (ip_checksum data) = 65535 - unat (fold_carries (sum_words data 0))"
proof -
  have lt: "unat (fold_carries (sum_words data 0)) < 65536"
    using fold_carries_spec by blast
  have "unat (NOT x) = 65535 - unat x" for x :: u16
  proof -
    have "NOT x = - 1 - x" by (simp add: not_eq_complement)
    moreover have "unat (- 1 - x) = unat (- 1 :: u16) - unat x"
      by (rule unat_sub) simp
    ultimately show ?thesis
      by (simp add: unsigned_minus_1_eq_mask mask_eq_exp_minus_1)
  qed
  with lt show ?thesis
    by (simp add: ip_checksum_def unsigned_ucast_eq take_bit_nat_eq_self)
qed

lemma ip_checksum_valid:
  assumes "words_total data < 2 ^ 32" and "0 < words_total data" and "words_total data mod 65535 = 0"
  shows "ip_checksum data = 0"
proof -
  let ?f = "unat (fold_carries (sum_words data 0))"
  have "unat (sum_words data 0) = words_total data"
    using assms(1) unat_sum_words [of 0 data] by simp
  then have "?f < 65536" "?f mod 65535 = 0" "?f \<noteq> 0"
    using fold_carries_spec [of "sum_words data 0"] assms(2,3) by simp_all
  moreover obtain k where "?f = 65535 * k"
    using \<open>?f mod 65535 = 0\<close> by (auto simp: mod_eq_0_iff_dvd elim: dvdE)
  ultimately have "?f = 65535" by (cases k) simp_all
  then have "unat (ip_checksum data) = 0"
    using unat_ip_checksum [OF assms(1)] by simp
  then show ?thesis by (simp add: unat_eq_zero)
qed

text \<open>Adding the complement of a sum to the sum gives a multiple of \<open>2\<^sup>1\<^sup>6 - 1\<close>.\<close>

lemma ip_checksum_completes:
  assumes "words_total data < 2 ^ 31"
  shows "(words_total data + unat (ip_checksum data)) mod 65535 = 0 \<and>
    0 < words_total data + unat (ip_checksum data)"
proof -
  let ?f = "unat (fold_carries (sum_words data 0))"
  have lt: "words_total data < 2 ^ 32"
    using assms by simp
  then have sum: "unat (sum_words data 0) = words_total data"
    using unat_sum_words [of 0 data] by simp
  have f: "?f < 65536" "?f mod 65535 = words_total data mod 65535"
      "?f = 0 \<longleftrightarrow> words_total data = 0"
    using fold_carries_spec [of "sum_words data 0"] sum by simp_all
  have "(words_total data + (65535 - ?f)) mod 65535 = (?f + (65535 - ?f)) mod 65535"
    using f(2) by (metis mod_add_left_eq)
  also have "\<dots> = 0"
    using f(1) by simp
  finally show ?thesis
    using f unat_ip_checksum [OF lt] by auto
qed

section \<open>The forged frame\<close>

definition patch_checksum :: "bytes \<Rightarrow> bytes" where
  "patch_checksum ip = (let cksum = be16 (ip_checksum ip) in ip[10 := cksum ! 0, 11 := cksum ! 1])"

lemma build_l2_udp_frame_parts:
  "build_l2_udp_frame src_mac dst_mac src_ip dst_ip src_port dst_port payload =
     mac_as_bytes dst_mac @ mac_as_bytes src_mac @ be16 ETH_P_IP @
     patch_checksum (ipv4_header (28 + of_nat (length payload)) src_ip dst_ip) @
     be16 src_port @ be16 dst_port @ be16 (8 + of_nat (length payload)) @ be16 0 @ payload"
  by (simp add: build_l2_udp_frame_def patch_checksum_def Let_def add.assoc [symmetric])

lemma length_patched_header [simp]: "length (patch_checksum (ipv4_header t s d)) = 20"
  by (simp add: patch_checksum_def ipv4_header_def Let_def)

lemma patched_header_total:
  "words_total (patch_checksum (ipv4_header t s d)) =
     words_total (ipv4_header t s d) + unat (ip_checksum (ipv4_header t s d))"
  by (simp add: patch_checksum_def ipv4_header_def be16_def be32_def Let_def be_simps)
    (simp add: of_be16_def)

lemma patched_header_valid: "ip_checksum (patch_checksum (ipv4_header t s d)) = 0"
proof -
  let ?h = "ipv4_header t s d"
  have len: "length ?h = 20"
    by (simp add: ipv4_header_def)
  then have small: "words_total ?h \<le> 65535 * 10"
    using words_total_bound [of ?h] by simp
  then have "words_total (patch_checksum ?h) < 2 ^ 32"
    using words_total_bound [of "patch_checksum ?h"] by simp
  then show ?thesis
    using ip_checksum_completes [of ?h] small
    by (intro ip_checksum_valid) (simp_all add: patched_header_total)
qed

lemma take_drop_frame_ip:
  "take 20 (drop 14 (build_l2_udp_frame sm dm s d sp dp payload)) =
     patch_checksum (ipv4_header (28 + of_nat (length payload)) s d)"
  by (simp add: build_l2_udp_frame_parts)

lemma frame_length_fields:
  fixes payload :: bytes
  assumes "length payload \<le> 65507"
  shows "unat (28 + of_nat (length payload) :: u16) = 28 + length payload"
    and "unat (8 + of_nat (length payload) :: u16) = 8 + length payload"
  using assms by (simp_all add: unat_word_ariths unat_of_nat take_bit_eq_mod)

lemma frame_fields:
  "build_l2_udp_frame sm dm s d sp dp payload = frame \<Longrightarrow>
   of_be16 (frame ! 16) (frame ! 17) = 28 + of_nat (length payload) \<and>
   of_be16 (frame ! 38) (frame ! 39) = 8 + of_nat (length payload) \<and>
   be32_at frame 26 = s \<and> be32_at frame 30 = d \<and>
   of_be16 (frame ! 34) (frame ! 35) = sp \<and> of_be16 (frame ! 36) (frame ! 37) = dp"
  by (cases sm; cases dm)
    (auto simp: build_l2_udp_frame_parts patch_checksum_def ipv4_header_def be16_def be32_def
      ETH_P_IP_def Let_def be32_at_def be_simps)

lemma frame_payload:
  "drop 42 (build_l2_udp_frame sm dm s d sp dp payload) = payload"
  "length (build_l2_udp_frame sm dm s d sp dp payload) = 42 + length payload"
  by (simp_all add: build_l2_udp_frame_parts)



text \<open>
  C34. Two subnets overlap, in the sense of the check that guards subnet creation, exactly when
  some address belongs to both, for all prefix lengths from 0 to 32.
\<close>

theorem subnets_overlap_iff:
  assumes "prefix_a \<le> 32" and "prefix_b \<le> 32"
  shows "subnets_overlap net_a prefix_a net_b prefix_b \<longleftrightarrow>
    (\<exists>ip. ip AND netmask_from_prefix prefix_a = net_a AND netmask_from_prefix prefix_a \<and>
          ip AND netmask_from_prefix prefix_b = net_b AND netmask_from_prefix prefix_b)"
  using subnets_overlap_common [OF assms] by (simp add: in_prefix_def)

theorem subnets_overlap_iff_witness:
  "(24 :: u8) \<le> 32 \<and> (16 :: u8) \<le> 32 \<and> subnets_overlap 0xC0A80100 24 0xC0A80000 16 \<and>
   (\<exists>ip. ip AND netmask_from_prefix 24 = 0xC0A80100 AND netmask_from_prefix 24 \<and>
         ip AND netmask_from_prefix 16 = 0xC0A80000 AND netmask_from_prefix 16)"
proof -
  have o: "subnets_overlap 0xC0A80100 24 0xC0A80000 16"
    by (simp add: subnets_overlap_def netmask_from_prefix_def Let_def mask_eq_exp_minus_1)
  have "(24 :: u8) \<le> 32" and "(16 :: u8) \<le> 32"
    by simp_all
  with subnets_overlap_iff [of 24 16 "0xC0A80100" "0xC0A80000"] o show ?thesis by blast
qed

end
