(* ===== verification/Dhcp_Server.thy ===== *)
theory Dhcp_Server
  imports Database Network_Util
begin

text \<open>
  The DHCP server (\<open>crates/ndhcpd/src/dhcp/server.rs\<close>): the message handlers, the replies
  they build, the destination of a reply, and one turn of the receive loop. The database is a
  \<open>Database\<close> trait object with its state. A handler reads the clock through the database
  methods it calls and, in \<open>handle_request\<close>, once itself; the readings are the arguments
  \<open>t1\<close> and \<open>t2\<close>, in the order in which they are taken. The handler's database calls
  run one after the other on the state it is given. Log messages are left out.

  What the kernel tells the loop (the interface a datagram came from, its addresses and its
  hardware address) are arguments; what the loop sends is a value of \<open>send_action\<close>.
\<close>

section \<open>Replies\<close>

definition create_offer :: "dhcp_packet \<Rightarrow> ipv4 \<Rightarrow> subnet \<Rightarrow> config \<Rightarrow> dhcp_packet" where
  "create_offer request offered_ip s cfg =
     packet_new\<lparr> op := 2, xid := xid request, yiaddr := offered_ip,
       chaddr := chaddr request, siaddr := s_gateway s,
       options :=
         [MessageType Offer,
          ServerIdentifier (s_gateway s),
          LeaseTime (default_lease_time (cfg_dhcp cfg)),
          SubnetMask (netmask_from_prefix (s_netmask s)),
          Router [s_gateway s],
          DnsServer (s_dns_servers s)] @
         (case s_domain_name s of Some domain \<Rightarrow> [DomainName domain] | None \<Rightarrow> []) \<rparr>"

definition create_ack :: "dhcp_packet \<Rightarrow> ipv4 \<Rightarrow> subnet \<Rightarrow> config \<Rightarrow> dhcp_packet" where
  "create_ack request assigned_ip s cfg =
     packet_new\<lparr> op := 2, xid := xid request, yiaddr := assigned_ip,
       chaddr := chaddr request, siaddr := s_gateway s,
       options :=
         [MessageType Ack,
          ServerIdentifier (s_gateway s),
          LeaseTime (default_lease_time (cfg_dhcp cfg)),
          RenewalTime (default_lease_time (cfg_dhcp cfg) div 2),
          RebindingTime (default_lease_time (cfg_dhcp cfg) * 7 div 8),
          SubnetMask (netmask_from_prefix (s_netmask s)),
          Router [s_gateway s],
          DnsServer (s_dns_servers s)] @
         (case s_domain_name s of Some domain \<Rightarrow> [DomainName domain] | None \<Rightarrow> []) \<rparr>"

section \<open>DISCOVER\<close>

text \<open>
  The parts of \<open>handle_discover\<close>. The first two may return from the handler: \<open>Some r\<close> is
  a return with \<open>r\<close>, \<open>None\<close> falls through.
\<close>

definition discover_static ::
  "'db database \<Rightarrow> dhcp_packet \<Rightarrow> ipv4 list \<Rightarrow> config \<Rightarrow> 'db \<Rightarrow> dhcp_packet option option" where
  "discover_static D packet iface_ips cfg db =
     (case db_get_static_ip_by_mac D (mac_to_string (chaddr packet)) db of
        Inr (Some st) \<Rightarrow>
          (case db_get_subnet D (st_subnet_id st) db of
             Inr (Some s) \<Rightarrow>
               (if iface_in_subnet iface_ips s
                then Some (Some (create_offer packet (st_ip_address st) s cfg)) else None)
           | _ \<Rightarrow> Some None)
      | _ \<Rightarrow> None)"

definition discover_lease ::
  "'db database \<Rightarrow> i64 \<Rightarrow> dhcp_packet \<Rightarrow> ipv4 list \<Rightarrow> config \<Rightarrow> 'db \<Rightarrow> dhcp_packet option option" where
  "discover_lease D t1 packet iface_ips cfg db =
     (case db_get_active_lease D t1 (mac_to_string (chaddr packet)) db of
        Inr (Some l) \<Rightarrow>
          (case db_get_subnet D (l_subnet_id l) db of
             Inr (Some s) \<Rightarrow>
               (if iface_in_subnet iface_ips s
                then Some (Some (create_offer packet (l_ip_address l) s cfg)) else None)
           | _ \<Rightarrow> Some None)
      | _ \<Rightarrow> None)"

lemma unat_plus_one: "a < b \<Longrightarrow> unat (a + 1) = unat a + 1" for a b :: u32
  using unat_lt [of b] by (simp add: word_less_nat_alt unat_word_ariths)

text \<open>The loop \<open>for ip_u32 in start..=end\<close>: the first address that is not leased.\<close>

function first_free :: "ipv4 list \<Rightarrow> u32 \<Rightarrow> u32 \<Rightarrow> ipv4 option" where
  "first_free leased start stop =
     (if stop < start then None
      else if start \<notin> set leased then Some start
      else if start = stop then None
      else first_free leased (start + 1) stop)"
  by pat_completeness auto
termination
proof (relation "measure (\<lambda>(leased, start, stop). unat stop - unat start)")
  fix leased :: "ipv4 list" and start stop :: u32
  assume "\<not> stop < start" and "start \<noteq> stop"
  then have lt: "start < stop" by simp
  then have "unat (start + 1) = unat start + 1"
    by (rule unat_plus_one)
  with lt show "((leased, start + 1, stop), leased, start, stop)
      \<in> measure (\<lambda>(leased, start, stop). unat stop - unat start)"
    by (simp add: word_less_nat_alt)
qed simp

declare first_free.simps [simp del]

definition subnet_free_ip ::
  "'db database \<Rightarrow> ipv4 list \<Rightarrow> 'db \<Rightarrow> subnet \<Rightarrow> ipv4 option" where
  "subnet_free_ip D leased db s =
     (case s_id s of
        None \<Rightarrow> None
      | Some sid \<Rightarrow>
          (case db_list_ranges D (Some sid) db of
             Inl _ \<Rightarrow> None
           | Inr rs \<Rightarrow>
               find_map (\<lambda>r. first_free leased (r_range_start r) (r_range_end r))
                 (filter r_enabled rs)))"

definition discover_dynamic ::
  "'db database \<Rightarrow> i64 \<Rightarrow> dhcp_packet \<Rightarrow> ipv4 list \<Rightarrow> config \<Rightarrow> 'db \<Rightarrow> dhcp_packet option" where
  "discover_dynamic D t2 packet iface_ips cfg db =
     (case db_list_subnets D db of
        Inl _ \<Rightarrow> None
      | Inr subnets \<Rightarrow>
          (case db_list_active_leases D t2 db of
             Inl _ \<Rightarrow> None
           | Inr ls \<Rightarrow>
               (let leased = map l_ip_address ls in
                find_map
                  (\<lambda>s. map_option (\<lambda>ip. create_offer packet ip s cfg) (subnet_free_ip D leased db s))
                  (filter (iface_in_subnet iface_ips) subnets))))"

definition handle_discover ::
  "'db database \<Rightarrow> i64 \<Rightarrow> i64 \<Rightarrow> dhcp_packet \<Rightarrow> ipv4 list \<Rightarrow> config \<Rightarrow> 'db \<Rightarrow> dhcp_packet option" where
  "handle_discover D t1 t2 packet iface_ips cfg db =
     (case discover_static D packet iface_ips cfg db of
        Some r \<Rightarrow> r
      | None \<Rightarrow>
          (case discover_lease D t1 packet iface_ips cfg db of
             Some r \<Rightarrow> r
           | None \<Rightarrow> discover_dynamic D t2 packet iface_ips cfg db))"

section \<open>REQUEST and RELEASE\<close>

definition requested_ip_of :: "dhcp_packet \<Rightarrow> ipv4 option" where
  "requested_ip_of packet =
     (case find_map (\<lambda>x. case x of RequestedIpAddress ip \<Rightarrow> Some ip | _ \<Rightarrow> None) (options packet) of
        Some ip \<Rightarrow> Some ip
      | None \<Rightarrow> (if ciaddr packet \<noteq> 0 then Some (ciaddr packet) else None))"

definition hostname_of :: "dhcp_packet \<Rightarrow> string option" where
  "hostname_of packet = find_map (\<lambda>x. case x of Hostname h \<Rightarrow> Some h | _ \<Rightarrow> None) (options packet)"

text \<open>The loop over all ranges: the first enabled one that covers the address and whose subnet
  exists and matches the interface.\<close>

definition matching_range ::
  "'db database \<Rightarrow> ipv4 list \<Rightarrow> ipv4 \<Rightarrow> 'db \<Rightarrow> dynamic_range list \<Rightarrow> (dynamic_range \<times> subnet) option" where
  "matching_range D iface_ips ip db rs =
     find_map (\<lambda>r.
       if \<not> r_enabled r then None
       else if r_range_start r \<le> ip \<and> ip \<le> r_range_end r then
         (case db_get_subnet D (r_subnet_id r) db of
            Inr (Some s) \<Rightarrow> (if iface_in_subnet iface_ips s then Some (r, s) else None)
          | _ \<Rightarrow> None)
       else None) rs"

text \<open>The statement \<open>if let Some(id) = lease.id { let _ = db.expire_lease(id).await; }\<close>.\<close>

definition expire_by_id :: "'db database \<Rightarrow> lease \<Rightarrow> 'db \<Rightarrow> 'db" where
  "expire_by_id D l db =
     (case l_id l of Some i \<Rightarrow> snd (db_expire_lease D i db) | None \<Rightarrow> db)"

text \<open>From the check for another holder to the new lease; \<open>mac\<close> is already in lower case.\<close>

definition grant_lease ::
  "'db database \<Rightarrow> i64 \<Rightarrow> i64 \<Rightarrow> dhcp_packet \<Rightarrow> string \<Rightarrow> ipv4 \<Rightarrow> string option \<Rightarrow>
   dynamic_range \<Rightarrow> subnet \<Rightarrow> config \<Rightarrow> 'db \<Rightarrow> dhcp_packet option \<times> 'db" where
  "grant_lease D t1 t2 packet mac requested_ip hostname rg s cfg db =
     (case db_list_active_leases D t1 db of
        Inl _ \<Rightarrow> (None, db)
      | Inr active_leases \<Rightarrow>
          (let existing = List.find (\<lambda>l. l_ip_address l = requested_ip) active_leases in
           if (case existing of Some l \<Rightarrow> l_mac_address l \<noteq> mac | None \<Rightarrow> False) then (None, db)
           else
             (let db = (case existing of Some l \<Rightarrow> expire_by_id D l db | None \<Rightarrow> db);
                  lease = \<lparr> l_id = None, l_subnet_id = r_subnet_id rg, l_mac_address = mac,
                    l_ip_address = requested_ip, l_lease_start = t2,
                    l_lease_end = i64_add t2 (uint (default_lease_time (cfg_dhcp cfg))),
                    l_hostname = hostname \<rparr>
              in (case db_create_lease D lease db of
                    (Inl _, db) \<Rightarrow> (None, db)
                  | (Inr _, db) \<Rightarrow> (Some (create_ack packet requested_ip s cfg), db)))))"

definition handle_request ::
  "'db database \<Rightarrow> i64 \<Rightarrow> i64 \<Rightarrow> dhcp_packet \<Rightarrow> ipv4 list \<Rightarrow> config \<Rightarrow> 'db \<Rightarrow> dhcp_packet option \<times> 'db" where
  "handle_request D t1 t2 packet iface_ips cfg db =
     (let mac = to_lowercase (mac_to_string (chaddr packet)) in
      case requested_ip_of packet of
        None \<Rightarrow> (None, db)
      | Some requested_ip \<Rightarrow>
          (case db_get_static_ip_by_mac D mac db of
             Inr (Some st) \<Rightarrow>
               (if st_ip_address st = requested_ip then
                  (case db_get_subnet D (st_subnet_id st) db of
                     Inr (Some s) \<Rightarrow>
                       (if \<not> iface_in_subnet iface_ips s then (None, db)
                        else (Some (create_ack packet requested_ip s cfg), db))
                   | _ \<Rightarrow> (None, db))
                else (None, db))
           | _ \<Rightarrow>
               (case db_list_ranges D None db of
                  Inl _ \<Rightarrow> (None, db)
                | Inr rs \<Rightarrow>
                    (case matching_range D iface_ips requested_ip db rs of
                       None \<Rightarrow> (None, db)
                     | Some (rg, s) \<Rightarrow>
                         grant_lease D t1 t2 packet mac requested_ip (hostname_of packet) rg s cfg db))))"

definition handle_release :: "'db database \<Rightarrow> i64 \<Rightarrow> dhcp_packet \<Rightarrow> 'db \<Rightarrow> 'db" where
  "handle_release D t1 packet db =
     (case db_get_active_lease D t1 (mac_to_string (chaddr packet)) db of
        Inr (Some l) \<Rightarrow> expire_by_id D l db
      | _ \<Rightarrow> db)"

definition handle_packet ::
  "'db database \<Rightarrow> i64 \<Rightarrow> i64 \<Rightarrow> dhcp_packet \<Rightarrow> ipv4 list \<Rightarrow> config \<Rightarrow> 'db \<Rightarrow> dhcp_packet option \<times> 'db" where
  "handle_packet D t1 t2 packet iface_ips cfg db =
     (case get_message_type packet of
        None \<Rightarrow> (None, db)
      | Some Discover \<Rightarrow> (handle_discover D t1 t2 packet iface_ips cfg db, db)
      | Some Request \<Rightarrow> handle_request D t1 t2 packet iface_ips cfg db
      | Some Release \<Rightarrow> (None, handle_release D t1 packet db)
      | Some Inform \<Rightarrow> (None, db)
      | Some _ \<Rightarrow> (None, db))"

section \<open>Sending and receiving\<close>

definition DHCP_SERVER_PORT :: u16 where
  "DHCP_SERVER_PORT = 67"

definition DHCP_CLIENT_PORT :: u16 where
  "DHCP_CLIENT_PORT = 68"

definition BROADCAST :: ipv4 where
  "BROADCAST = 0xFFFFFFFF"

definition response_dest :: "dhcp_packet \<Rightarrow> dhcp_packet \<Rightarrow> ipv4 \<times> u16" where
  "response_dest request response =
     (if giaddr request \<noteq> 0 then (giaddr request, DHCP_SERVER_PORT)
      else if ciaddr request \<noteq> 0 then (ciaddr request, DHCP_CLIENT_PORT)
      else if flags request AND 0x8000 \<noteq> 0 then (BROADCAST, DHCP_CLIENT_PORT)
      else (yiaddr response, DHCP_CLIENT_PORT))"

text \<open>
  What one turn of the loop sends: nothing, a raw frame on the interface, a datagram through
  the interface's broadcast socket, or a datagram through the main socket.
\<close>

datatype send_action =
    NoSend
  | RawFrame bytes
  | BroadcastSocket "ipv4 \<times> u16" bytes
  | MainSocket "ipv4 \<times> u16" bytes

definition send_dhcp_raw_l2_broadcast ::
  "mac_address option \<Rightarrow> ipv4 \<Rightarrow> ipv4 \<Rightarrow> bytes \<Rightarrow> bytes" where
  "send_dhcp_raw_l2_broadcast iface_mac src_ip dst_ip dhcp_payload =
     build_l2_udp_frame
       (case iface_mac of Some m \<Rightarrow> m | None \<Rightarrow> MacAddress 0 0 0 0 0 0)
       (MacAddress 0xff 0xff 0xff 0xff 0xff 0xff)
       src_ip dst_ip DHCP_SERVER_PORT DHCP_CLIENT_PORT dhcp_payload"

definition send_response ::
  "ipv4 list \<Rightarrow> mac_address option \<Rightarrow> dhcp_packet \<Rightarrow> dhcp_packet \<Rightarrow> send_action" where
  "send_response iface_ips iface_mac packet response =
     (let response_bytes = packet_to_bytes response;
          dest = response_dest packet response;
          is_broadcast = (fst dest = BROADCAST)
      in if ciaddr packet = 0 \<and> giaddr packet = 0 then
           (let dst_ip = (if is_broadcast then BROADCAST else yiaddr response);
                src_ip = (case iface_ips of ip # _ \<Rightarrow> ip | [] \<Rightarrow> 0)
            in RawFrame (send_dhcp_raw_l2_broadcast iface_mac src_ip dst_ip response_bytes))
         else if is_broadcast then BroadcastSocket dest response_bytes
         else MainSocket dest response_bytes)"

text \<open>
  One turn of \<open>listen_loop\<close> after a datagram was received: \<open>ips\<close> and \<open>macs\<close> are what
  \<open>get_interface_ips\<close> and \<open>get_iface_mac\<close> return for an interface name.
\<close>

definition listen_step ::
  "'db database \<Rightarrow> config \<Rightarrow> (string \<Rightarrow> ipv4 list) \<Rightarrow> (string \<Rightarrow> mac_address option) \<Rightarrow>
   i64 \<Rightarrow> i64 \<Rightarrow> string \<Rightarrow> bytes \<Rightarrow> 'db \<Rightarrow> send_action \<times> 'db" where
  "listen_step D cfg ips macs t1 t2 iface_name data db =
     (if iface_name \<notin> set (listen_interfaces cfg) then (NoSend, db)
      else (case packet_parse data of
         Inl _ \<Rightarrow> (NoSend, db)
       | Inr packet \<Rightarrow>
           (let iface_ips = ips iface_name in
            case handle_packet D t1 t2 packet iface_ips cfg db of
              (None, db') \<Rightarrow> (NoSend, db')
            | (Some response, db') \<Rightarrow>
                (send_response iface_ips (macs iface_name) packet response, db'))))"

text \<open>One run of the background task that purges expired leases.\<close>

definition cleanup_step :: "'db database \<Rightarrow> i64 \<Rightarrow> 'db \<Rightarrow> 'db" where
  "cleanup_step D now db = snd (db_delete_expired_leases D now db)"

end
