(* ===== verification/Dhcp_Safety.thy ===== *)
theory Dhcp_Safety
  imports Dhcp_Server
begin

text \<open>
  What the DHCP server guarantees over any database that meets the contract \<open>dhcp_store\<close>: an
  address never has two holders, an acknowledged address is leased, offers come from the
  configuration, and other clients' leases are left alone. The lemmas are proved once in the
  locale; the properties state them over every such database.
\<close>

section \<open>Specifications\<close>

text \<open>At time \<open>t\<close> all active leases of an address belong to one client.\<close>

definition owners_ok :: "i64 \<Rightarrow> lease set \<Rightarrow> bool" where
  "owners_ok t L \<longleftrightarrow> (\<forall>l\<in>L. \<forall>m\<in>L. active t l \<longrightarrow> active t m \<longrightarrow>
     l_ip_address l = l_ip_address m \<longrightarrow> l_mac_address l = l_mac_address m)"

text \<open>At time \<open>t\<close> an address has at most one active lease.\<close>

definition one_lease_per_ip :: "i64 \<Rightarrow> lease set \<Rightarrow> bool" where
  "one_lease_per_ip t L \<longleftrightarrow> (\<forall>l\<in>L. \<forall>m\<in>L. active t l \<longrightarrow> active t m \<longrightarrow>
     l_ip_address l = l_ip_address m \<longrightarrow> l = m)"

definition granted_lease ::
  "dhcp_packet \<Rightarrow> config \<Rightarrow> i64 \<Rightarrow> ipv4 \<Rightarrow> i64 \<Rightarrow> i64 \<Rightarrow> lease" where
  "granted_lease packet cfg t2 ip sid i =
     \<lparr> l_id = Some i, l_subnet_id = sid, l_mac_address = mac_to_string (chaddr packet),
       l_ip_address = ip, l_lease_start = t2,
       l_lease_end = i64_add t2 (uint (default_lease_time (cfg_dhcp cfg))),
       l_hostname = hostname_of packet \<rparr>"

text \<open>The database can report an error when it is asked to expire a lease in state \<open>db\<close>.\<close>

definition expire_fails :: "'db database \<Rightarrow> 'db \<Rightarrow> bool" where
  "expire_fails D db \<longleftrightarrow> (\<exists>i. isl (fst (db_expire_lease D i db)))"

text \<open>\<open>L\<close> is what remains of the leases \<open>M\<close> when a client takes or renews an address.\<close>

definition kept_leases ::
  "'db database \<Rightarrow> i64 \<Rightarrow> string \<Rightarrow> ipv4 \<Rightarrow> 'db \<Rightarrow> lease set \<Rightarrow> lease set \<Rightarrow> bool" where
  "kept_leases D t1 mac ip db M L \<longleftrightarrow>
     (L = M \<and> (\<forall>l\<in>M. active t1 l \<longrightarrow> l_ip_address l \<noteq> ip)) \<or>
     (\<exists>m\<in>M. active t1 m \<and> l_ip_address m = ip \<and> l_mac_address m = mac \<and>
        (L = M - {m} \<or> (L = M \<and> expire_fails D db)))"

text \<open>
  Range \<open>rg\<close> of subnet \<open>s\<close> hands out \<open>ip\<close> to clients on the interface; assignment
  \<open>st\<close> in subnet \<open>s\<close> fixes the address of the client with hardware address \<open>mac\<close>.
\<close>

definition serves ::
  "('db \<Rightarrow> subnet set) \<Rightarrow> ('db \<Rightarrow> dynamic_range set) \<Rightarrow> ipv4 list \<Rightarrow> 'db \<Rightarrow>
   dynamic_range \<Rightarrow> subnet \<Rightarrow> ipv4 \<Rightarrow> bool" where
  "serves subnets ranges iface_ips db rg s ip \<longleftrightarrow>
     rg \<in> ranges db \<and> r_enabled rg \<and> r_range_start rg \<le> ip \<and> ip \<le> r_range_end rg \<and>
     s \<in> subnets db \<and> s_id s = Some (r_subnet_id rg) \<and> iface_in_subnet iface_ips s"

definition static_serves ::
  "('db \<Rightarrow> subnet set) \<Rightarrow> ('db \<Rightarrow> static_ip set) \<Rightarrow> ipv4 list \<Rightarrow> 'db \<Rightarrow> string \<Rightarrow>
   static_ip \<Rightarrow> subnet \<Rightarrow> bool" where
  "static_serves subnets statics iface_ips db mac st s \<longleftrightarrow>
     st \<in> statics db \<and> to_lowercase (st_mac_address st) = to_lowercase mac \<and>
     s \<in> subnets db \<and> s_id s = Some (st_subnet_id st) \<and> iface_in_subnet iface_ips s"

text \<open>What one packet may do to the leases \<open>M\<close>.\<close>

definition lease_effect ::
  "'db database \<Rightarrow> i64 \<Rightarrow> i64 \<Rightarrow> dhcp_packet \<Rightarrow> config \<Rightarrow> 'db \<Rightarrow> lease set \<Rightarrow> lease set \<Rightarrow> bool" where
  "lease_effect D t1 t2 packet cfg db M M' \<longleftrightarrow>
     M' = M \<or>
     (\<exists>l\<in>M. to_lowercase (l_mac_address l) = mac_to_string (chaddr packet) \<and> M' = M - {l}) \<or>
     (\<exists>ip L. kept_leases D t1 (mac_to_string (chaddr packet)) ip db M L \<and>
        (M' = L \<or> (\<exists>i sid. M' = insert (granted_lease packet cfg t2 ip sid i) L)))"

section \<open>Lemmas\<close>

lemma owners_ok_mono: "owners_ok s L \<Longrightarrow> s \<le> t \<Longrightarrow> owners_ok t L"
  by (meson owners_ok_def active_mono)

lemma owners_ok_subset: "owners_ok t L \<Longrightarrow> M \<subseteq> L \<Longrightarrow> owners_ok t M"
  by (meson owners_ok_def subsetD)

lemma one_lease_mono: "one_lease_per_ip s L \<Longrightarrow> s \<le> t \<Longrightarrow> one_lease_per_ip t L"
  by (meson one_lease_per_ip_def active_mono)

lemma one_lease_subset: "one_lease_per_ip t L \<Longrightarrow> M \<subseteq> L \<Longrightarrow> one_lease_per_ip t M"
  by (meson one_lease_per_ip_def subsetD)

lemma owners_ok_later: "owners_ok s L \<Longrightarrow> s \<le> t \<Longrightarrow> M \<subseteq> L \<Longrightarrow> owners_ok t M"
  by (rule owners_ok_subset [OF owners_ok_mono])

lemma one_lease_later: "one_lease_per_ip s L \<Longrightarrow> s \<le> t \<Longrightarrow> M \<subseteq> L \<Longrightarrow> one_lease_per_ip t M"
  by (rule one_lease_subset [OF one_lease_mono])

lemma one_lease_insert:
  "one_lease_per_ip t L \<Longrightarrow> (\<And>l. l \<in> L \<Longrightarrow> active t l \<Longrightarrow> l_ip_address l \<noteq> l_ip_address new) \<Longrightarrow>
   one_lease_per_ip t (insert new L)"
  unfolding one_lease_per_ip_def by (metis insert_iff)

lemma owners_ok_insert:
  "owners_ok t L \<Longrightarrow> (\<And>l. l \<in> L \<Longrightarrow> active t l \<Longrightarrow> l_ip_address l = l_ip_address new \<Longrightarrow>
     l_mac_address l = l_mac_address new) \<Longrightarrow> owners_ok t (insert new L)"
  unfolding owners_ok_def by (metis insert_iff)

text \<open>The three ways through \<open>handle_request\<close>, over any database.\<close>

lemma handle_request_paths:
  assumes h: "handle_request D t1 t2 packet iface_ips cfg db = (resp, db')"
  obtains "resp = None" and "db' = db"
  | st s where "db_get_static_ip_by_mac D (mac_to_string (chaddr packet)) db = Inr (Some st)"
      and "requested_ip_of packet = Some (st_ip_address st)"
      and "db_get_subnet D (st_subnet_id st) db = Inr (Some s)" and "iface_in_subnet iface_ips s"
      and "resp = Some (create_ack packet (st_ip_address st) s cfg)" and "db' = db"
  | ip rs rg s where "requested_ip_of packet = Some ip"
      and "db_list_ranges D None db = Inr rs" and "matching_range D iface_ips ip db rs = Some (rg, s)"
      and "grant_lease D t1 t2 packet (mac_to_string (chaddr packet)) ip (hostname_of packet) rg s cfg db =
        (resp, db')"
proof (cases "requested_ip_of packet")
  case None
  with h that(1) show thesis by (simp add: handle_request_def)
next
  case (Some ip)
  let ?static = "db_get_static_ip_by_mac D (mac_to_string (chaddr packet)) db"
  show thesis
  proof (cases "\<exists>st. ?static = Inr (Some st)")
    case True
    then obtain st where st: "?static = Inr (Some st)" ..
    with h Some have "resp = None \<and> db' = db \<or>
        (\<exists>s. st_ip_address st = ip \<and> db_get_subnet D (st_subnet_id st) db = Inr (Some s) \<and>
           iface_in_subnet iface_ips s \<and> resp = Some (create_ack packet ip s cfg) \<and> db' = db)"
      by (auto simp: handle_request_def Let_def split: if_splits sum.splits option.splits)
    with that(1) that(2) [OF st] Some show thesis by auto
  next
    case False
    then have "handle_request D t1 t2 packet iface_ips cfg db =
        (case db_list_ranges D None db of Inl _ \<Rightarrow> (None, db)
         | Inr rs \<Rightarrow> (case matching_range D iface_ips ip db rs of None \<Rightarrow> (None, db)
             | Some (rg, s) \<Rightarrow> grant_lease D t1 t2 packet (mac_to_string (chaddr packet)) ip
                 (hostname_of packet) rg s cfg db))"
      using Some by (auto simp: handle_request_def Let_def split: sum.split option.split)
    with h Some that(1,3) show thesis
      by (cases "db_list_ranges D None db"; cases "matching_range D iface_ips ip db (projr (db_list_ranges D None db))")
        auto
  qed
qed

lemma granted_lease_sel [simp]:
  "l_mac_address (granted_lease packet cfg t2 ip sid i) = mac_to_string (chaddr packet)"
  "l_ip_address (granted_lease packet cfg t2 ip sid i) = ip"
  "l_id (granted_lease packet cfg t2 ip sid i) = Some i"
  "l_subnet_id (granted_lease packet cfg t2 ip sid i) = sid"
  by (simp_all add: granted_lease_def)

lemma kept_leases_subset: "kept_leases D t1 mac ip db M L \<Longrightarrow> L \<subseteq> M"
  by (auto simp: kept_leases_def)

lemma kept_leases_own:
  "kept_leases D t1 mac ip db M L \<Longrightarrow> l \<in> M \<Longrightarrow> l \<notin> L \<Longrightarrow> l_mac_address l = mac \<and> l_ip_address l = ip"
  by (auto simp: kept_leases_def)

lemma kept_leases_holder:
  "kept_leases D t1 mac ip db M L \<Longrightarrow> owners_ok t1 M \<Longrightarrow> l \<in> L \<Longrightarrow> active t1 l \<Longrightarrow>
   l_ip_address l = ip \<Longrightarrow> l_mac_address l = mac"
  unfolding kept_leases_def owners_ok_def by (metis Diff_iff)

lemma kept_leases_gone:
  "kept_leases D t1 mac ip db M L \<Longrightarrow> one_lease_per_ip t1 M \<Longrightarrow> \<not> expire_fails D db \<Longrightarrow> l \<in> L \<Longrightarrow>
   active t1 l \<Longrightarrow> l_ip_address l \<noteq> ip"
  unfolding kept_leases_def one_lease_per_ip_def by (metis Diff_iff singletonI)

lemma lease_effect_refl: "lease_effect D t1 t2 packet cfg db M M"
  by (simp add: lease_effect_def)

lemma lease_effect_owners:
  assumes "lease_effect D t1 t2 packet cfg db M M'" and ok: "owners_ok t1 M" and "t1 \<le> t2"
  shows "owners_ok t2 M'"
proof -
  note ok2 = owners_ok_mono [OF ok \<open>t1 \<le> t2\<close>]
  have "owners_ok t2 (insert (granted_lease packet cfg t2 ip sid i) L)"
    if k: "kept_leases D t1 (mac_to_string (chaddr packet)) ip db M L" for ip L sid i
    using kept_leases_holder [OF k ok] owners_ok_subset [OF ok2 kept_leases_subset [OF k]] \<open>t1 \<le> t2\<close>
    by (intro owners_ok_insert) (auto intro: active_mono)
  with assms(1) ok2 show ?thesis
    unfolding lease_effect_def by (auto intro: owners_ok_subset dest: kept_leases_subset)
qed

lemma lease_effect_one_lease:
  assumes "lease_effect D t1 t2 packet cfg db M M'" and ok: "one_lease_per_ip t1 M" and "t1 \<le> t2"
    and "\<not> expire_fails D db"
  shows "one_lease_per_ip t2 M'"
proof -
  note ok2 = one_lease_mono [OF ok \<open>t1 \<le> t2\<close>]
  have "one_lease_per_ip t2 (insert (granted_lease packet cfg t2 ip sid i) L)"
    if k: "kept_leases D t1 (mac_to_string (chaddr packet)) ip db M L" for ip L sid i
    using kept_leases_gone [OF k ok] one_lease_subset [OF ok2 kept_leases_subset [OF k]] assms(3,4)
    by (intro one_lease_insert) (auto intro: active_mono)
  with assms(1) ok2 show ?thesis
    unfolding lease_effect_def by (auto intro: one_lease_subset dest: kept_leases_subset)
qed

text \<open>The leases of every other client are the same before and after.\<close>

lemma lease_effect_others:
  assumes "lease_effect D t1 t2 packet cfg db M M'"
  shows "{l \<in> M'. to_lowercase (l_mac_address l) \<noteq> mac_to_string (chaddr packet)} =
         {l \<in> M. to_lowercase (l_mac_address l) \<noteq> mac_to_string (chaddr packet)}"
proof -
  have "{l \<in> L. to_lowercase (l_mac_address l) \<noteq> mac_to_string (chaddr packet)} =
      {l \<in> M. to_lowercase (l_mac_address l) \<noteq> mac_to_string (chaddr packet)}"
    if "kept_leases D t1 (mac_to_string (chaddr packet)) ip db M L" for ip L
    using kept_leases_own [OF that] kept_leases_subset [OF that] by fastforce
  moreover have "{l \<in> insert g L. P l} = {l \<in> L. P l}" if "\<not> P g" for P :: "lease \<Rightarrow> bool" and g L
    using that by auto
  ultimately show ?thesis
    using assms unfolding lease_effect_def by auto
qed

context dhcp_store
begin

text \<open>Expiring a stored lease removes exactly that lease, unless the database reports an error.\<close>

lemma expire_by_id_cases:
  assumes inv: "inv n db" and m: "m \<in> leases db"
  shows "inv n (expire_by_id D m db)"
    and "leases (expire_by_id D m db) = leases db - {m} \<or>
      (leases (expire_by_id D m db) = leases db \<and> expire_fails D db)"
proof -
  obtain i where i: "l_id m = Some i" using lease_id [OF inv m] by auto
  obtain res db1 where e: "db_expire_lease D i db = (res, db1)" by fastforce
  have "{l \<in> leases db. l_id l \<noteq> Some i} = leases db - {m}"
    using lease_id_inj [OF inv] i m by (force simp: inj_on_def)
  then have "inv n db1 \<and> (leases db1 = leases db - {m} \<or> leases db1 = leases db \<and> expire_fails D db)"
  proof (cases res)
    case (Inl err)
    with e have "expire_fails D db" by (auto simp: expire_fails_def intro: exI [of _ i])
    with expire_err [OF inv e [unfolded Inl]] show ?thesis by simp
  qed (use expire_ok [OF inv] e in auto)
  moreover have "expire_by_id D m db = db1" using e i by (simp add: expire_by_id_def)
  ultimately show "inv n (expire_by_id D m db)"
    and "leases (expire_by_id D m db) = leases db - {m} \<or>
      (leases (expire_by_id D m db) = leases db \<and> expire_fails D db)"
    by simp_all
qed

lemma expire_by_id_frame:
  "subnets (expire_by_id D m db) = subnets db" "ranges (expire_by_id D m db) = ranges db"
  "statics (expire_by_id D m db) = statics db"
  by (cases "l_id m"; cases "db_expire_lease D (the (l_id m)) db";
      auto simp: expire_by_id_def dest: expire_frame)+

text \<open>
  The outcomes of \<open>grant_lease\<close>. \<open>L\<close> are the leases it keeps: all of them when the address is
  free, all but the client's own old lease when it has one (or all of them when expiring it
  failed).
\<close>

lemma grant_lease_cases:
  assumes inv: "inv (Suc n) db"
    and g: "grant_lease D t1 t2 packet (mac_to_string (chaddr packet)) ip (hostname_of packet) rg s cfg db =
      (resp, db')"
  obtains (refused) "resp = None" and "db' = db"
  | (proceeded) L where "kept_leases D t1 (mac_to_string (chaddr packet)) ip db (leases db) L"
      and "inv n db'"
      and "(resp = None \<and> leases db' = L) \<or>
        (resp = Some (create_ack packet ip s cfg) \<and>
         (\<exists>i. leases db' = insert (granted_lease packet cfg t2 ip (r_subnet_id rg) i) L))"
proof (cases "db_list_active_leases D t1 db")
  case (Inl e)
  with g show thesis by (auto simp: grant_lease_def intro: refused)
next
  case (Inr ls)
  let ?mac = "mac_to_string (chaddr packet)"
  let ?new = "\<lparr> l_id = None, l_subnet_id = r_subnet_id rg, l_mac_address = ?mac,
    l_ip_address = ip, l_lease_start = t2,
    l_lease_end = i64_add t2 (uint (default_lease_time (cfg_dhcp cfg))),
    l_hostname = hostname_of packet \<rparr>"
  have new: "granted_lease packet cfg t2 ip (r_subnet_id rg) i = ?new\<lparr> l_id := Some i \<rparr>" for i
    by (simp add: granted_lease_def)
  have act: "set ls = {l \<in> leases db. active t1 l}" using Inr by (rule list_active)
  have finish: thesis
    if r: "(case db_create_lease D ?new db1 of (Inl _, db) \<Rightarrow> (None, db)
         | (Inr _, db) \<Rightarrow> (Some (create_ack packet ip s cfg), db)) = (resp, db')"
      and inv1: "inv (Suc n) db1"
      and L: "kept_leases D t1 ?mac ip db (leases db) (leases db1)"
    for db1
    using create_lease_ok [OF inv1, of ?new] create_lease_err [OF inv1, of ?new] r
    by (intro proceeded [OF L]) (auto simp: new split: prod.splits sum.splits)
  show thesis
  proof (cases "List.find (\<lambda>l. l_ip_address l = ip) ls")
    case None
    with act have "kept_leases D t1 ?mac ip db (leases db) (leases db)"
      by (auto simp: find_None_iff kept_leases_def)
    with g None Inr inv show thesis
      by (intro finish [of db]) (auto simp: grant_lease_def Let_def)
  next
    case (Some m)
    with act have m: "m \<in> leases db" "active t1 m" "l_ip_address m = ip"
      by (auto dest: find_Some_in)
    show thesis
    proof (cases "l_mac_address m = ?mac")
      case False
      with g Some Inr show thesis by (auto simp: grant_lease_def Let_def intro: refused)
    next
      case True
      with m expire_by_id_cases(2) [OF inv m(1)]
      have "kept_leases D t1 ?mac ip db (leases db) (leases (expire_by_id D m db))"
        by (auto simp: kept_leases_def)
      with g Some Inr True expire_by_id_cases(1) [OF inv m(1)] show thesis
        by (intro finish [of "expire_by_id D m db"]) (auto simp: grant_lease_def Let_def)
    qed
  qed
qed

text \<open>Where a range found by \<open>matching_range\<close> comes from.\<close>

lemma matching_range_Some:
  assumes "matching_range D iface_ips ip db rs = Some (rg, s)" and "db_list_ranges D None db = Inr rs"
  shows "serves subnets ranges iface_ips db rg s ip"
proof -
  obtain r where r: "r \<in> set rs" and m: "(if \<not> r_enabled r then None
       else if r_range_start r \<le> ip \<and> ip \<le> r_range_end r then
         (case db_get_subnet D (r_subnet_id r) db of
            Inr (Some s) \<Rightarrow> (if iface_in_subnet iface_ips s then Some (r, s) else None)
          | _ \<Rightarrow> None)
       else None) = Some (rg, s)"
    using find_map_Some_in [OF assms(1) [unfolded matching_range_def]] by auto
  then have "r = rg" "db_get_subnet D (r_subnet_id r) db = Inr (Some s)" "iface_in_subnet iface_ips s"
    "r_enabled r" "r_range_start r \<le> ip" "ip \<le> r_range_end r"
    by (cases "db_get_subnet D (r_subnet_id r) db";
        cases "projr (db_get_subnet D (r_subnet_id r) db)"; simp split: if_splits)+
  with r list_ranges_all [OF assms(2)] show ?thesis
    by (auto simp: serves_def dest: get_subnet_Some)
qed

lemma handle_request_cases:
  assumes inv: "inv (Suc n) db"
    and h: "handle_request D t1 t2 packet iface_ips cfg db = (resp, db')"
  obtains (refused) "resp = None" and "db' = db"
  | (static) st s where "static_serves subnets statics iface_ips db (mac_to_string (chaddr packet)) st s"
      and "requested_ip_of packet = Some (st_ip_address st)"
      and "resp = Some (create_ack packet (st_ip_address st) s cfg)" and "db' = db"
  | (dynamic) ip rg s L where "requested_ip_of packet = Some ip"
      and "serves subnets ranges iface_ips db rg s ip"
      and "kept_leases D t1 (mac_to_string (chaddr packet)) ip db (leases db) L"
      and "inv n db'"
      and "(resp = None \<and> leases db' = L) \<or>
        (resp = Some (create_ack packet ip s cfg) \<and>
         (\<exists>i. leases db' = insert (granted_lease packet cfg t2 ip (r_subnet_id rg) i) L))"
  using handle_request_paths [OF h]
proof cases
  case 1
  then show thesis by (rule refused)
next
  case (2 st s)
  then show thesis
    by (intro static) (auto simp: static_serves_def dest: static_Some get_subnet_Some)
next
  case (3 ip rs rg s)
  note sv = matching_range_Some [OF 3(3,2)]
  from inv 3(4) show thesis
  proof (cases rule: grant_lease_cases)
    case refused
    then show thesis by (rule that(1))
  next
    case (proceeded L)
    from dynamic [OF 3(1) sv this] show thesis .
  qed
qed

lemma handle_release_cases:
  assumes inv: "inv n db"
  obtains (none) "handle_release D t1 packet db = db"
  | (one) l where "l \<in> leases db" and "active t1 l"
      and "to_lowercase (l_mac_address l) = mac_to_string (chaddr packet)"
      and "handle_release D t1 packet db = expire_by_id D l db"
proof (cases "db_get_active_lease D t1 (mac_to_string (chaddr packet)) db")
  case (Inr r)
  show thesis
  proof (cases r)
    case (Some l)
    with Inr show thesis
      by (intro one [of l]) (auto simp: handle_release_def dest: active_Some)
  qed (use Inr none in \<open>simp add: handle_release_def\<close>)
qed (use none in \<open>simp add: handle_release_def\<close>)

lemma handle_packet_effect:
  assumes inv: "inv (Suc n) db" and h: "handle_packet D t1 t2 packet iface_ips cfg db = (resp, db')"
  shows "inv n db'" and "lease_effect D t1 t2 packet cfg db (leases db) (leases db')"
proof -
  note triv = inv_mono [OF inv] lease_effect_refl
  have "inv n db' \<and> lease_effect D t1 t2 packet cfg db (leases db) (leases db')"
  proof (cases "get_message_type packet = Some Request \<or> get_message_type packet = Some Release")
    case False
    with h have "db' = db" by (auto simp: handle_packet_def split: option.splits message_type.splits)
    with triv show ?thesis by simp
  next
    case True
    then show ?thesis
    proof
      assume "get_message_type packet = Some Request"
      with h have "handle_request D t1 t2 packet iface_ips cfg db = (resp, db')"
        by (simp add: handle_packet_def)
      with inv show ?thesis
        by (cases rule: handle_request_cases) (auto simp: triv lease_effect_def)
    next
      assume "get_message_type packet = Some Release"
      with h have db': "db' = handle_release D t1 packet db" by (simp add: handle_packet_def)
      from inv show ?thesis
      proof (cases rule: handle_release_cases [of _ _ t1 packet])
        case (one l)
        with db' inv_mono [OF expire_by_id_cases(1) [OF inv one(1)]]
          expire_by_id_cases(2) [OF inv one(1)] show ?thesis
          by (auto simp: lease_effect_def)
      qed (use db' triv in simp)
    qed
  qed
  then show "inv n db'" and "lease_effect D t1 t2 packet cfg db (leases db) (leases db')" by auto
qed

lemma handle_packet_frame:
  assumes "handle_packet D t1 t2 packet iface_ips cfg db = (resp, db')"
  shows "subnets db' = subnets db \<and> ranges db' = ranges db \<and> statics db' = statics db"
proof -
  have grant: "subnets d' = subnets db \<and> ranges d' = ranges db \<and> statics d' = statics db"
    if "grant_lease D t1 t2 packet mac ip h rg s cfg db = (r, d')" for mac ip h rg s r d'
    using that
    by (auto simp: grant_lease_def Let_def expire_by_id_frame dest!: create_lease_frame
        split: sum.splits if_splits prod.splits option.splits)
  have "handle_request D t1 t2 packet iface_ips cfg db = (resp, db') \<Longrightarrow> ?thesis"
    by (elim handle_request_paths) (auto dest: grant)
  with assms show ?thesis
    by (auto simp: handle_packet_def handle_release_def expire_by_id_frame
        split: option.splits message_type.splits sum.splits)
qed

end

end
