(* ===== verification/Dhcp_Offers.thy ===== *)
theory Dhcp_Offers
  imports Dhcp_Safety
begin

text \<open>
  What \<open>handle_discover\<close> offers: the search of a range finds the least free address, offers
  come from the static assignment, the active lease or a free address of an enabled range of a
  subnet of the interface, and on a database that answers, nothing is offered only when every
  such address is leased. A client that requests what it was offered gets it.
\<close>

section \<open>The search of one range\<close>

lemma word_le_plus_one: "a < b \<Longrightarrow> a + 1 \<le> x \<longleftrightarrow> a < x" for a b x :: u32
  by (metis Suc_eq_plus1 Suc_le_eq unat_plus_one word_le_nat_alt word_less_nat_alt)

lemma first_free_step:
  "start < stop \<Longrightarrow> start \<in> set leased \<Longrightarrow>
   first_free leased start stop = first_free leased (start + 1) stop"
  by (subst first_free.simps) auto

lemma first_free_stop:
  "\<not> (start < stop \<and> start \<in> set leased) \<Longrightarrow>
   first_free leased start stop =
     (if start \<le> stop \<and> start \<notin> set leased then Some start else None)"
  by (subst first_free.simps) auto

text \<open>The search returns the least free address, and nothing only when there is none.\<close>

lemma first_free_spec:
  "case first_free leased start stop of
     Some ip \<Rightarrow> start \<le> ip \<and> ip \<le> stop \<and> ip \<notin> set leased \<and>
       (\<forall>x. start \<le> x \<and> x < ip \<longrightarrow> x \<in> set leased)
   | None \<Rightarrow> \<forall>x. start \<le> x \<and> x \<le> stop \<longrightarrow> x \<in> set leased"
proof (induction leased start stop rule: first_free.induct)
  case (1 leased start stop)
  show ?case
  proof (cases "start < stop \<and> start \<in> set leased")
    case True
    then have below: "start \<le> x \<longleftrightarrow> x = start \<or> start + 1 \<le> x" for x
      using word_le_plus_one [of start stop x] by (auto simp: le_less)
    have step: "first_free leased start stop = first_free leased (start + 1) stop"
      using True by (simp add: first_free_step)
    from True have ih: "\<not> stop < start" "\<not> start \<notin> set leased" "start \<noteq> stop" by auto
    show ?thesis
    proof (cases "first_free leased (start + 1) stop")
      case None
      with 1 [OF ih] True show ?thesis unfolding step by (auto simp: below)
    next
      case (Some ip)
      with 1 [OF ih] True have ip: "start + 1 \<le> ip" "ip \<le> stop" "ip \<notin> set leased"
        "\<forall>x. start + 1 \<le> x \<and> x < ip \<longrightarrow> x \<in> set leased" by simp_all
      with True Some below show ?thesis unfolding step by auto
    qed
  next
    case False
    then show ?thesis
      by (cases "start = stop") (auto simp: first_free_stop not_le)
  qed
qed

lemma first_free_Some:
  "first_free leased start stop = Some ip \<Longrightarrow> start \<le> ip \<and> ip \<le> stop \<and> ip \<notin> set leased"
  using first_free_spec [of start stop leased] by simp

lemma first_free_None:
  "first_free leased start stop = None \<Longrightarrow> start \<le> x \<Longrightarrow> x \<le> stop \<Longrightarrow> x \<in> set leased"
  using first_free_spec [of start stop leased] by simp

section \<open>Offers\<close>

lemma create_offer_sel [simp]:
  "yiaddr (create_offer packet ip s cfg) = ip"
  "xid (create_offer packet ip s cfg) = xid packet"
  "chaddr (create_offer packet ip s cfg) = chaddr packet"
  "siaddr (create_offer packet ip s cfg) = s_gateway s"
  by (simp_all add: create_offer_def)

lemma create_ack_sel [simp]:
  "yiaddr (create_ack packet ip s cfg) = ip"
  "xid (create_ack packet ip s cfg) = xid packet"
  "chaddr (create_ack packet ip s cfg) = chaddr packet"
  "siaddr (create_ack packet ip s cfg) = s_gateway s"
  by (simp_all add: create_ack_def)

text \<open>No active lease holds the address.\<close>

definition unleased :: "i64 \<Rightarrow> lease set \<Rightarrow> ipv4 \<Rightarrow> bool" where
  "unleased t L ip \<longleftrightarrow> (\<forall>l\<in>L. active t l \<longrightarrow> l_ip_address l \<noteq> ip)"

context dhcp_store
begin

lemma subnet_free_ip_Some:
  assumes f: "subnet_free_ip D leased db s = Some ip" and s: "s \<in> subnets db" "iface_in_subnet iface_ips s"
  obtains rg where "serves subnets ranges iface_ips db rg s ip" and "ip \<notin> set leased"
proof -
  from f obtain sid rs where sid: "s_id s = Some sid" and rs: "db_list_ranges D (Some sid) db = Inr rs"
    and fm: "find_map (\<lambda>r. first_free leased (r_range_start r) (r_range_end r)) (filter r_enabled rs) = Some ip"
    by (auto simp: subnet_free_ip_def split: option.splits sum.splits)
  from find_map_Some_in [OF fm] obtain rg where rg: "rg \<in> set rs" "r_enabled rg"
    and ff: "first_free leased (r_range_start rg) (r_range_end rg) = Some ip" by auto
  from rg(1) list_ranges_of [OF rs] have "rg \<in> ranges db" "r_subnet_id rg = sid" by auto
  with rg(2) s sid first_free_Some [OF ff] that [of rg] show thesis by (simp add: serves_def)
qed

lemma discover_dynamic_Some:
  assumes d: "discover_dynamic D t2 packet iface_ips cfg db = Some offer"
  obtains rg s ip where "serves subnets ranges iface_ips db rg s ip" and "unleased t2 (leases db) ip"
    and "offer = create_offer packet ip s cfg"
proof -
  from d obtain ss ls where ss: "db_list_subnets D db = Inr ss"
    and ls: "db_list_active_leases D t2 db = Inr ls"
    and fm: "find_map (\<lambda>s. map_option (\<lambda>ip. create_offer packet ip s cfg)
        (subnet_free_ip D (map l_ip_address ls) db s)) (filter (iface_in_subnet iface_ips) ss) = Some offer"
    by (auto simp: discover_dynamic_def Let_def split: sum.splits)
  from find_map_Some_in [OF fm] obtain s ip where s: "s \<in> subnets db" "iface_in_subnet iface_ips s"
    and f: "subnet_free_ip D (map l_ip_address ls) db s = Some ip"
    and offer: "offer = create_offer packet ip s cfg"
    using list_subnets [OF ss] by auto
  obtain rg where rg: "serves subnets ranges iface_ips db rg s ip" and "ip \<notin> set (map l_ip_address ls)"
    using f s by (rule subnet_free_ip_Some)
  then have "unleased t2 (leases db) ip"
    using list_active [OF ls] by (auto simp: unleased_def)
  with rg show thesis using offer by (rule that)
qed

text \<open>Where an offer comes from.\<close>

lemma handle_discover_cases:
  assumes h: "handle_discover D t1 t2 packet iface_ips cfg db = Some offer"
  obtains (static) st s where "static_serves subnets statics iface_ips db (mac_to_string (chaddr packet)) st s"
      and "offer = create_offer packet (st_ip_address st) s cfg"
  | (held) l s where "l \<in> leases db" and "active t1 l"
      and "to_lowercase (l_mac_address l) = mac_to_string (chaddr packet)"
      and "s \<in> subnets db" and "s_id s = Some (l_subnet_id l)" and "iface_in_subnet iface_ips s"
      and "offer = create_offer packet (l_ip_address l) s cfg"
  | (dynamic) rg s ip where "serves subnets ranges iface_ips db rg s ip" and "unleased t2 (leases db) ip"
      and "offer = create_offer packet ip s cfg"
proof (cases "discover_static D packet iface_ips cfg db")
  case (Some r)
  with h have "\<exists>st s. db_get_static_ip_by_mac D (mac_to_string (chaddr packet)) db = Inr (Some st) \<and>
      db_get_subnet D (st_subnet_id st) db = Inr (Some s) \<and> iface_in_subnet iface_ips s \<and>
      offer = create_offer packet (st_ip_address st) s cfg"
    by (auto simp: handle_discover_def discover_static_def split: sum.splits option.splits if_splits)
  then show thesis
    by (auto simp: static_serves_def dest!: static_Some get_subnet_Some intro: static)
next
  case st: None
  show thesis
  proof (cases "discover_lease D t1 packet iface_ips cfg db")
    case (Some r)
    with h st have "\<exists>l s. db_get_active_lease D t1 (mac_to_string (chaddr packet)) db = Inr (Some l) \<and>
        db_get_subnet D (l_subnet_id l) db = Inr (Some s) \<and> iface_in_subnet iface_ips s \<and>
        offer = create_offer packet (l_ip_address l) s cfg"
      by (auto simp: handle_discover_def discover_lease_def split: sum.splits option.splits if_splits)
    then show thesis
      by (auto dest!: active_Some get_subnet_Some intro: held)
  next
    case None
    with h st have "discover_dynamic D t2 packet iface_ips cfg db = Some offer"
      by (simp add: handle_discover_def)
    then show thesis by (rule discover_dynamic_Some) (rule dynamic)
  qed
qed

end

context reliable_store
begin

text \<open>No offer from the ranges means that they are exhausted.\<close>

lemma discover_dynamic_None:
  assumes d: "discover_dynamic D t2 packet iface_ips cfg db = None"
    and sv: "serves subnets ranges iface_ips db rg s ip"
  shows "\<not> unleased t2 (leases db) ip"
proof -
  obtain ss ls rs where ss: "db_list_subnets D db = Inr ss"
    and ls: "db_list_active_leases D t2 db = Inr ls"
    and rs: "db_list_ranges D (Some (r_subnet_id rg)) db = Inr rs"
    using list_subnets_total list_active_total list_ranges_total by blast
  from sv list_subnets [OF ss] have s: "s \<in> set (filter (iface_in_subnet iface_ips) ss)"
    and sid: "s_id s = Some (r_subnet_id rg)" by (auto simp: serves_def)
  from d ss ls s have "subnet_free_ip D (map l_ip_address ls) db s = None"
    by (auto simp: discover_dynamic_def Let_def find_map_None_iff)
  moreover from sv list_ranges_of [OF rs] have "rg \<in> set (filter r_enabled rs)"
    by (auto simp: serves_def)
  ultimately have "first_free (map l_ip_address ls) (r_range_start rg) (r_range_end rg) = None"
    using sid rs by (auto simp: subnet_free_ip_def find_map_None_iff)
  with sv have "ip \<in> set (map l_ip_address ls)"
    by (auto simp: serves_def dest: first_free_None)
  then show ?thesis using list_active [OF ls] by (auto simp: unleased_def)
qed

text \<open>A range that serves the address is found.\<close>

lemma matching_range_found:
  assumes inv: "inv n db" and sv: "serves subnets ranges iface_ips db rg s ip"
    and rs: "db_list_ranges D None db = Inr rs"
  obtains rg' s' where "matching_range D iface_ips ip db rs = Some (rg', s')"
proof -
  from sv have s: "s \<in> subnets db" "s_id s = Some (r_subnet_id rg)" by (auto simp: serves_def)
  obtain r where r: "db_get_subnet D (r_subnet_id rg) db = Inr r" using get_subnet_total by blast
  have "r = Some s"
  proof (cases r)
    case None
    with get_subnet_None [OF r [unfolded None] s(1)] s(2) show ?thesis by simp
  next
    case (Some s')
    with get_subnet_Some [OF r [unfolded Some]] s inj_onD [OF subnet_id_inj [OF inv]] show ?thesis by metis
  qed
  with r sv list_ranges_all [OF rs] have "matching_range D iface_ips ip db rs \<noteq> None"
    by (auto simp: matching_range_def find_map_None_iff serves_def intro!: bexI [of _ rg])
  with that show thesis by auto
qed

lemma grant_lease_succeeds:
  assumes inv: "inv (Suc n) db" and s: "s \<in> subnets db" "s_id s = Some (r_subnet_id rg)"
    and free: "\<forall>l\<in>leases db. active t1 l \<longrightarrow> l_ip_address l = ip \<longrightarrow> l_mac_address l = mac"
  obtains db' where "grant_lease D t1 t2 packet mac ip h rg s cfg db = (Some (create_ack packet ip s cfg), db')"
proof -
  obtain ls where ls: "db_list_active_leases D t1 db = Inr ls" using list_active_total by blast
  define existing where "existing = List.find (\<lambda>l. l_ip_address l = ip) ls"
  have keep: "l \<in> leases db" if "existing = Some l" for l
    using that list_active [OF ls] by (auto simp: existing_def dest!: find_Some_in)
  have "\<not> (case existing of Some l \<Rightarrow> l_mac_address l \<noteq> mac | None \<Rightarrow> False)"
    using free list_active [OF ls] by (auto simp: existing_def split: option.splits dest!: find_Some_in)
  moreover define d where "d = (case existing of Some l \<Rightarrow> expire_by_id D l db | None \<Rightarrow> db)"
  moreover have "inv (Suc n) d" and "subnets d = subnets db"
    using inv keep expire_by_id_cases(1) [OF inv]
    by (auto simp: d_def expire_by_id_frame split: option.split)
  moreover define l where "l = \<lparr> l_id = None, l_subnet_id = r_subnet_id rg, l_mac_address = mac,
      l_ip_address = ip, l_lease_start = t2,
      l_lease_end = i64_add t2 (uint (default_lease_time (cfg_dhcp cfg))), l_hostname = h \<rparr>"
  ultimately obtain i db' where "db_create_lease D l d = (Inr i, db')"
    using create_lease_total [of n d s l] s by (auto simp: prod_eq_iff)
  with ls \<open>\<not> (case existing of Some l \<Rightarrow> l_mac_address l \<noteq> mac | None \<Rightarrow> False)\<close>
  have "grant_lease D t1 t2 packet mac ip h rg s cfg db = (Some (create_ack packet ip s cfg), db')"
    by (simp add: grant_lease_def Let_def flip: existing_def d_def l_def)
  then show thesis by (rule that)
qed

lemma handle_request_succeeds:
  assumes inv: "inv (Suc n) db"
    and no_static: "\<forall>st\<in>statics db. to_lowercase (st_mac_address st) \<noteq> mac_to_string (chaddr packet)"
    and ip: "requested_ip_of packet = Some ip"
    and sv: "serves subnets ranges iface_ips db rg s ip"
    and free: "\<forall>l\<in>leases db. active t1 l \<longrightarrow> l_ip_address l = ip \<longrightarrow>
      l_mac_address l = mac_to_string (chaddr packet)"
  obtains s' db' where "handle_request D t1 t2 packet iface_ips cfg db = (Some (create_ack packet ip s' cfg), db')"
proof -
  obtain r where r: "db_get_static_ip_by_mac D (mac_to_string (chaddr packet)) db = Inr r"
    using get_static_total by blast
  have "r = None"
  proof (cases r)
    case (Some st)
    from static_Some [OF r [unfolded Some]] no_static show ?thesis by auto
  qed
  moreover obtain rs where rs: "db_list_ranges D None db = Inr rs" using list_ranges_total by blast
  moreover obtain rg' s' where m: "matching_range D iface_ips ip db rs = Some (rg', s')"
    using inv sv rs by (rule matching_range_found)
  moreover obtain db' where "grant_lease D t1 t2 packet (mac_to_string (chaddr packet)) ip (hostname_of packet)
      rg' s' cfg db = (Some (create_ack packet ip s' cfg), db')"
  proof (rule grant_lease_succeeds [OF inv _ _ free])
    show "s' \<in> subnets db" "s_id s' = Some (r_subnet_id rg')"
      using matching_range_Some [OF m rs] by (simp_all add: serves_def)
  qed
  ultimately have "handle_request D t1 t2 packet iface_ips cfg db =
      (Some (create_ack packet ip s' cfg), db')"
    using r ip by (simp add: handle_request_def)
  then show thesis by (rule that)
qed

end

end
