(* ===== verification/Memory_Db.thy ===== *)
theory Memory_Db
  imports Database
begin

text \<open>
  The in-memory database (\<open>crates/ndhcpd/src/db/memory.rs\<close>). Each table is a vector behind
  its own lock and each counter has a lock too; every method takes the locks it needs before it
  reads and holds them until it returns, so a method is one step on the record of all tables.
\<close>

section \<open>State and methods\<close>

record memory_db =
  m_subnets :: "subnet list"
  m_ranges :: "dynamic_range list"
  m_static_ips :: "static_ip list"
  m_leases :: "lease list"
  m_ia_prefixes :: "ia_prefix list"
  m_tokens :: "(i64 \<times> string \<times> string \<times> i64) list"
  next_subnet_id :: i64
  next_range_id :: i64
  next_lease_id :: i64
  next_ia_prefix_id :: i64
  next_token_id :: i64

definition mem_new :: memory_db where
  "mem_new = \<lparr> m_subnets = [], m_ranges = [], m_static_ips = [], m_leases = [],
     m_ia_prefixes = [], m_tokens = [], next_subnet_id = 1, next_range_id = 1,
     next_lease_id = 1, next_ia_prefix_id = 1, next_token_id = 1 \<rparr>"

subsection \<open>Subnets\<close>

definition mem_create_subnet :: "subnet \<Rightarrow> (memory_db, i64) db_write" where
  "mem_create_subnet subnet db =
     (let new_id = next_subnet_id db in
      (Inr new_id, db\<lparr> next_subnet_id := i64_add new_id 1,
         m_subnets := m_subnets db @ [subnet\<lparr> s_id := Some new_id \<rparr>] \<rparr>))"

definition mem_get_subnet :: "i64 \<Rightarrow> (memory_db, subnet option) db_read" where
  "mem_get_subnet i db = Inr (List.find (\<lambda>s. s_id s = Some i) (m_subnets db))"

definition mem_list_subnets :: "(memory_db, subnet list) db_read" where
  "mem_list_subnets db = Inr (m_subnets db)"

definition mem_update_subnet :: "i64 \<Rightarrow> subnet \<Rightarrow> (memory_db, unit) db_write" where
  "mem_update_subnet i subnet db =
     (Inr (), db\<lparr> m_subnets := update_first (\<lambda>s. s_id s = Some i)
        (\<lambda>_. subnet\<lparr> s_id := Some i \<rparr>) (m_subnets db) \<rparr>)"

definition mem_delete_subnet :: "i64 \<Rightarrow> (memory_db, unit) db_write" where
  "mem_delete_subnet i db =
     (Inr (), db\<lparr> m_subnets := filter (\<lambda>s. s_id s \<noteq> Some i) (m_subnets db) \<rparr>)"

subsection \<open>Dynamic ranges\<close>

definition mem_create_range :: "dynamic_range \<Rightarrow> (memory_db, i64) db_write" where
  "mem_create_range rg db =
     (let new_id = next_range_id db in
      (Inr new_id, db\<lparr> next_range_id := i64_add new_id 1,
         m_ranges := m_ranges db @ [rg\<lparr> r_id := Some new_id \<rparr>] \<rparr>))"

definition mem_list_ranges :: "i64 option \<Rightarrow> (memory_db, dynamic_range list) db_read" where
  "mem_list_ranges subnet_id db =
     (case subnet_id of
        Some sid \<Rightarrow> Inr (filter (\<lambda>r. r_subnet_id r = sid) (m_ranges db))
      | None \<Rightarrow> Inr (m_ranges db))"

definition mem_delete_range :: "i64 \<Rightarrow> (memory_db, unit) db_write" where
  "mem_delete_range i db =
     (Inr (), db\<lparr> m_ranges := filter (\<lambda>r. r_id r \<noteq> Some i) (m_ranges db) \<rparr>)"

subsection \<open>Static assignments\<close>

definition mem_create_static_ip :: "static_ip \<Rightarrow> (memory_db, unit) db_write" where
  "mem_create_static_ip st db = (Inr (), db\<lparr> m_static_ips := m_static_ips db @ [st] \<rparr>)"

definition mem_list_static_ips :: "i64 option \<Rightarrow> (memory_db, static_ip list) db_read" where
  "mem_list_static_ips subnet_id db =
     (case subnet_id of
        Some sid \<Rightarrow> Inr (filter (\<lambda>s. st_subnet_id s = sid) (m_static_ips db))
      | None \<Rightarrow> Inr (m_static_ips db))"

definition mem_get_static_ip_by_mac :: "string \<Rightarrow> (memory_db, static_ip option) db_read" where
  "mem_get_static_ip_by_mac mac db =
     Inr (List.find (\<lambda>s. to_lowercase (st_mac_address s) = to_lowercase mac) (m_static_ips db))"

definition mem_update_static_ip_hostname ::
  "string \<Rightarrow> string option \<Rightarrow> (memory_db, unit) db_write" where
  "mem_update_static_ip_hostname ip hostname db =
     (Inr (), db\<lparr> m_static_ips := update_first (\<lambda>s. ipv4_to_string (st_ip_address s) = ip)
        (\<lambda>s. s\<lparr> st_hostname := hostname \<rparr>) (m_static_ips db) \<rparr>)"

definition mem_delete_static_ip :: "string \<Rightarrow> (memory_db, unit) db_write" where
  "mem_delete_static_ip ip db =
     (Inr (), db\<lparr> m_static_ips :=
        filter (\<lambda>s. ipv4_to_string (st_ip_address s) \<noteq> ip) (m_static_ips db) \<rparr>)"

subsection \<open>Leases\<close>

definition mem_create_lease :: "lease \<Rightarrow> (memory_db, i64) db_write" where
  "mem_create_lease l db =
     (let new_id = next_lease_id db in
      (Inr new_id, db\<lparr> next_lease_id := i64_add new_id 1,
         m_leases := m_leases db @ [l\<lparr> l_id := Some new_id \<rparr>] \<rparr>))"

definition mem_get_active_lease :: "i64 \<Rightarrow> string \<Rightarrow> (memory_db, lease option) db_read" where
  "mem_get_active_lease now mac db =
     Inr (List.find (\<lambda>l. to_lowercase (l_mac_address l) = to_lowercase mac \<and> now < l_lease_end l)
        (m_leases db))"

definition mem_list_active_leases :: "i64 \<Rightarrow> (memory_db, lease list) db_read" where
  "mem_list_active_leases now db = Inr (filter (\<lambda>l. now < l_lease_end l) (m_leases db))"

definition mem_expire_lease :: "i64 \<Rightarrow> (memory_db, unit) db_write" where
  "mem_expire_lease i db =
     (Inr (), db\<lparr> m_leases := filter (\<lambda>l. l_id l \<noteq> Some i) (m_leases db) \<rparr>)"

definition mem_delete_expired_leases :: "i64 \<Rightarrow> (memory_db, nat) db_write" where
  "mem_delete_expired_leases now db =
     (let kept = filter (\<lambda>l. now \<le> l_lease_end l) (m_leases db) in
      (Inr (length (m_leases db) - length kept), db\<lparr> m_leases := kept \<rparr>))"

subsection \<open>IPv6 prefixes\<close>

definition mem_create_ia_prefix :: "ia_prefix \<Rightarrow> (memory_db, i64) db_write" where
  "mem_create_ia_prefix p db =
     (let new_id = next_ia_prefix_id db in
      (Inr new_id, db\<lparr> next_ia_prefix_id := i64_add new_id 1,
         m_ia_prefixes := m_ia_prefixes db @ [p\<lparr> p_id := Some new_id \<rparr>] \<rparr>))"

definition mem_get_ia_prefix :: "i64 \<Rightarrow> (memory_db, ia_prefix option) db_read" where
  "mem_get_ia_prefix i db = Inr (List.find (\<lambda>p. p_id p = Some i) (m_ia_prefixes db))"

definition mem_list_ia_prefixes :: "string option \<Rightarrow> (memory_db, ia_prefix list) db_read" where
  "mem_list_ia_prefixes iface db =
     (case iface of
        Some i \<Rightarrow> Inr (filter (\<lambda>p. p_interface p = i) (m_ia_prefixes db))
      | None \<Rightarrow> Inr (m_ia_prefixes db))"

definition mem_update_ia_prefix :: "i64 \<Rightarrow> ia_prefix \<Rightarrow> (memory_db, unit) db_write" where
  "mem_update_ia_prefix i p db =
     (Inr (), db\<lparr> m_ia_prefixes := update_first (\<lambda>x. p_id x = Some i)
        (\<lambda>_. p\<lparr> p_id := Some i \<rparr>) (m_ia_prefixes db) \<rparr>)"

definition mem_delete_ia_prefix :: "i64 \<Rightarrow> (memory_db, unit) db_write" where
  "mem_delete_ia_prefix i db =
     (Inr (), db\<lparr> m_ia_prefixes := filter (\<lambda>p. p_id p \<noteq> Some i) (m_ia_prefixes db) \<rparr>)"

subsection \<open>Tokens\<close>

definition mem_list_tokens :: "(memory_db, (string \<times> i64) list) db_read" where
  "mem_list_tokens db =
     Inr (map (\<lambda>(_, _, token_hash, enabled). (token_hash, enabled))
       (filter (\<lambda>(_, _, _, enabled). enabled = 1) (m_tokens db)))"

definition mem_list_api_tokens :: "(memory_db, api_token list) db_read" where
  "mem_list_api_tokens db =
     Inr (map (\<lambda>(i, name, _, enabled).
       \<lparr> tk_id = Some i, tk_name = name, tk_token_hash = None, tk_salt = None,
         tk_created_at = None, tk_last_used_at = None, tk_enabled = (enabled = 1),
         tk_token = None \<rparr>) (m_tokens db))"

text \<open>The salt is ignored, and the clock argument with it: the vector has no creation time.\<close>

definition mem_create_token ::
  "i64 \<Rightarrow> string \<Rightarrow> string \<Rightarrow> string \<Rightarrow> (memory_db, i64) db_write" where
  "mem_create_token now name token_hash salt db =
     (let new_id = next_token_id db in
      (Inr new_id, db\<lparr> next_token_id := i64_add new_id 1,
         m_tokens := m_tokens db @ [(new_id, name, token_hash, 1)] \<rparr>))"

definition mem_delete_token :: "i64 \<Rightarrow> (memory_db, unit) db_write" where
  "mem_delete_token i db =
     (Inr (), db\<lparr> m_tokens := filter (\<lambda>(tid, _, _, _). tid \<noteq> i) (m_tokens db) \<rparr>)"

definition mem_toggle_token :: "i64 \<Rightarrow> bool \<Rightarrow> (memory_db, unit) db_write" where
  "mem_toggle_token i enabled db =
     (Inr (), db\<lparr> m_tokens := update_first (\<lambda>(tid, _, _, _). tid = i)
        (\<lambda>(tid, name, h, _). (tid, name, h, if enabled then 1 else 0)) (m_tokens db) \<rparr>)"

definition mem_update_token_last_used :: "i64 \<Rightarrow> string \<Rightarrow> (memory_db, unit) db_write" where
  "mem_update_token_last_used now token_hash db = (Inr (), db)"

text \<open>\<open>impl Database for InMemoryDatabase\<close>.\<close>

definition memory_database :: "memory_db database" where
  "memory_database = \<lparr>
     db_create_subnet = mem_create_subnet, db_get_subnet = mem_get_subnet,
     db_list_subnets = mem_list_subnets, db_update_subnet = mem_update_subnet,
     db_delete_subnet = mem_delete_subnet,
     db_create_range = mem_create_range, db_list_ranges = mem_list_ranges,
     db_delete_range = mem_delete_range,
     db_create_static_ip = mem_create_static_ip, db_list_static_ips = mem_list_static_ips,
     db_get_static_ip_by_mac = mem_get_static_ip_by_mac,
     db_update_static_ip_hostname = mem_update_static_ip_hostname,
     db_delete_static_ip = mem_delete_static_ip,
     db_create_lease = mem_create_lease, db_get_active_lease = mem_get_active_lease,
     db_list_active_leases = mem_list_active_leases, db_expire_lease = mem_expire_lease,
     db_delete_expired_leases = mem_delete_expired_leases,
     db_create_ia_prefix = mem_create_ia_prefix, db_get_ia_prefix = mem_get_ia_prefix,
     db_list_ia_prefixes = mem_list_ia_prefixes, db_update_ia_prefix = mem_update_ia_prefix,
     db_delete_ia_prefix = mem_delete_ia_prefix,
     db_list_tokens = mem_list_tokens, db_list_api_tokens = mem_list_api_tokens,
     db_create_token = mem_create_token, db_delete_token = mem_delete_token,
     db_toggle_token = mem_toggle_token,
     db_update_token_last_used = mem_update_token_last_used \<rparr>"

text \<open>The invariant of the tables with identifiers: see \<open>table_ok\<close>.\<close>

definition mem_inv :: "nat \<Rightarrow> memory_db \<Rightarrow> bool" where
  "mem_inv n db \<longleftrightarrow>
     table_ok s_id n (m_subnets db) (next_subnet_id db) \<and>
     table_ok r_id n (m_ranges db) (next_range_id db) \<and>
     table_ok l_id n (m_leases db) (next_lease_id db) \<and>
     table_ok p_id n (m_ia_prefixes db) (next_ia_prefix_id db)"

section \<open>Interpretations\<close>

lemmas mem_write_defs =
  mem_create_subnet_def mem_update_subnet_def mem_delete_subnet_def mem_create_range_def
  mem_delete_range_def mem_create_static_ip_def mem_update_static_ip_hostname_def
  mem_delete_static_ip_def mem_create_lease_def mem_expire_lease_def
  mem_delete_expired_leases_def mem_create_ia_prefix_def mem_update_ia_prefix_def
  mem_delete_ia_prefix_def mem_create_token_def mem_delete_token_def mem_toggle_token_def
  mem_update_token_last_used_def

lemmas mem_read_defs =
  mem_get_subnet_def mem_list_subnets_def mem_list_ranges_def mem_list_static_ips_def
  mem_get_static_ip_by_mac_def mem_get_active_lease_def mem_list_active_leases_def
  mem_get_ia_prefix_def mem_list_ia_prefixes_def mem_list_tokens_def mem_list_api_tokens_def

interpretation subnet_table: id_table_update m_subnets next_subnet_id s_id
  "\<lambda>i s. s\<lparr> s_id := Some i \<rparr>" mem_create_subnet mem_delete_subnet mem_update_subnet
  by unfold_locales (simp_all add: mem_write_defs Let_def)

interpretation range_table: id_table m_ranges next_range_id r_id
  "\<lambda>i r. r\<lparr> r_id := Some i \<rparr>" mem_create_range mem_delete_range
  by unfold_locales (simp_all add: mem_write_defs Let_def)

interpretation lease_table: id_table m_leases next_lease_id l_id
  "\<lambda>i l. l\<lparr> l_id := Some i \<rparr>" mem_create_lease mem_expire_lease
  by unfold_locales (simp_all add: mem_write_defs Let_def)

interpretation prefix_table: id_table_update m_ia_prefixes next_ia_prefix_id p_id
  "\<lambda>i p. p\<lparr> p_id := Some i \<rparr>" mem_create_ia_prefix mem_delete_ia_prefix mem_update_ia_prefix
  by unfold_locales (simp_all add: mem_write_defs Let_def)

lemma find_eq_SomeD: "List.find p xs = Some x \<Longrightarrow> x \<in> set xs" "List.find p xs = Some x \<Longrightarrow> p x"
  by (auto dest: find_Some_in)

lemmas mem_method_simps [simp] =
  memory_database_def [THEN arg_cong [where f = db_create_subnet], simplified]
  memory_database_def [THEN arg_cong [where f = db_get_subnet], simplified]
  memory_database_def [THEN arg_cong [where f = db_list_subnets], simplified]
  memory_database_def [THEN arg_cong [where f = db_update_subnet], simplified]
  memory_database_def [THEN arg_cong [where f = db_delete_subnet], simplified]
  memory_database_def [THEN arg_cong [where f = db_create_range], simplified]
  memory_database_def [THEN arg_cong [where f = db_list_ranges], simplified]
  memory_database_def [THEN arg_cong [where f = db_delete_range], simplified]
  memory_database_def [THEN arg_cong [where f = db_create_static_ip], simplified]
  memory_database_def [THEN arg_cong [where f = db_list_static_ips], simplified]
  memory_database_def [THEN arg_cong [where f = db_get_static_ip_by_mac], simplified]
  memory_database_def [THEN arg_cong [where f = db_update_static_ip_hostname], simplified]
  memory_database_def [THEN arg_cong [where f = db_delete_static_ip], simplified]
  memory_database_def [THEN arg_cong [where f = db_create_lease], simplified]
  memory_database_def [THEN arg_cong [where f = db_get_active_lease], simplified]
  memory_database_def [THEN arg_cong [where f = db_list_active_leases], simplified]
  memory_database_def [THEN arg_cong [where f = db_expire_lease], simplified]
  memory_database_def [THEN arg_cong [where f = db_delete_expired_leases], simplified]
  memory_database_def [THEN arg_cong [where f = db_create_ia_prefix], simplified]
  memory_database_def [THEN arg_cong [where f = db_get_ia_prefix], simplified]
  memory_database_def [THEN arg_cong [where f = db_list_ia_prefixes], simplified]
  memory_database_def [THEN arg_cong [where f = db_update_ia_prefix], simplified]
  memory_database_def [THEN arg_cong [where f = db_delete_ia_prefix], simplified]
  memory_database_def [THEN arg_cong [where f = db_list_tokens], simplified]
  memory_database_def [THEN arg_cong [where f = db_list_api_tokens], simplified]
  memory_database_def [THEN arg_cong [where f = db_create_token], simplified]
  memory_database_def [THEN arg_cong [where f = db_delete_token], simplified]
  memory_database_def [THEN arg_cong [where f = db_toggle_token], simplified]
  memory_database_def [THEN arg_cong [where f = db_update_token_last_used], simplified]

interpretation mem_config: config_store memory_database "\<lambda>db. set (m_subnets db)"
  "\<lambda>db. set (m_ranges db)" "\<lambda>db. set (m_static_ips db)"
  by unfold_locales
    (auto simp: mem_read_defs find_None_iff dest: find_eq_SomeD split: option.splits)

lemma mem_inv_new: "int n < i64_max \<Longrightarrow> mem_inv n mem_new"
  by (simp add: mem_inv_def mem_new_def table_ok_empty)

lemma mem_inv_mono: "mem_inv n db \<Longrightarrow> m \<le> n \<Longrightarrow> mem_inv m db"
  unfolding mem_inv_def by (blast intro: table_ok_mono)

lemma mem_inv_leases: "mem_inv n db \<Longrightarrow> table_ok l_id n (m_leases db) (next_lease_id db)"
  by (simp add: mem_inv_def)

lemma mem_inv_create_lease: "mem_inv (Suc n) db \<Longrightarrow> mem_inv n (snd (mem_create_lease l db))"
  using lease_table.create_ok [of n db l]
  by (auto simp: mem_inv_def mem_create_lease_def Let_def intro: table_ok_mono)

lemma mem_inv_filter_leases: "mem_inv n db \<Longrightarrow> mem_inv n (db\<lparr> m_leases := filter p (m_leases db) \<rparr>)"
  by (simp add: mem_inv_def table_ok_filter)

interpretation mem_lease: lease_store memory_database "\<lambda>db. set (m_leases db)" mem_inv
proof (unfold_locales, goal_cases)
  case (4 n db l i db')
  with mem_inv_create_lease [OF 4(1), of l] table_ok_fresh [OF mem_inv_leases [OF 4(1)]] show ?case
    by (auto simp: mem_create_lease_def Let_def)
next
  case (8 n db now c db')
  then show ?case
    by (auto simp: mem_delete_expired_leases_def Let_def mem_inv_filter_leases)
next
  case (10 n db l)
  then show ?case using table_ok_Some [OF mem_inv_leases] by blast
next
  case (11 n db)
  then show ?case using table_ok_inj [OF mem_inv_leases] by blast
qed (auto simp: mem_read_defs mem_write_defs Let_def active_def find_None_iff
      dest: find_eq_SomeD intro: mem_inv_filter_leases mem_inv_mono)

interpretation mem: reliable_store memory_database "\<lambda>db. set (m_subnets db)"
  "\<lambda>db. set (m_ranges db)" "\<lambda>db. set (m_static_ips db)" "\<lambda>db. set (m_leases db)" mem_inv
proof (unfold_locales, goal_cases)
  case (1 n db)
  then show ?case by (auto simp: mem_inv_def intro: table_ok_inj)
qed (auto simp: mem_write_defs mem_read_defs Let_def split: option.split)

lemma mem_admin_inv: "mem_inv (Suc n) db \<Longrightarrow> mem_inv n (admin_apply memory_database x db)"
  using subnet_table.create_ok [of n db] subnet_table.update_ok [of n db] subnet_table.delete_ok [of n db]
    range_table.create_ok [of n db] range_table.delete_ok [of n db]
    prefix_table.create_ok [of n db] prefix_table.update_ok [of n db] prefix_table.delete_ok [of n db]
    mem_inv_mono [of "Suc n" db n]
  by (cases x) (auto simp: mem_inv_def mem_write_defs Let_def)

lemma mem_admin_leases: "m_leases (admin_apply memory_database x db) = m_leases db"
  by (cases x) (auto simp: mem_write_defs Let_def)

interpretation mem_admin: admin_store memory_database "\<lambda>db. set (m_subnets db)"
  "\<lambda>db. set (m_ranges db)" "\<lambda>db. set (m_static_ips db)" "\<lambda>db. set (m_leases db)" mem_inv
  by unfold_locales (simp_all add: mem_admin_inv mem_admin_leases)

end
