(* ===== verification/Dhcp_Runs.thy ===== *)
theory Dhcp_Runs
  imports Dhcp_Offers Memory_Db
begin

text \<open>
  The running server as a state machine: the receive loop, the task that purges expired leases
  and the administration interface take turns on the database. A state is the last clock
  reading and the database; clock readings do not go back. The invariants are proved by rule
  induction over the turns.
\<close>

section \<open>Turns\<close>

inductive server_step ::
  "'db database \<Rightarrow> config \<Rightarrow> (string \<Rightarrow> ipv4 list) \<Rightarrow> (string \<Rightarrow> mac_address option) \<Rightarrow>
   i64 \<times> 'db \<Rightarrow> i64 \<times> 'db \<Rightarrow> bool"
  for D cfg ips macs where
  receive: "now \<le> t1 \<Longrightarrow> t1 \<le> t2 \<Longrightarrow> listen_step D cfg ips macs t1 t2 iface_name data db = (act, db') \<Longrightarrow>
    server_step D cfg ips macs (now, db) (t2, db')"
| cleanup: "now \<le> t \<Longrightarrow> server_step D cfg ips macs (now, db) (t, cleanup_step D t db)"
| admin: "now \<le> t \<Longrightarrow> server_step D cfg ips macs (now, db) (t, admin_apply D x db)"

inductive server_run ::
  "'db database \<Rightarrow> config \<Rightarrow> (string \<Rightarrow> ipv4 list) \<Rightarrow> (string \<Rightarrow> mac_address option) \<Rightarrow>
   i64 \<times> 'db \<Rightarrow> nat \<Rightarrow> i64 \<times> 'db \<Rightarrow> bool"
  for D cfg ips macs st where
  run_refl: "server_run D cfg ips macs st 0 st"
| run_step: "server_run D cfg ips macs st n st' \<Longrightarrow> server_step D cfg ips macs st' st'' \<Longrightarrow>
    server_run D cfg ips macs st (Suc n) st''"

section \<open>Invariants\<close>

lemma listen_step_db:
  assumes "listen_step D cfg ips macs t1 t2 iface_name data db = (act, db')"
  obtains (ignored) "db' = db" and "act = NoSend"
  | (handled) packet resp where "iface_name \<in> set (listen_interfaces cfg)" and "packet_parse data = Inr packet"
      and "handle_packet D t1 t2 packet (ips iface_name) cfg db = (resp, db')"
      and "act = (case resp of None \<Rightarrow> NoSend
        | Some response \<Rightarrow> send_response (ips iface_name) (macs iface_name) packet response)"
proof (cases "iface_name \<in> set (listen_interfaces cfg)")
  case True
  show thesis
  proof (cases "packet_parse data")
    case (Inr packet)
    obtain resp d where h: "handle_packet D t1 t2 packet (ips iface_name) cfg db = (resp, d)" by fastforce
    with assms True Inr have "d = db'" "act = (case resp of None \<Rightarrow> NoSend
        | Some response \<Rightarrow> send_response (ips iface_name) (macs iface_name) packet response)"
      by (auto simp: listen_step_def Let_def split: option.splits)
    with h True Inr show thesis by (intro handled) simp_all
  qed (use assms True ignored in \<open>simp add: listen_step_def\<close>)
qed (use assms ignored in \<open>simp add: listen_step_def\<close>)

context admin_store
begin

lemma server_step_inv:
  assumes st: "server_step D cfg ips macs (now, db) (t, db')" and inv: "inv (Suc n) db"
  shows "inv n db' \<and> now \<le> t"
  using st
proof cases
  case (receive t1 iface_name data act)
  then show ?thesis
    using inv inv_mono [OF inv] handle_packet_effect(1) [OF inv]
    by (auto elim!: listen_step_db)
next
  case cleanup
  then show ?thesis
    using inv_mono [OF inv] purge_keeps_active [OF inv, of t]
    by (cases "db_delete_expired_leases D t db") (auto simp: cleanup_step_def intro: inv_mono)
next
  case admin
  then show ?thesis using admin_inv [OF inv] by simp
qed

text \<open>A property of the leases that survives the effect of a packet, the passing of time and the
  loss of leases holds after every turn.\<close>

lemma server_step_leases:
  assumes st: "server_step D cfg ips macs (now, db) (t, db')" and inv: "inv (Suc n) db"
    and P: "P now (leases db)"
    and mono: "\<And>s s' L M. P s L \<Longrightarrow> s \<le> s' \<Longrightarrow> M \<subseteq> L \<Longrightarrow> P s' M"
    and packet: "\<And>t1 t2 packet M'. P t1 (leases db) \<Longrightarrow> t1 \<le> t2 \<Longrightarrow>
      lease_effect D t1 t2 packet cfg db (leases db) M' \<Longrightarrow> P t2 M'"
  shows "P t (leases db')"
  using st
proof cases
  case (receive t1 iface_name data act)
  from P receive(1) have P1: "P t1 (leases db)" by (rule mono) simp
  from receive(3) show ?thesis
  proof (cases rule: listen_step_db)
    case ignored
    with P1 receive show ?thesis by (auto intro: mono)
  next
    case (handled packet resp)
    with packet [OF P1 receive(2)] handle_packet_effect(2) [OF inv] show ?thesis by blast
  qed
next
  case cleanup
  then show ?thesis
    using purge_keeps_active [OF inv, of t]
    by (cases "db_delete_expired_leases D t db") (auto simp: cleanup_step_def intro: mono [OF P])
next
  case admin
  then show ?thesis using admin_leases [OF inv] by (auto intro: mono [OF P])
qed

lemma server_run_leases:
  assumes run: "server_run D cfg ips macs (now, db) k st" and inv: "inv (k + n) db"
    and P: "P now (leases db)"
    and mono: "\<And>s s' L M. P s L \<Longrightarrow> s \<le> s' \<Longrightarrow> M \<subseteq> L \<Longrightarrow> P s' M"
    and packet: "\<And>d t1 t2 packet M M'. P t1 M \<Longrightarrow> t1 \<le> t2 \<Longrightarrow>
      lease_effect D t1 t2 packet cfg d M M' \<Longrightarrow> P t2 M'"
  shows "inv n (snd st) \<and> now \<le> fst st \<and> P (fst st) (leases (snd st))"
  using run inv
proof (induction arbitrary: n rule: server_run.induct)
  case run_refl
  then show ?case using P by simp
next
  case (run_step k st' st'')
  obtain t' db' t'' db'' where st: "st' = (t', db')" "st'' = (t'', db'')" by fastforce
  from run_step.IH [of "Suc n"] run_step.prems st
  have IH: "inv (Suc n) db'" "now \<le> t'" "P t' (leases db')" by simp_all
  from run_step.hyps(2) st have step: "server_step D cfg ips macs (t', db') (t'', db'')" by simp
  from server_step_inv [OF step IH(1)] IH(2)
    server_step_leases [OF step IH(1), of P, OF IH(3) mono packet] st
  show ?case by auto
qed

end

end
