(* ===== verification/Dhcp_Theorems.thy ===== *)
theory Dhcp_Theorems
  imports Dhcp_Runs
begin

text \<open>
  The properties of the DHCP server, each over every database that meets the contract it needs
  (\<open>dhcp_store\<close>, \<open>reliable_store\<close>, \<open>admin_store\<close>); the in-memory database meets all of
  them, and the examples evaluate the server on it.
\<close>

section \<open>Example\<close>

text \<open>A subnet 192.168.1.0/24 with a range of two addresses, and one client.\<close>

definition lab_subnet :: subnet where
  "lab_subnet = \<lparr> s_id = Some 1, s_network = 0xC0A80100, s_netmask = 24, s_gateway = 0xC0A80101,
     s_dns_servers = [0x08080808], s_domain_name = None \<rparr>"

definition lab_range :: dynamic_range where
  "lab_range = \<lparr> r_id = Some 1, r_subnet_id = 1, r_range_start = 0xC0A80164,
     r_range_end = 0xC0A80165, r_enabled = True \<rparr>"

definition lab_db :: memory_db where
  "lab_db = mem_new\<lparr> m_subnets := [lab_subnet], m_ranges := [lab_range],
     next_subnet_id := 2, next_range_id := 2 \<rparr>"

definition lab_static :: static_ip where
  "lab_static = \<lparr> st_subnet_id = 1, st_mac_address = ''02:00:00:00:00:01'',
     st_ip_address = 0xC0A80164, st_hostname = None \<rparr>"

definition lab_client :: "message_type \<Rightarrow> ipv4 \<Rightarrow> u8 \<Rightarrow> dhcp_packet" where
  "lab_client mt ip n = packet_new\<lparr> xid := 7, chaddr := MacAddress 2 0 0 0 0 n,
     options := [MessageType mt, RequestedIpAddress ip] \<rparr>"

definition lab_lease :: "ipv4 \<Rightarrow> u8 \<Rightarrow> lease" where
  "lab_lease ip n = granted_lease (lab_client Request ip n) (config_default Linux) 10 ip 1 1"

definition lab_leased :: "u8 \<Rightarrow> memory_db" where
  "lab_leased n = lab_db\<lparr> m_leases := [lab_lease 0xC0A80164 n], next_lease_id := 2 \<rparr>"

section \<open>Lemmas\<close>

lemma get_message_type_offer [simp]: "get_message_type (create_offer packet ip s cfg) = Some Offer"
  by (simp add: get_message_type_def create_offer_def)

lemma get_message_type_ack [simp]: "get_message_type (create_ack packet ip s cfg) = Some Ack"
  by (simp add: get_message_type_def create_ack_def)

lemma lab_inv: "mem_inv 5 lab_db" "mem_inv 5 (lab_leased n)"
  by (simp_all add: mem_inv_def lab_db_def lab_leased_def mem_new_def lab_subnet_def lab_range_def
      lab_lease_def table_ok_def i64_max_def)

lemma lab_leased_eq: "set (m_leases (lab_leased n)) = {lab_lease 0xC0A80164 n}"
  by (simp add: lab_leased_def)

text \<open>An answer of type ACK comes from \<open>handle_request\<close>.\<close>

context dhcp_store
begin

lemma ack_from_request:
  assumes h: "handle_packet D t1 t2 packet iface_ips cfg db = (Some r, db')"
    and ack: "get_message_type r = Some Ack"
  shows "handle_request D t1 t2 packet iface_ips cfg db = (Some r, db')"
proof -
  have "handle_discover D t1 t2 packet iface_ips cfg db \<noteq> Some r"
    using ack by (auto elim!: handle_discover_cases)
  with h show ?thesis
    by (auto simp: handle_packet_def split: option.splits message_type.splits)
qed

lemma offer_origin:
  assumes "handle_discover D t1 t2 packet iface_ips cfg db = Some r"
  shows "get_message_type r = Some Offer \<and>
    (\<exists>s\<in>subnets db. iface_in_subnet iface_ips s \<and> r = create_offer packet (yiaddr r) s cfg \<and>
      ((\<exists>st. static_serves subnets statics iface_ips db (mac_to_string (chaddr packet)) st s \<and>
          yiaddr r = st_ip_address st) \<or>
       (\<exists>l\<in>leases db. active t1 l \<and> to_lowercase (l_mac_address l) = mac_to_string (chaddr packet) \<and>
          s_id s = Some (l_subnet_id l) \<and> yiaddr r = l_ip_address l) \<or>
       (\<exists>rg. serves subnets ranges iface_ips db rg s (yiaddr r)) \<and> unleased t2 (leases db) (yiaddr r)))"
  using assms
proof (cases rule: handle_discover_cases)
  case (static st s)
  then have "s \<in> subnets db" "iface_in_subnet iface_ips s" by (simp_all add: static_serves_def)
  with static show ?thesis by (intro conjI bexI [of _ s]) auto
next
  case (held l s)
  then show ?thesis by (intro conjI bexI [of _ s] disjI2 [OF disjI1] bexI [of _ l]) simp_all
next
  case (dynamic rg s ip)
  then have "s \<in> subnets db" "iface_in_subnet iface_ips s" by (simp_all add: serves_def)
  with dynamic show ?thesis by (intro conjI bexI [of _ s]) auto
qed

lemma ack_backed:
  assumes inv: "inv (Suc n) db"
    and h: "handle_packet D t1 t2 packet iface_ips cfg db = (Some r, db')"
    and ack: "get_message_type r = Some Ack"
  shows "requested_ip_of packet = Some (yiaddr r) \<and> xid r = xid packet \<and> chaddr r = chaddr packet \<and>
    ((\<exists>st s. static_serves subnets statics iface_ips db (mac_to_string (chaddr packet)) st s \<and>
        r = create_ack packet (st_ip_address st) s cfg \<and> db' = db) \<or>
     (\<exists>rg s l. serves subnets ranges iface_ips db rg s (yiaddr r) \<and>
        r = create_ack packet (yiaddr r) s cfg \<and> l \<in> leases db' \<and>
        l_mac_address l = mac_to_string (chaddr packet) \<and> l_ip_address l = yiaddr r \<and>
        l_subnet_id l = r_subnet_id rg \<and> l_lease_start l = t2 \<and>
        l_lease_end l = i64_add t2 (uint (default_lease_time (cfg_dhcp cfg)))))"
  using inv ack_from_request [OF h ack]
proof (cases rule: handle_request_cases)
  case (dynamic ip rg s L)
  then obtain i where "r = create_ack packet ip s cfg"
    and "leases db' = insert (granted_lease packet cfg t2 ip (r_subnet_id rg) i) L" by auto
  with dynamic show ?thesis
    by (intro conjI disjI2 exI [of _ rg] exI [of _ s]
        exI [of _ "granted_lease packet cfg t2 ip (r_subnet_id rg) i"])
      (simp_all add: granted_lease_def)
qed auto

text \<open>A request for an address that another client holds is refused.\<close>

lemma handle_request_held:
  assumes no_static: "\<forall>st\<in>statics db. to_lowercase (st_mac_address st) \<noteq> mac_to_string (chaddr packet)"
    and ip: "requested_ip_of packet = Some (l_ip_address l)"
    and l: "l \<in> leases db" "active t1 l" "l_mac_address l \<noteq> mac_to_string (chaddr packet)"
    and ok: "owners_ok t1 (leases db)"
  shows "handle_request D t1 t2 packet iface_ips cfg db = (None, db)"
proof -
  have refuse: "grant_lease D t1 t2 packet (mac_to_string (chaddr packet)) (l_ip_address l) h rg s cfg db =
      (None, db)" for h rg s
  proof (cases "db_list_active_leases D t1 db")
    case (Inr ls)
    from list_active [OF Inr] l obtain m where
      m: "List.find (\<lambda>x. l_ip_address x = l_ip_address l) ls = Some m"
      by (cases "List.find (\<lambda>x. l_ip_address x = l_ip_address l) ls") (auto simp: find_None_iff)
    then have "m \<in> leases db \<and> active t1 m" and "l_ip_address m = l_ip_address l"
      using list_active [OF Inr] by (auto dest: find_Some_in)
    with l ok have "l_mac_address m = l_mac_address l" unfolding owners_ok_def by blast
    with m Inr l(3) show ?thesis by (simp add: grant_lease_def)
  qed (simp add: grant_lease_def)
  obtain resp db' where h: "handle_request D t1 t2 packet iface_ips cfg db = (resp, db')" by fastforce
  then show ?thesis
  proof (cases rule: handle_request_paths)
    case (2 st s)
    with no_static static_Some [OF 2(1)] show ?thesis by auto
  next
    case (3 ip' rs rg s)
    with ip refuse h show ?thesis by simp
  qed (use h in simp)
qed

end

context reliable_store
begin

text \<open>What the reads return for a client with one static assignment, and for one with none.\<close>

lemma static_lookup:
  assumes inv: "inv n db" and sv: "static_serves subnets statics iface_ips db mac st s"
    and one: "\<forall>st'\<in>statics db. to_lowercase (st_mac_address st') = to_lowercase mac \<longrightarrow> st' = st"
  shows "db_get_static_ip_by_mac D mac db = Inr (Some st)"
    and "db_get_subnet D (st_subnet_id st) db = Inr (Some s)"
proof -
  obtain r where r: "db_get_static_ip_by_mac D mac db = Inr r" using get_static_total by blast
  obtain q where q: "db_get_subnet D (st_subnet_id st) db = Inr q" using get_subnet_total by blast
  show "db_get_static_ip_by_mac D mac db = Inr (Some st)"
    using r static_Some [of mac db] static_None [of mac db st] sv one
    by (cases r) (auto simp: static_serves_def)
  show "db_get_subnet D (st_subnet_id st) db = Inr (Some s)"
  proof (cases q)
    case None
    with get_subnet_None [OF q [unfolded None], of s] sv show ?thesis by (simp add: static_serves_def)
  next
    case (Some s')
    with get_subnet_Some [OF q [unfolded Some]] sv inj_onD [OF subnet_id_inj [OF inv], of s s'] q show ?thesis
      by (simp add: static_serves_def)
  qed
qed

lemma no_static_lookup:
  assumes "\<forall>st\<in>statics db. to_lowercase (st_mac_address st) \<noteq> to_lowercase mac"
  shows "db_get_static_ip_by_mac D mac db = Inr None"
proof -
  obtain r where r: "db_get_static_ip_by_mac D mac db = Inr r" using get_static_total by blast
  with assms static_Some [of mac db] show ?thesis by (cases r) auto
qed

lemma no_lease_lookup:
  assumes "\<forall>l\<in>leases db. active t l \<longrightarrow> to_lowercase (l_mac_address l) \<noteq> to_lowercase mac"
  shows "db_get_active_lease D t mac db = Inr None"
proof -
  obtain r where r: "db_get_active_lease D t mac db = Inr r" using get_active_total by blast
  with assms active_Some [of t mac db] show ?thesis by (cases r) auto
qed

lemma discover_new_client:
  assumes "\<forall>st\<in>statics db. to_lowercase (st_mac_address st) \<noteq> mac_to_string (chaddr packet)"
    and "\<forall>l\<in>leases db. active t1 l \<longrightarrow> to_lowercase (l_mac_address l) \<noteq> mac_to_string (chaddr packet)"
  shows "handle_discover D t1 t2 packet iface_ips cfg db = discover_dynamic D t2 packet iface_ips cfg db"
  using no_static_lookup [of db "mac_to_string (chaddr packet)"] assms
    no_lease_lookup [of db t1 "mac_to_string (chaddr packet)"]
  by (simp add: handle_discover_def discover_static_def discover_lease_def)

lemma discover_dynamic_None_iff:
  "discover_dynamic D t2 packet iface_ips cfg db = None \<longleftrightarrow>
   (\<forall>rg s ip. serves subnets ranges iface_ips db rg s ip \<longrightarrow> \<not> unleased t2 (leases db) ip)"
proof (cases "discover_dynamic D t2 packet iface_ips cfg db")
  case None
  then show ?thesis using discover_dynamic_None by blast
next
  case (Some offer)
  then show ?thesis by (metis discover_dynamic_Some option.distinct(1))
qed

lemma offer_then_request:
  assumes inv: "inv (Suc n) db"
    and no_static: "\<forall>st\<in>statics db. to_lowercase (st_mac_address st) \<noteq> mac_to_string (chaddr packet)"
    and no_lease: "\<forall>l\<in>leases db. active t1 l \<longrightarrow>
      to_lowercase (l_mac_address l) \<noteq> mac_to_string (chaddr packet)"
    and offer: "handle_discover D t1 t2 packet iface_ips cfg db = Some offer"
    and req: "chaddr request = chaddr packet" "requested_ip_of request = Some (yiaddr offer)"
    and t: "t2 \<le> t3"
  shows "\<exists>s db'. handle_request D t3 t4 request iface_ips cfg db =
      (Some (create_ack request (yiaddr offer) s cfg), db') \<and>
    (\<exists>l\<in>leases db'. l_ip_address l = yiaddr offer \<and> l_mac_address l = mac_to_string (chaddr packet) \<and>
      l_lease_end l = i64_add t4 (uint (default_lease_time (cfg_dhcp cfg))))"
proof -
  from offer discover_new_client [OF no_static no_lease]
  have "discover_dynamic D t2 packet iface_ips cfg db = Some offer" by simp
  then obtain rg s where sv: "serves subnets ranges iface_ips db rg s (yiaddr offer)"
    and free: "unleased t2 (leases db) (yiaddr offer)"
    by (rule discover_dynamic_Some) auto
  from free t have "\<forall>l\<in>leases db. active t3 l \<longrightarrow> l_ip_address l = yiaddr offer \<longrightarrow>
      l_mac_address l = mac_to_string (chaddr request)"
    by (auto simp: unleased_def dest: active_mono)
  with inv no_static req sv obtain s' db' where
    h: "handle_request D t3 t4 request iface_ips cfg db =
      (Some (create_ack request (yiaddr offer) s' cfg), db')"
    by (metis handle_request_succeeds)
  from inv h have "\<exists>l\<in>leases db'. l_ip_address l = yiaddr offer \<and>
      l_mac_address l = mac_to_string (chaddr packet) \<and>
      l_lease_end l = i64_add t4 (uint (default_lease_time (cfg_dhcp cfg)))"
  proof (cases rule: handle_request_cases)
    case (static st s)
    with no_static req(1) show ?thesis by (auto simp: static_serves_def)
  next
    case (dynamic ip rg s L)
    with req show ?thesis by (auto simp: granted_lease_def)
  qed simp
  with h show ?thesis by blast
qed

lemma expire_never_fails: "\<not> expire_fails D db"
proof
  assume "expire_fails D db"
  then obtain i where "isl (fst (db_expire_lease D i db))" by (auto simp: expire_fails_def)
  with expire_total [of i db] show False by auto
qed

lemma release_removes:
  assumes inv: "inv n db"
    and one: "{m \<in> leases db. active t1 m \<and> to_lowercase (l_mac_address m) = mac_to_string (chaddr packet)} = {l}"
  shows "leases (handle_release D t1 packet db) = leases db - {l}"
proof -
  obtain r where r: "db_get_active_lease D t1 (mac_to_string (chaddr packet)) db = Inr r"
    using get_active_total by blast
  have l: "l \<in> leases db" "active t1 l" "to_lowercase (l_mac_address l) = mac_to_string (chaddr packet)"
    using one by auto
  with r active_None [of t1 "mac_to_string (chaddr packet)" db l] obtain l' where l': "r = Some l'" by (cases r) auto
  with active_Some [OF r [unfolded l']] one have "l' = l" by auto
  then have "handle_release D t1 packet db = expire_by_id D l db"
    using r l' by (simp add: handle_release_def)
  with expire_by_id_cases(2) [OF inv l(1)] expire_never_fails show ?thesis by auto
qed

end

section \<open>Properties\<close>

text \<open>
  C6. In every run of the server - packets received on any interface, purges of expired leases
  and administration in any order and number - an address never gets two holders: if all
  active leases of an address belong to one client at the start, they do at the end, over every
  database that keeps the contract, even one whose \<open>expire_lease\<close> may fail. The counter of
  identifiers must have room for the turns of the run.
\<close>

theorem server_run_owners:
  assumes "admin_store D subnets ranges statics leases valid"
    and "server_run D cfg ips macs (now, db) k (t, db')"
    and "valid k db" and "owners_ok now (leases db)"
  shows "valid 0 db' \<and> owners_ok t (leases db')"
proof -
  have "valid (k + 0) db" using assms(3) by simp
  from admin_store.server_run_leases [where P = owners_ok, OF assms(1,2) this assms(4)]
  have "valid 0 (snd (t, db')) \<and> now \<le> fst (t, db') \<and> owners_ok (fst (t, db')) (leases (snd (t, db')))"
    by (blast intro: owners_ok_later lease_effect_owners)
  then show ?thesis by simp
qed

theorem server_run_owners_witness:
  "server_run memory_database (config_default Linux) (\<lambda>_. [0xC0A80101]) (\<lambda>_. None) (0, lab_db) 1
     (10, lab_leased 1) \<and> lab_leased 1 \<noteq> lab_db \<and> owners_ok 10 (set (m_leases (lab_leased 1)))"
proof -
  have "listen_step memory_database (config_default Linux) (\<lambda>_. [0xC0A80101]) (\<lambda>_. None) 10 10 ''eth0''
      (packet_to_bytes (lab_client Request 0xC0A80164 1)) lab_db =
    (fst (listen_step memory_database (config_default Linux) (\<lambda>_. [0xC0A80101]) (\<lambda>_. None) 10 10 ''eth0''
      (packet_to_bytes (lab_client Request 0xC0A80164 1)) lab_db), lab_leased 1)"
    by code_simp
  then have "server_step memory_database (config_default Linux) (\<lambda>_. [0xC0A80101]) (\<lambda>_. None)
      (0, lab_db) (10, lab_leased 1)"
    by (intro receive) simp_all
  with run_refl have run: "server_run memory_database (config_default Linux) (\<lambda>_. [0xC0A80101]) (\<lambda>_. None)
      (0, lab_db) (Suc 0) (10, lab_leased 1)"
    by (rule run_step)
  have "mem_inv (Suc 0) lab_db" using lab_inv(1) by (rule mem_inv_mono) simp
  from server_run_owners [OF mem_admin.admin_store_axioms run this] run show ?thesis
    by (simp add: owners_ok_def lab_db_def mem_new_def lab_leased_def)
qed

text \<open>
  On the in-memory database, a server started empty never has two active leases for one
  address, after any run whose length leaves the identifier counters in range.
\<close>

theorem single_active_lease:
  assumes "server_run memory_database cfg ips macs (now, mem_new) k (t, db')" and "int k < i64_max"
  shows "one_lease_per_ip t (set (m_leases db')) \<and> mem_inv 0 db'"
proof -
  have ok: "mem_inv (k + 0) mem_new" using assms(2) by (simp add: mem_inv_new)
  have reliable: "\<not> expire_fails memory_database d" for d
    by (simp add: expire_fails_def mem_expire_lease_def)
  have "one_lease_per_ip now (set (m_leases mem_new))" by (simp add: one_lease_per_ip_def mem_new_def)
  from mem_admin.server_run_leases [where P = one_lease_per_ip, OF assms(1) ok this]
  have "mem_inv 0 (snd (t, db')) \<and> now \<le> fst (t, db') \<and>
      one_lease_per_ip (fst (t, db')) (set (m_leases (snd (t, db'))))"
    using reliable by (blast intro: one_lease_later lease_effect_one_lease)
  then show ?thesis by simp
qed

theorem single_active_lease_witness:
  "server_run memory_database (config_default Linux) (\<lambda>_. []) (\<lambda>_. None) (0, mem_new) 1
     (5, admin_apply memory_database (CreateSubnet lab_subnet) mem_new) \<and> int 1 < i64_max \<and>
   one_lease_per_ip 5 (set (m_leases (admin_apply memory_database (CreateSubnet lab_subnet) mem_new)))"
proof -
  have run: "server_run memory_database (config_default Linux) (\<lambda>_. []) (\<lambda>_. None) (0, mem_new) (Suc 0)
     (5, admin_apply memory_database (CreateSubnet lab_subnet) mem_new)"
    by (rule run_step [OF run_refl admin]) simp
  from single_active_lease [OF run] run show ?thesis by (simp add: i64_max_def)
qed

text \<open>
  C10. An acknowledgement is backed by the database. When the server answers a packet with an
  ACK, the address is the one the client asked for; either it is the client's static
  assignment in a subnet of the interface, or it lies in an enabled range of such a subnet and
  the database now holds a lease of exactly this address for this client that ends one lease
  time after the clock reading.
\<close>

theorem ack_is_backed:
  assumes "dhcp_store D subnets ranges statics leases valid" and "valid (Suc n) db"
    and "handle_packet D t1 t2 packet iface_ips cfg db = (Some r, db')"
    and "get_message_type r = Some Ack"
  shows "requested_ip_of packet = Some (yiaddr r) \<and> xid r = xid packet \<and> chaddr r = chaddr packet \<and>
    ((\<exists>st s. static_serves subnets statics iface_ips db (mac_to_string (chaddr packet)) st s \<and>
        r = create_ack packet (st_ip_address st) s cfg \<and> db' = db) \<or>
     (\<exists>rg s l. serves subnets ranges iface_ips db rg s (yiaddr r) \<and>
        r = create_ack packet (yiaddr r) s cfg \<and> l \<in> leases db' \<and>
        l_mac_address l = mac_to_string (chaddr packet) \<and> l_ip_address l = yiaddr r \<and>
        l_subnet_id l = r_subnet_id rg \<and> l_lease_start l = t2 \<and>
        l_lease_end l = i64_add t2 (uint (default_lease_time (cfg_dhcp cfg)))))"
  by (rule dhcp_store.ack_backed [OF assms])

theorem ack_is_backed_witness:
  "\<exists>r. handle_packet memory_database 10 10 (lab_client Request 0xC0A80164 1) [0xC0A80101]
     (config_default Linux) lab_db = (Some r, lab_leased 1) \<and> yiaddr r = 0xC0A80164"
proof -
  let ?r = "create_ack (lab_client Request 0xC0A80164 1) 0xC0A80164 lab_subnet (config_default Linux)"
  have h: "handle_packet memory_database 10 10 (lab_client Request 0xC0A80164 1) [0xC0A80101]
      (config_default Linux) lab_db = (Some ?r, lab_leased 1)"
    by code_simp
  have "mem_inv (Suc 0) lab_db" using lab_inv(1) by (rule mem_inv_mono) simp
  from ack_is_backed [OF mem.dhcp_store_axioms this h] h show ?thesis
    by (auto simp: requested_ip_of_def lab_client_def)
qed



text \<open>
  C13. Handling a packet leaves the configuration and the leases of every other client as they
  are, whatever the packet is and whatever fails in the database.
\<close>

theorem packet_isolation:
  assumes "dhcp_store D subnets ranges statics leases valid" and "valid (Suc n) db"
    and "handle_packet D t1 t2 packet iface_ips cfg db = (resp, db')"
  shows "subnets db' = subnets db \<and> ranges db' = ranges db \<and> statics db' = statics db \<and>
    {l \<in> leases db'. to_lowercase (l_mac_address l) \<noteq> mac_to_string (chaddr packet)} =
    {l \<in> leases db. to_lowercase (l_mac_address l) \<noteq> mac_to_string (chaddr packet)}"
  using dhcp_store.handle_packet_frame [OF assms(1,3)]
    lease_effect_others [OF dhcp_store.handle_packet_effect(2) [OF assms]] by simp

theorem packet_isolation_witness:
  "\<exists>resp db'. handle_packet memory_database 20 20 (lab_client Request 0xC0A80165 1) [0xC0A80101]
     (config_default Linux) (lab_leased 2) = (resp, db') \<and> db' \<noteq> lab_leased 2 \<and>
     lab_lease 0xC0A80164 2 \<in> set (m_leases db')"
proof -
  let ?h = "handle_packet memory_database 20 20 (lab_client Request 0xC0A80165 1) [0xC0A80101]
    (config_default Linux) (lab_leased 2)"
  have h: "?h = (fst ?h, snd ?h)" by simp
  have "snd ?h \<noteq> lab_leased 2" by code_simp
  moreover have "mem_inv (Suc 0) (lab_leased 2)" using lab_inv(2) by (rule mem_inv_mono) simp
  from packet_isolation [OF mem.dhcp_store_axioms this h]
  have "{l \<in> set (m_leases (snd ?h)). to_lowercase (l_mac_address l) \<noteq>
      mac_to_string (chaddr (lab_client Request 0xC0A80165 1))} =
    {l \<in> set (m_leases (lab_leased 2)). to_lowercase (l_mac_address l) \<noteq>
      mac_to_string (chaddr (lab_client Request 0xC0A80165 1))}" by blast
  moreover have "lab_lease 0xC0A80164 2 \<in> {l \<in> set (m_leases (lab_leased 2)).
      to_lowercase (l_mac_address l) \<noteq> mac_to_string (chaddr (lab_client Request 0xC0A80165 1))}"
    by (simp add: lab_leased_eq lab_lease_def lab_client_def mac_to_string_inj)
  ultimately show ?thesis using h by blast
qed



text \<open>
  C14. Offers are sound: an answer to a DISCOVER is an OFFER, leaves the database alone and
  carries the client's static address, the address of an active lease of the client, or an
  address that no active lease holds and that an enabled range hands out - each in an existing
  subnet of the interface.
\<close>

theorem offer_sound:
  assumes "dhcp_store D subnets ranges statics leases valid"
    and "get_message_type packet = Some Discover"
    and "handle_packet D t1 t2 packet iface_ips cfg db = (Some r, db')"
  shows "db' = db \<and> get_message_type r = Some Offer \<and>
    (\<exists>s\<in>subnets db. iface_in_subnet iface_ips s \<and> r = create_offer packet (yiaddr r) s cfg \<and>
      ((\<exists>st. static_serves subnets statics iface_ips db (mac_to_string (chaddr packet)) st s \<and>
          yiaddr r = st_ip_address st) \<or>
       (\<exists>l\<in>leases db. active t1 l \<and> to_lowercase (l_mac_address l) = mac_to_string (chaddr packet) \<and>
          s_id s = Some (l_subnet_id l) \<and> yiaddr r = l_ip_address l) \<or>
       (\<exists>rg. serves subnets ranges iface_ips db rg s (yiaddr r)) \<and> unleased t2 (leases db) (yiaddr r)))"
proof -
  have "handle_discover D t1 t2 packet iface_ips cfg db = Some r" and "db' = db"
    using assms(2,3) by (auto simp: handle_packet_def)
  with dhcp_store.offer_origin [OF assms(1)] show ?thesis by blast
qed

theorem offer_sound_witness:
  "\<exists>r. handle_packet memory_database 20 20 (lab_client Discover 0 1) [0xC0A80101]
     (config_default Linux) (lab_leased 2) = (Some r, lab_leased 2) \<and>
     unleased 20 (set (m_leases (lab_leased 2))) (yiaddr r) \<and> yiaddr r = 0xC0A80165"
proof -
  let ?r = "create_offer (lab_client Discover 0 1) 0xC0A80165 lab_subnet (config_default Linux)"
  have h: "handle_packet memory_database 20 20 (lab_client Discover 0 1) [0xC0A80101]
      (config_default Linux) (lab_leased 2) = (Some ?r, lab_leased 2)"
    by code_simp
  have "get_message_type (lab_client Discover 0 1) = Some Discover"
    by (simp add: get_message_type_def lab_client_def)
  from offer_sound [OF mem.dhcp_store_axioms this h]
  have "unleased 20 (set (m_leases (lab_leased 2))) (yiaddr ?r)"
    by (auto simp: static_serves_def lab_leased_def lab_db_def mem_new_def lab_lease_def lab_client_def
        mac_to_string_inj)
  with h show ?thesis by auto
qed

text \<open>
  C15. Offers are complete: on a database that answers, a client without static assignment and
  without active lease gets no offer exactly when every address that an enabled range of a
  subnet of the interface hands out is actively leased.
\<close>

theorem no_offer_iff_exhausted:
  assumes "reliable_store D subnets ranges statics leases valid"
    and "\<forall>st\<in>statics db. to_lowercase (st_mac_address st) \<noteq> mac_to_string (chaddr packet)"
    and "\<forall>l\<in>leases db. active t1 l \<longrightarrow> to_lowercase (l_mac_address l) \<noteq> mac_to_string (chaddr packet)"
  shows "handle_discover D t1 t2 packet iface_ips cfg db = None \<longleftrightarrow>
    (\<forall>rg s ip. serves subnets ranges iface_ips db rg s ip \<longrightarrow> \<not> unleased t2 (leases db) ip)"
  unfolding reliable_store.discover_new_client [OF assms]
  by (rule reliable_store.discover_dynamic_None_iff [OF assms(1)])

theorem no_offer_iff_exhausted_witness:
  "handle_discover memory_database 20 20 (lab_client Discover 0 1) [0xC0A80101]
     (config_default Linux) (lab_leased 2) \<noteq> None \<and>
   (\<exists>rg s ip. serves (\<lambda>db. set (m_subnets db)) (\<lambda>db. set (m_ranges db)) [0xC0A80101] (lab_leased 2) rg s ip \<and>
     unleased 20 (set (m_leases (lab_leased 2))) ip)"
proof -
  have "handle_discover memory_database 20 20 (lab_client Discover 0 1) [0xC0A80101]
      (config_default Linux) (lab_leased 2) \<noteq> None"
    by code_simp
  with no_offer_iff_exhausted [OF mem.reliable_store_axioms, of "lab_leased 2" "lab_client Discover 0 1"
      20 20 "[0xC0A80101]" "config_default Linux"]
  show ?thesis
    by (auto simp: lab_leased_def lab_db_def mem_new_def lab_lease_def lab_client_def mac_to_string_inj)
qed



text \<open>
  C17. RELEASE ends the client's lease: when the client has exactly one active lease, a RELEASE
  from it removes that lease and nothing else, and its address can be offered again.
\<close>

theorem release_frees_address:
  assumes "reliable_store D subnets ranges statics leases valid" and "valid (Suc n) db"
    and "get_message_type packet = Some Release"
    and "{m \<in> leases db. active t1 m \<and> to_lowercase (l_mac_address m) = mac_to_string (chaddr packet)} = {l}"
    and "one_lease_per_ip t1 (leases db)"
    and "handle_packet D t1 t2 packet iface_ips cfg db = (resp, db')"
  shows "resp = None \<and> leases db' = leases db - {l} \<and> unleased t1 (leases db') (l_ip_address l)"
proof -
  have "resp = None" and "db' = handle_release D t1 packet db"
    using assms(3,6) by (auto simp: handle_packet_def)
  with reliable_store.release_removes [OF assms(1,2,4)]
  have r: "resp = None" "leases db' = leases db - {l}" by simp_all
  from assms(4) have "l \<in> leases db" "active t1 l" by auto
  with assms(5) have "unleased t1 (leases db - {l}) (l_ip_address l)"
    unfolding one_lease_per_ip_def unleased_def by blast
  with r show ?thesis by simp
qed

theorem release_frees_address_witness:
  "\<exists>db'. handle_packet memory_database 20 20 (lab_client Release 0 2) [0xC0A80101]
     (config_default Linux) (lab_leased 2) = (None, db') \<and> set (m_leases db') = {}"
proof -
  let ?h = "handle_packet memory_database 20 20 (lab_client Release 0 2) [0xC0A80101]
    (config_default Linux) (lab_leased 2)"
  have inv: "mem_inv (Suc 0) (lab_leased 2)" using lab_inv(2) by (rule mem_inv_mono) simp
  have a: "active 20 (lab_lease 0xC0A80164 2)" by code_simp
  have m: "get_message_type (lab_client Release 0 2) = Some Release"
    by (simp add: get_message_type_def lab_client_def)
  have "{m \<in> set (m_leases (lab_leased 2)). active 20 m \<and> to_lowercase (l_mac_address m) =
      mac_to_string (chaddr (lab_client Release 0 2))} = {lab_lease 0xC0A80164 2}"
    using a by (auto simp: lab_leased_eq) (simp_all add: lab_lease_def lab_client_def)
  moreover have "one_lease_per_ip 20 (set (m_leases (lab_leased 2)))"
    by (simp add: lab_leased_eq one_lease_per_ip_def)
  moreover have "?h = (fst ?h, snd ?h)" by simp
  ultimately have "fst ?h = None \<and> set (m_leases (snd ?h)) =
      set (m_leases (lab_leased 2)) - {lab_lease 0xC0A80164 2}"
    using release_frees_address [OF mem.reliable_store_axioms inv m, of 20 "lab_lease 0xC0A80164 2"]
    by blast
  then show ?thesis by (intro exI [of _ "snd ?h"]) (simp add: lab_leased_eq prod_eq_iff)
qed

text \<open>
  The purge of expired leases is safe: it keeps every lease that is active at or after the
  purge and the whole configuration, adds nothing, and keeps the invariant of the database,
  also when it fails.
\<close>

theorem cleanup_keeps_active:
  assumes "dhcp_store D subnets ranges statics leases valid" and "valid n db" and "now \<le> t"
  shows "valid n (cleanup_step D now db) \<and> leases (cleanup_step D now db) \<subseteq> leases db \<and>
    {l \<in> leases (cleanup_step D now db). active t l} = {l \<in> leases db. active t l} \<and>
    subnets (cleanup_step D now db) = subnets db \<and> ranges (cleanup_step D now db) = ranges db \<and>
    statics (cleanup_step D now db) = statics db"
proof (cases "db_delete_expired_leases D now db")
  case (Pair res db')
  from dhcp_store.axioms(2) [OF assms(1)] have "lease_store D leases valid" .
  from lease_store.purge_keeps_active [OF this assms(2) Pair assms(3)]
    dhcp_store.purge_frame [OF assms(1) Pair] Pair show ?thesis
    by (simp add: cleanup_step_def)
qed

theorem cleanup_keeps_active_witness:
  "lab_lease 0xC0A80164 2 \<in> set (m_leases (cleanup_step memory_database 50 (lab_leased 2)))"
proof -
  have "active 50 (lab_lease 0xC0A80164 2)" by code_simp
  then have "lab_lease 0xC0A80164 2 \<in> {l \<in> set (m_leases (lab_leased 2)). active 50 l}"
    by (simp add: lab_leased_eq)
  with cleanup_keeps_active [OF mem.dhcp_store_axioms lab_inv(2) order_refl, of 50 2] show ?thesis
    by blast
qed

text \<open>
  C22. The timers of an ACK are the documented fractions of the lease time, in order, as long as
  seven times the lease time fits 32 bits: T1 is a half, T2 seven eighths, and T1 and T2 do not
  exceed each other and the lease time.
\<close>

theorem ack_timers:
  assumes "default_lease_time (cfg_dhcp cfg) \<le> 613566756"
  shows "\<exists>t1 t2. {LeaseTime (default_lease_time (cfg_dhcp cfg)), RenewalTime t1, RebindingTime t2}
      \<subseteq> set (options (create_ack request ip s cfg)) \<and>
    unat t1 = unat (default_lease_time (cfg_dhcp cfg)) div 2 \<and>
    unat t2 = unat (default_lease_time (cfg_dhcp cfg)) * 7 div 8 \<and>
    t1 \<le> t2 \<and> t2 \<le> default_lease_time (cfg_dhcp cfg)"
proof -
  let ?L = "default_lease_time (cfg_dhcp cfg)"
  have "unat ?L \<le> 613566756" using assms by (simp add: word_le_nat_alt)
  then have m: "unat (?L * 7) = unat ?L * 7"
    by (simp add: unat_word_ariths)
  have t1: "unat (?L div 2) = unat ?L div 2" and t2: "unat (?L * 7 div 8) = unat ?L * 7 div 8"
    by (simp_all add: unat_div m)
  then have "?L div 2 \<le> ?L * 7 div 8" and "?L * 7 div 8 \<le> ?L"
    by (simp_all add: word_le_nat_alt)
  with t1 t2 show ?thesis
    by (intro exI [of _ "?L div 2"] exI [of _ "?L * 7 div 8"]) (simp add: create_ack_def)
qed

theorem ack_timers_witness:
  "default_lease_time (cfg_dhcp (config_default Linux)) \<le> 613566756 \<and>
   (\<exists>t2. RebindingTime t2 \<in> set (options (create_ack packet_new 1 lab_subnet (config_default Linux))) \<and>
     unat t2 = unat (default_lease_time (cfg_dhcp (config_default Linux))) * 7 div 8)"
proof -
  have "default_lease_time (cfg_dhcp (config_default Linux)) \<le> 613566756"
    by (simp add: config_default_def)
  with ack_timers [OF this, of packet_new 1 lab_subnet] show ?thesis by auto
qed

text \<open>
  Beyond that bound the product wraps and the order is lost: for the infinite lease time
  0xFFFFFFFF the server sends a rebinding time that is below the renewal time.
\<close>

theorem ack_timers_overflow:
  "\<exists>t1 t2. {RenewalTime t1, RebindingTime t2} \<subseteq> set (options (create_ack request ip s
      ((config_default Linux)\<lparr> cfg_dhcp := \<lparr> default_lease_time = 0xFFFFFFFF,
         max_lease_time = 0xFFFFFFFF, lease_cleanup_interval_minutes = 60 \<rparr> \<rparr>))) \<and> t2 < t1"
  by (intro exI [of _ "0x7FFFFFFF"] exI [of _ "0x1FFFFFFF"]) (simp add: create_ack_def)

text \<open>
  C18. Replies survive the wire: for a subnet with at most 63 DNS servers and a domain name of
  at most 255 bytes, the bytes of an OFFER and of an ACK parse back to the same message, the
  end marker made explicit.
\<close>

theorem replies_on_the_wire:
  assumes "length (s_dns_servers s) \<le> 63"
    and "\<forall>domain. s_domain_name s = Some domain \<longrightarrow> length domain \<le> 255 \<and> utf8_valid (bytes_of domain)"
  shows "packet_parse (packet_to_bytes (create_offer request ip s cfg)) =
      Inr ((create_offer request ip s cfg)\<lparr> options := options (create_offer request ip s cfg) @ [End] \<rparr>) \<and>
    packet_parse (packet_to_bytes (create_ack request ip s cfg)) =
      Inr ((create_ack request ip s cfg)\<lparr> options := options (create_ack request ip s cfg) @ [End] \<rparr>)"
proof -
  have "packet_fits (create_offer request ip s cfg)" and "packet_fits (create_ack request ip s cfg)"
    using assms by (auto simp: packet_fits_def create_offer_def create_ack_def split: option.splits)
  moreover have "filter (\<lambda>x. x \<noteq> End) (options (create_offer request ip s cfg)) = options (create_offer request ip s cfg)"
    and "filter (\<lambda>x. x \<noteq> End) (options (create_ack request ip s cfg)) = options (create_ack request ip s cfg)"
    by (simp_all add: create_offer_def create_ack_def split: option.splits)
  ultimately show ?thesis
    using packet_parse_to_bytes_gen [of "create_offer request ip s cfg" "[]"]
      packet_parse_to_bytes_gen [of "create_ack request ip s cfg" "[]"] by simp
qed

theorem replies_on_the_wire_witness:
  "length (s_dns_servers lab_subnet) \<le> 63 \<and>
   (\<exists>p. packet_parse (packet_to_bytes (create_ack packet_new 0xC0A80164 lab_subnet (config_default Linux))) = Inr p \<and>
      yiaddr p = 0xC0A80164)"
proof -
  have "length (s_dns_servers lab_subnet) \<le> 63"
    and "\<forall>domain. s_domain_name lab_subnet = Some domain \<longrightarrow> length domain \<le> 255 \<and> utf8_valid (bytes_of domain)"
    by (simp_all add: lab_subnet_def)
  with replies_on_the_wire [OF this, of packet_new "0xC0A80164" "config_default Linux"] show ?thesis
    by simp
qed



text \<open>
  The allocation does not look at static assignments: an address reserved for one client
  that lies in a dynamic range is offered to another client, and leased to it.
\<close>

theorem reserved_address_given_away:
  "let db = lab_db\<lparr> m_static_ips := [lab_static] \<rparr>;
       offer = handle_discover memory_database 10 10 (lab_client Discover 0 2) [0xC0A80101]
         (config_default Linux) db;
       (ack, db') = handle_request memory_database 11 11 (lab_client Request 0xC0A80164 2) [0xC0A80101]
         (config_default Linux) db
   in st_mac_address lab_static \<noteq> mac_to_string (chaddr (lab_client Discover 0 2)) \<and>
      map_option yiaddr offer = Some (st_ip_address lab_static) \<and>
      map_option yiaddr ack = Some (st_ip_address lab_static) \<and>
      map l_mac_address (m_leases db') = [mac_to_string (chaddr (lab_client Discover 0 2))]"
  by code_simp

text \<open>
  A client whose static assignment is in a subnet that the interface does not reach is
  offered a dynamic address and then refused when it requests it.
\<close>

theorem roaming_static_client_stuck:
  "let db = lab_db\<lparr> m_subnets := [lab_subnet, lab_subnet\<lparr> s_id := Some 2, s_network := 0x0A000000 \<rparr>],
         m_static_ips := [lab_static\<lparr> st_subnet_id := 2, st_ip_address := 0x0A000005 \<rparr>] \<rparr>;
       offer = handle_discover memory_database 10 10 (lab_client Discover 0 1) [0xC0A80101]
         (config_default Linux) db
   in map_option yiaddr offer = Some 0xC0A80164 \<and>
      handle_request memory_database 11 11 (lab_client Request 0xC0A80164 1) [0xC0A80101]
        (config_default Linux) db = (None, db)"
  by code_simp

end
