(* ===== verification/Await_Logic.thy ===== *)
theory Await_Logic
  imports Main
begin

text \<open>
  Asynchronous code as programs over awaits. A program is a result, or an action on the shared
  database and the program that goes on with what the action returned; other tasks run between
  two actions. The logic is rely-guarantee: \<open>safe\<close> says that whatever the other tasks do within
  their rely, the invariant holds at every moment and the postcondition at the end, and the
  rules derive it from assertions that are stable under the rely. Assertions have a budget, the
  number of steps that the other tasks may still take.
\<close>

section \<open>Programs\<close>

datatype ('db, 'r) prog = Return 'r | Await "'db \<Rightarrow> ('db, 'r) prog \<times> 'db"

text \<open>The call of a method: one that reads and one that may write.\<close>

definition ask :: "('db \<Rightarrow> 'a) \<Rightarrow> ('a \<Rightarrow> ('db, 'r) prog) \<Rightarrow> ('db, 'r) prog" where
  "ask f g = Await (\<lambda>db. (g (f db), db))"

definition act :: "('db \<Rightarrow> 'a \<times> 'db) \<Rightarrow> ('a \<Rightarrow> ('db, 'r) prog) \<Rightarrow> ('db, 'r) prog" where
  "act f g = Await (\<lambda>db. map_prod g id (f db))"

text \<open>One \<open>async fn\<close> that awaits another and goes on with its result.\<close>

primrec bind_prog :: "('db, 'a) prog \<Rightarrow> ('a \<Rightarrow> ('db, 'r) prog) \<Rightarrow> ('db, 'r) prog" where
  "bind_prog (Return x) f = f x"
| "bind_prog (Await k) f = Await (\<lambda>db. map_prod (\<lambda>p. bind_prog p f) id (k db))"

lemma bind_prog_simps [simp]:
  "bind_prog (ask h g) f = ask h (\<lambda>x. bind_prog (g x) f)"
  "bind_prog (act h' g') f = act h' (\<lambda>x. bind_prog (g' x) f)"
  by (simp_all add: ask_def act_def prod.map_comp comp_def id_def)

text \<open>With no other task in between.\<close>

primrec run_alone :: "('db, 'r) prog \<Rightarrow> 'db \<Rightarrow> 'r \<times> 'db" where
  "run_alone (Return r) = Pair r"
| "run_alone (Await k) = (\<lambda>db. case map_prod run_alone id (k db) of (run, db') \<Rightarrow> run db')"

lemma run_alone_simps [simp]:
  "run_alone (ask f g) db = run_alone (g (f db)) db"
  "run_alone (act f' g') db = run_alone (g' (fst (f' db))) (snd (f' db))"
  by (simp_all add: ask_def act_def map_prod_def split: prod.split)

lemma run_alone_bind [simp]:
  "run_alone (bind_prog p f) db = (case run_alone p db of (x, d) \<Rightarrow> run_alone (f x) d)"
proof (induction p arbitrary: db)
  case (Await k)
  obtain q d where k: "k db = (q, d)" by fastforce
  then have "q \<in> Basic_BNFs.fsts (k db)" by simp
  from Await.IH [OF rangeI this] k show ?case by simp
qed simp

section \<open>Whatever the others do\<close>

text \<open>
  \<open>play p ds\<close>: the program finds the database \<open>d\<close> at its first await, and so on; the list is
  arbitrary, since other tasks may have changed everything in between. The result comes with the
  database before and after each of its actions; \<open>None\<close> means that the program still waits.
\<close>

primrec play :: "('db, 'r) prog \<Rightarrow> 'db list \<Rightarrow> ('r \<times> ('db \<times> 'db) list) option" where
  "play (Return r) = (\<lambda>ds. Some (r, []))"
| "play (Await k) = (\<lambda>ds.
     case ds of
       [] \<Rightarrow> None
     | d # ds' \<Rightarrow> (case map_prod play id (k d) of (go, d') \<Rightarrow> map_option (map_prod id ((#) (d, d'))) (go ds')))"

lemma play_simps [simp]:
  "play (ask f g) ds = (case ds of [] \<Rightarrow> None | d # ds' \<Rightarrow> map_option (map_prod id ((#) (d, d))) (play (g (f d)) ds'))"
  "play (act f' g') ds = (case ds of [] \<Rightarrow> None
     | d # ds' \<Rightarrow> map_option (map_prod id ((#) (d, snd (f' d)))) (play (g' (fst (f' d))) ds'))"
  by (simp_all add: ask_def act_def map_prod_def split: list.split prod.split)

text \<open>What a composed program did is what its parts did, one after the other.\<close>

lemma play_bind:
  "play (bind_prog p f) ds = Some (r, ws) \<longleftrightarrow>
     (\<exists>x us vs. play p ds = Some (x, us) \<and> play (f x) (drop (length us) ds) = Some (r, vs) \<and> ws = us @ vs)"
proof (induction p arbitrary: ds ws)
  case (Await k)
  show ?case
  proof (cases ds)
    case (Cons d ds')
    obtain q e where k: "k d = (q, e)" by fastforce
    then have "q \<in> Basic_BNFs.fsts (k d)" by simp
    note IH = Await.IH [OF rangeI this, of ds']
    have "play (bind_prog (Await k) f) ds = Some (r, ws) \<longleftrightarrow>
        (\<exists>ws'. play (bind_prog q f) ds' = Some (r, ws') \<and> ws = (d, e) # ws')"
      by (auto simp: Cons k)
    also have "\<dots> \<longleftrightarrow> (\<exists>x us vs. play (Await k) ds = Some (x, us) \<and>
        play (f x) (drop (length us) ds) = Some (r, vs) \<and> ws = us @ vs)"
      unfolding IH by (auto simp: Cons k map_prod_def split: prod.splits)
    finally show ?thesis .
  qed simp
qed simp

lemma play_found: "play p ds = Some (r, ws) \<Longrightarrow> map fst ws = take (length ws) ds"
proof (induction p arbitrary: ds ws)
  case (Await k)
  then obtain d es where ds: "ds = d # es" by (cases ds) auto
  have "fst (k d) \<in> Basic_BNFs.fsts (k d)" by (cases "k d") simp
  from Await.IH [OF rangeI this, of es] Await.prems ds show ?case by (auto simp: case_prod_unfold)
qed simp

text \<open>No program can be kept waiting for ever by what the others do.\<close>

lemma play_ends: "\<exists>n. play p (map ds [0..<n]) \<noteq> None"
proof (induction p arbitrary: ds)
  case (Await k)
  obtain q d where k: "k (ds 0) = (q, d)" by fastforce
  have "\<exists>n. play q (map (ds \<circ> Suc) [0..<n]) \<noteq> None"
    by (rule Await.IH [OF rangeI [of k "ds 0"]]) (simp add: k)
  then obtain n where "play q (map (ds \<circ> Suc) [0..<n]) \<noteq> None" by blast
  moreover have "map ds [0..<Suc n] = ds 0 # map (ds \<circ> Suc) [0..<n]"
    by (simp add: upt_conv_Cons map_Suc_upt [symmetric] del: upt_Suc)
  ultimately have "play (Await k) (map ds [0..<Suc n]) \<noteq> None" by (simp add: k del: upt_Suc)
  then show ?case by blast
qed simp

section \<open>Safety\<close>

coinductive safe ::
  "('db \<Rightarrow> 'db \<Rightarrow> bool) \<Rightarrow> (nat \<Rightarrow> 'db \<Rightarrow> bool) \<Rightarrow> ('r \<Rightarrow> nat \<Rightarrow> 'db \<Rightarrow> bool) \<Rightarrow> nat \<Rightarrow> ('db, 'r) prog \<Rightarrow> 'db \<Rightarrow> bool"
  for R I Q where
  safe: "I n db \<Longrightarrow> (\<And>r. p = Return r \<Longrightarrow> Q r n db) \<Longrightarrow>
    (\<And>k. p = Await k \<Longrightarrow> safe R I Q n (fst (k db)) (snd (k db))) \<Longrightarrow>
    (\<And>m db'. n = Suc m \<Longrightarrow> R db db' \<Longrightarrow> safe R I Q m p db') \<Longrightarrow> safe R I Q n p db"

lemma safe_holds: "safe R I Q n p db \<Longrightarrow> I n db"
  by (erule safe.cases) simp

lemma safe_return: "safe R I Q n (Return r) db \<Longrightarrow> Q r n db"
  by (erule safe.cases) simp

lemma safe_await: "safe R I Q n (Await k) db \<Longrightarrow> safe R I Q n (fst (k db)) (snd (k db))"
  by (erule safe.cases) simp

lemma safe_other: "safe R I Q (Suc n) p db \<Longrightarrow> R db db' \<Longrightarrow> safe R I Q n p db'"
  by (erule safe.cases) simp

text \<open>A smaller budget is safe as well.\<close>

lemma safe_Suc:
  assumes "safe R I Q (Suc n) p db"
    and "\<And>n db. I (Suc n) db \<Longrightarrow> I n db" and "\<And>r n db. Q r (Suc n) db \<Longrightarrow> Q r n db"
  shows "safe R I Q n p db"
  using assms(1)
proof (coinduction arbitrary: n p db)
  case safe
  then show ?case
    using assms(2,3) by (auto dest: safe_holds safe_return safe_await safe_other)
qed

definition stable_under :: "('db \<Rightarrow> 'db \<Rightarrow> bool) \<Rightarrow> (nat \<Rightarrow> 'db \<Rightarrow> bool) \<Rightarrow> bool" where
  "stable_under R P \<longleftrightarrow> (\<forall>n db db'. P (Suc n) db \<longrightarrow> R db db' \<longrightarrow> P n db')"

definition ensures ::
  "('db \<Rightarrow> 'db \<Rightarrow> bool) \<Rightarrow> (nat \<Rightarrow> 'db \<Rightarrow> bool) \<Rightarrow> (nat \<Rightarrow> 'db \<Rightarrow> bool) \<Rightarrow> ('db, 'r) prog \<Rightarrow>
   ('r \<Rightarrow> nat \<Rightarrow> 'db \<Rightarrow> bool) \<Rightarrow> bool" where
  "ensures R I P p Q \<longleftrightarrow> (\<forall>n db. P n db \<longrightarrow> safe R I Q n p db)"

lemma ensuresI: "(\<And>n db. P n db \<Longrightarrow> safe R I Q n p db) \<Longrightarrow> ensures R I P p Q"
  by (simp add: ensures_def)

lemma ensuresD: "ensures R I P p Q \<Longrightarrow> P n db \<Longrightarrow> safe R I Q n p db"
  by (simp add: ensures_def)

lemma ensures_weaken: "ensures R I P p Q \<Longrightarrow> (\<And>n db. P' n db \<Longrightarrow> P n db) \<Longrightarrow> ensures R I P' p Q"
  unfolding ensures_def by blast

lemma ensures_Return:
  assumes st: "stable_under R P" and I: "\<And>n db. P n db \<Longrightarrow> I n db" and Q: "\<And>n db. P n db \<Longrightarrow> Q r n db"
  shows "ensures R I P (Return r) Q"
proof (rule ensuresI)
  fix n db assume "P n db"
  then show "safe R I Q n (Return r) db"
    by (coinduction arbitrary: n db) (use st I Q in \<open>auto simp: stable_under_def\<close>)
qed

lemma ensures_Await:
  assumes st: "stable_under R P" and I: "\<And>n db. P n db \<Longrightarrow> I n db"
    and k: "\<And>n db. P n db \<Longrightarrow> safe R I Q n (fst (k db)) (snd (k db))"
  shows "ensures R I P (Await k) Q"
proof (rule ensuresI)
  fix n db assume "P n db"
  then show "safe R I Q n (Await k) db"
    by (coinduction arbitrary: n db) (use st I k in \<open>auto simp: stable_under_def\<close>)
qed

lemma ensures_ask:
  assumes "stable_under R P" and "\<And>n db. P n db \<Longrightarrow> I n db"
    and "\<And>n db. P n db \<Longrightarrow> P' (f db) n db" and "\<And>x. ensures R I (P' x) (g x) Q"
  shows "ensures R I P (ask f g) Q"
  unfolding ask_def by (rule ensures_Await) (simp_all add: assms ensuresD [OF assms(4)])

lemma ensures_act:
  assumes "stable_under R P" and "\<And>n db. P n db \<Longrightarrow> I n db"
    and "\<And>n db. P n db \<Longrightarrow> P' (fst (f db)) n (snd (f db))" and "\<And>x. ensures R I (P' x) (g x) Q"
  shows "ensures R I P (act f g) Q"
  unfolding act_def by (rule ensures_Await) (simp_all add: assms ensuresD [OF assms(4)])

text \<open>Reading alone keeps a stable assertion.\<close>

lemma ensures_read:
  "stable_under R P \<Longrightarrow> (\<And>n db. P n db \<Longrightarrow> I n db) \<Longrightarrow> (\<And>x. ensures R I P (g x) Q) \<Longrightarrow> ensures R I P (ask f g) Q"
  by (rule ensures_ask [where P' = "\<lambda>_. P"])

lemma ensures_foldr:
  "ensures R I P p Q \<Longrightarrow> (\<And>s rest. ensures R I P rest Q \<Longrightarrow> ensures R I P (h s rest) Q) \<Longrightarrow>
   ensures R I P (foldr h ss p) Q"
  by (induction ss) auto

end
