(* ===== verification/Dhcp_Concurrent.thy ===== *)
theory Dhcp_Concurrent
  imports Dhcp_Theorems Await_Logic
begin

text \<open>
  The handlers of the DHCP server with their awaits. Only one task handles packets, but between
  two calls of the database the REST interface and the purge may run on the same database. A
  handler is a program whose atomic actions are the calls it awaits; run alone it is the function
  of \<open>Dhcp_Server\<close>, and interleaved with the other tasks it still never gives an address two
  holders. The proof follows the rely-guarantee method: assertions that the other tasks keep are
  carried from one await to the next.
\<close>

section \<open>The handlers\<close>

definition discover_dynamic_prog ::
  "'db database \<Rightarrow> i64 \<Rightarrow> dhcp_packet \<Rightarrow> ipv4 list \<Rightarrow> config \<Rightarrow> ('db, dhcp_packet option) prog" where
  "discover_dynamic_prog D t2 packet iface_ips cfg =
     ask (db_list_subnets D) (\<lambda>subnets.
       case subnets of
         Inl _ \<Rightarrow> Return None
       | Inr subnets \<Rightarrow>
           ask (db_list_active_leases D t2) (\<lambda>leases.
             case leases of
               Inl _ \<Rightarrow> Return None
             | Inr ls \<Rightarrow>
                 foldr (\<lambda>s rest.
                   case s_id s of
                     None \<Rightarrow> rest
                   | Some sid \<Rightarrow>
                       ask (db_list_ranges D (Some sid)) (\<lambda>ranges.
                         case ranges of
                           Inl _ \<Rightarrow> rest
                         | Inr rs \<Rightarrow>
                             (case find_map (\<lambda>r. first_free (map l_ip_address ls) (r_range_start r) (r_range_end r))
                                     (filter r_enabled rs) of
                                Some ip \<Rightarrow> Return (Some (create_offer packet ip s cfg))
                              | None \<Rightarrow> rest)))
                   (filter (iface_in_subnet iface_ips) subnets) (Return None)))"

definition discover_prog ::
  "'db database \<Rightarrow> i64 \<Rightarrow> i64 \<Rightarrow> dhcp_packet \<Rightarrow> ipv4 list \<Rightarrow> config \<Rightarrow> ('db, dhcp_packet option) prog" where
  "discover_prog D t1 t2 packet iface_ips cfg =
     (let mac = mac_to_string (chaddr packet);
          dynamic = discover_dynamic_prog D t2 packet iface_ips cfg;
          offer_in = (\<lambda>ip sid otherwise. ask (db_get_subnet D sid) (\<lambda>s.
            case s of
              Inr (Some s) \<Rightarrow>
                if iface_in_subnet iface_ips s then Return (Some (create_offer packet ip s cfg)) else otherwise
            | _ \<Rightarrow> Return None));
          lease = ask (db_get_active_lease D t1 mac) (\<lambda>l.
            case l of
              Inr (Some l) \<Rightarrow> offer_in (l_ip_address l) (l_subnet_id l) dynamic
            | _ \<Rightarrow> dynamic)
      in ask (db_get_static_ip_by_mac D mac) (\<lambda>st.
           case st of
             Inr (Some st) \<Rightarrow> offer_in (st_ip_address st) (st_subnet_id st) lease
           | _ \<Rightarrow> lease))"

text \<open>The loop over the ranges awaits the subnet of every range that covers the address.\<close>

primrec matching_range_prog ::
  "'db database \<Rightarrow> ipv4 list \<Rightarrow> ipv4 \<Rightarrow> ((dynamic_range \<times> subnet) option \<Rightarrow> ('db, 'r) prog) \<Rightarrow>
   dynamic_range list \<Rightarrow> ('db, 'r) prog" where
  "matching_range_prog D iface_ips ip g [] = g None"
| "matching_range_prog D iface_ips ip g (r # rs) =
     (if \<not> r_enabled r then matching_range_prog D iface_ips ip g rs
      else if r_range_start r \<le> ip \<and> ip \<le> r_range_end r then
        ask (db_get_subnet D (r_subnet_id r)) (\<lambda>s.
          case s of
            Inr (Some s) \<Rightarrow>
              if iface_in_subnet iface_ips s then g (Some (r, s)) else matching_range_prog D iface_ips ip g rs
          | _ \<Rightarrow> matching_range_prog D iface_ips ip g rs)
      else matching_range_prog D iface_ips ip g rs)"

definition expire_prog :: "'db database \<Rightarrow> lease \<Rightarrow> ('db, 'r) prog \<Rightarrow> ('db, 'r) prog" where
  "expire_prog D l rest =
     (case l_id l of None \<Rightarrow> rest | Some i \<Rightarrow> act (db_expire_lease D i) (\<lambda>_. rest))"

definition create_prog ::
  "'db database \<Rightarrow> i64 \<Rightarrow> dhcp_packet \<Rightarrow> string \<Rightarrow> ipv4 \<Rightarrow> string option \<Rightarrow> dynamic_range \<Rightarrow> subnet \<Rightarrow>
   config \<Rightarrow> ('db, dhcp_packet option) prog" where
  "create_prog D t2 packet mac requested_ip hostname rg s cfg =
     act (db_create_lease D \<lparr> l_id = None, l_subnet_id = r_subnet_id rg, l_mac_address = mac,
         l_ip_address = requested_ip, l_lease_start = t2,
         l_lease_end = i64_add t2 (uint (default_lease_time (cfg_dhcp cfg))), l_hostname = hostname \<rparr>)
       (\<lambda>r. case r of Inl _ \<Rightarrow> Return None | Inr _ \<Rightarrow> Return (Some (create_ack packet requested_ip s cfg)))"

definition grant_prog ::
  "'db database \<Rightarrow> i64 \<Rightarrow> i64 \<Rightarrow> dhcp_packet \<Rightarrow> string \<Rightarrow> ipv4 \<Rightarrow> string option \<Rightarrow> dynamic_range \<Rightarrow> subnet \<Rightarrow>
   config \<Rightarrow> ('db, dhcp_packet option) prog" where
  "grant_prog D t1 t2 packet mac requested_ip hostname rg s cfg =
     (let create = create_prog D t2 packet mac requested_ip hostname rg s cfg in
      ask (db_list_active_leases D t1) (\<lambda>leases.
        case leases of
          Inl _ \<Rightarrow> Return None
        | Inr active_leases \<Rightarrow>
            (case List.find (\<lambda>l. l_ip_address l = requested_ip) active_leases of
               Some l \<Rightarrow> if l_mac_address l \<noteq> mac then Return None else expire_prog D l create
             | None \<Rightarrow> create)))"

definition request_prog ::
  "'db database \<Rightarrow> i64 \<Rightarrow> i64 \<Rightarrow> dhcp_packet \<Rightarrow> ipv4 list \<Rightarrow> config \<Rightarrow> ('db, dhcp_packet option) prog" where
  "request_prog D t1 t2 packet iface_ips cfg =
     (let mac = to_lowercase (mac_to_string (chaddr packet)) in
      case requested_ip_of packet of
        None \<Rightarrow> Return None
      | Some requested_ip \<Rightarrow>
          (let dynamic = ask (db_list_ranges D None) (\<lambda>ranges.
             case ranges of
               Inl _ \<Rightarrow> Return None
             | Inr rs \<Rightarrow>
                 matching_range_prog D iface_ips requested_ip (\<lambda>m.
                   case m of
                     None \<Rightarrow> Return None
                   | Some (rg, s) \<Rightarrow> grant_prog D t1 t2 packet mac requested_ip (hostname_of packet) rg s cfg) rs)
           in ask (db_get_static_ip_by_mac D mac) (\<lambda>st.
             case st of
               Inr (Some st) \<Rightarrow>
                 if st_ip_address st = requested_ip then
                   ask (db_get_subnet D (st_subnet_id st)) (\<lambda>s.
                     case s of
                       Inr (Some s) \<Rightarrow>
                         if \<not> iface_in_subnet iface_ips s then Return None
                         else Return (Some (create_ack packet requested_ip s cfg))
                     | _ \<Rightarrow> Return None)
                 else Return None
             | _ \<Rightarrow> dynamic)))"

definition release_prog :: "'db database \<Rightarrow> i64 \<Rightarrow> dhcp_packet \<Rightarrow> ('db, dhcp_packet option) prog" where
  "release_prog D t1 packet =
     ask (db_get_active_lease D t1 (mac_to_string (chaddr packet))) (\<lambda>l.
       case l of Inr (Some l) \<Rightarrow> expire_prog D l (Return None) | _ \<Rightarrow> Return None)"

definition packet_prog ::
  "'db database \<Rightarrow> i64 \<Rightarrow> i64 \<Rightarrow> dhcp_packet \<Rightarrow> ipv4 list \<Rightarrow> config \<Rightarrow> ('db, dhcp_packet option) prog" where
  "packet_prog D t1 t2 packet iface_ips cfg =
     (case get_message_type packet of
        Some Discover \<Rightarrow> discover_prog D t1 t2 packet iface_ips cfg
      | Some Request \<Rightarrow> request_prog D t1 t2 packet iface_ips cfg
      | Some Release \<Rightarrow> release_prog D t1 packet
      | _ \<Rightarrow> Return None)"

section \<open>Run alone\<close>

lemma run_alone_foldr:
  assumes "\<And>s rest. run_alone (h s rest) db = (case f s of Some r \<Rightarrow> (Some r, db) | None \<Rightarrow> run_alone rest db)"
  shows "run_alone (foldr h ss (Return None)) db = (find_map f ss, db)"
  by (induction ss) (auto simp: assms split: option.split)

lemma run_alone_discover_dynamic:
  "run_alone (discover_dynamic_prog D t2 packet iface_ips cfg) db = (discover_dynamic D t2 packet iface_ips cfg db, db)"
proof (cases "db_list_subnets D db")
  case (Inr ss)
  show ?thesis
  proof (cases "db_list_active_leases D t2 db")
    case (Inr ls)
    with \<open>db_list_subnets D db = Inr ss\<close> show ?thesis
      by (simp add: discover_dynamic_prog_def discover_dynamic_def Let_def)
        (rule run_alone_foldr, auto simp: subnet_free_ip_def split: option.split sum.split)
  qed (use Inr in \<open>simp add: discover_dynamic_prog_def discover_dynamic_def\<close>)
qed (simp add: discover_dynamic_prog_def discover_dynamic_def)

lemma run_alone_discover:
  "run_alone (discover_prog D t1 t2 packet iface_ips cfg) db = (handle_discover D t1 t2 packet iface_ips cfg db, db)"
  by (auto simp: discover_prog_def handle_discover_def discover_static_def discover_lease_def Let_def
      run_alone_discover_dynamic split: sum.split option.split)

lemma run_alone_matching_range:
  "run_alone (matching_range_prog D iface_ips ip g rs) db = run_alone (g (matching_range D iface_ips ip db rs)) db"
  by (induction rs) (auto simp: matching_range_def split: sum.split option.split)

lemma run_alone_expire: "run_alone (expire_prog D l rest) db = run_alone rest (expire_by_id D l db)"
  by (simp add: expire_prog_def expire_by_id_def split: option.split)

lemma run_alone_grant:
  "run_alone (grant_prog D t1 t2 packet mac ip h rg s cfg) db = grant_lease D t1 t2 packet mac ip h rg s cfg db"
  by (auto simp: grant_prog_def create_prog_def grant_lease_def Let_def run_alone_expire split: sum.split option.split prod.split)

lemma run_alone_request:
  "run_alone (request_prog D t1 t2 packet iface_ips cfg) db = handle_request D t1 t2 packet iface_ips cfg db"
  by (auto simp: request_prog_def handle_request_def Let_def run_alone_matching_range run_alone_grant
      split: sum.split option.split)

lemma run_alone_release: "run_alone (release_prog D t1 packet) db = (None, handle_release D t1 packet db)"
  by (auto simp: release_prog_def handle_release_def run_alone_expire split: sum.split option.split)


section \<open>Interleaved with the other tasks\<close>

text \<open>One step of another task: a request of the interface or a purge, at any time.\<close>

inductive other_task :: "'db database \<Rightarrow> 'db \<Rightarrow> 'db \<Rightarrow> bool" for D where
  other_admin: "other_task D db (admin_apply D x db)"
| other_purge: "other_task D db (cleanup_step D t db)"

text \<open>\<open>interleaved D n (p, db) (r, db')\<close>: the program ends with \<open>r\<close> after its own actions and \<open>n\<close> steps
  of other tasks, which come before any of its awaits.\<close>

inductive interleaved :: "'db database \<Rightarrow> nat \<Rightarrow> ('db, 'r) prog \<times> 'db \<Rightarrow> 'r \<times> 'db \<Rightarrow> bool" for D where
  il_return: "interleaved D 0 (Return r, db) (r, db)"
| il_own: "interleaved D n (fst (k db), snd (k db)) z \<Longrightarrow> interleaved D n (Await k, db) z"
| il_other: "other_task D db db' \<Longrightarrow> interleaved D n (p, db') z \<Longrightarrow> interleaved D (Suc n) (p, db) z"

lemma safe_interleaved:
  "interleaved D n (p, db) z \<Longrightarrow> safe (other_task D) I Q (n + m) p db \<Longrightarrow> Q (fst z) m (snd z)"
  by (induction n "(p, db)" z arbitrary: p db rule: interleaved.induct)
    (auto dest: safe_return safe_await safe_other)

lemma ensures_matching_range:
  assumes "stable_under R P" and "\<And>n db. P n db \<Longrightarrow> I n db" and "\<And>x. ensures R I P (g x) Q"
  shows "ensures R I P (matching_range_prog D' iface_ips ip g rs) Q"
proof (induction rs)
  case (Cons r rs)
  have "ensures R I P (ask (db_get_subnet D' (r_subnet_id r)) (\<lambda>s.
          case s of
            Inr (Some s) \<Rightarrow>
              if iface_in_subnet iface_ips s then g (Some (r, s)) else matching_range_prog D' iface_ips ip g rs
          | _ \<Rightarrow> matching_range_prog D' iface_ips ip g rs)) Q"
    using assms Cons by (intro ensures_read) (auto split: sum.split option.split)
  with Cons show ?case by simp
qed (simp add: assms(3))

lemma ensures_discover:
  assumes st: "stable_under R P" and I: "\<And>n db. P n db \<Longrightarrow> I n db" and Q: "\<And>r n db. P n db \<Longrightarrow> Q r n db"
  shows "ensures R I P (discover_prog D' t1 t2 packet iface_ips cfg) Q"
proof -
  note rules = ensures_Return [of R P I Q, OF st I Q] ensures_read [of R P I _ Q, OF st I]
  have "ensures R I P (discover_dynamic_prog D' t2 packet iface_ips cfg) Q"
    unfolding discover_dynamic_prog_def
    by (intro rules; auto intro!: rules ensures_foldr split: sum.split option.split)
  then show ?thesis
    unfolding discover_prog_def Let_def
    by (intro rules; auto intro!: rules split: sum.split option.split)
qed

text \<open>All holders of the address are the client.\<close>

definition held_by :: "i64 \<Rightarrow> string \<Rightarrow> ipv4 \<Rightarrow> lease set \<Rightarrow> bool" where
  "held_by t mac ip L \<longleftrightarrow>
     owners_ok t L \<and> (\<forall>l\<in>L. active t l \<longrightarrow> l_ip_address l = ip \<longrightarrow> l_mac_address l = mac)"

lemma held_by_subset: "held_by t mac ip L \<Longrightarrow> M \<subseteq> L \<Longrightarrow> held_by t mac ip M"
  by (auto simp: held_by_def intro: owners_ok_subset)

lemmas owners_okD = owners_ok_def [THEN iffD1, THEN bspec, THEN bspec, rule_format]

text \<open>What the list of active leases tells about the holders of the address.\<close>

definition learned :: "i64 \<Rightarrow> string \<Rightarrow> ipv4 \<Rightarrow> db_error + lease list \<Rightarrow> lease set \<Rightarrow> bool" where
  "learned t mac ip x L \<longleftrightarrow> owners_ok t L \<and>
     (case x of
        Inl _ \<Rightarrow> True
      | Inr ls \<Rightarrow>
          (case List.find (\<lambda>l. l_ip_address l = ip) ls of None \<Rightarrow> True | Some l \<Rightarrow> l_mac_address l = mac) \<longrightarrow>
          held_by t mac ip L)"

lemma learned_subset: "learned t mac ip x L \<Longrightarrow> M \<subseteq> L \<Longrightarrow> learned t mac ip x M"
  unfolding learned_def using held_by_subset owners_ok_subset
  by (auto split: sum.splits)

text \<open>
  An assertion on the leases, with room for \<open>m\<close> insertions beyond the budget; and that a
  program keeps the owners at \<open>t\<close>, at every moment and at the end.
\<close>

definition holding ::
  "(nat \<Rightarrow> 'db \<Rightarrow> bool) \<Rightarrow> ('db \<Rightarrow> lease set) \<Rightarrow> nat \<Rightarrow> (lease set \<Rightarrow> bool) \<Rightarrow> nat \<Rightarrow> 'db \<Rightarrow> bool" where
  "holding valid ls m X n db \<longleftrightarrow> valid (n + m) db \<and> X (ls db)"

definition keeps_owners ::
  "'db database \<Rightarrow> (nat \<Rightarrow> 'db \<Rightarrow> bool) \<Rightarrow> ('db \<Rightarrow> lease set) \<Rightarrow> i64 \<Rightarrow> (nat \<Rightarrow> 'db \<Rightarrow> bool) \<Rightarrow> ('db, 'r) prog \<Rightarrow> bool" where
  "keeps_owners D valid ls t P p \<longleftrightarrow>
     ensures (other_task D) (holding valid ls 0 (owners_ok t)) P p (\<lambda>_. holding valid ls 0 (owners_ok t))"

lemma keeps_owners_weaken:
  "keeps_owners D valid ls t P p \<Longrightarrow> (\<And>n db. P' n db \<Longrightarrow> P n db) \<Longrightarrow> keeps_owners D valid ls t P' p"
  unfolding keeps_owners_def by (rule ensures_weaken)

context admin_store
begin

lemma other_task_leases:
  assumes "inv (Suc n) db" and "other_task D db db'"
  shows "inv n db' \<and> leases db' \<subseteq> leases db"
  using assms(2)
proof cases
  case (other_admin x)
  then show ?thesis using admin_inv [OF assms(1)] admin_leases [OF assms(1)] by simp
next
  case (other_purge t)
  then show ?thesis
    using purge_keeps_active [OF assms(1), of t] inv_mono [of n db']
    by (cases "db_delete_expired_leases D t db") (auto simp: cleanup_step_def)
qed

text \<open>What the leases keep when some are lost is stable.\<close>

lemma stable_holding:
  assumes "\<And>L M. X L \<Longrightarrow> M \<subseteq> L \<Longrightarrow> X M"
  shows "stable_under (other_task D) (holding inv leases m X)"
  unfolding stable_under_def holding_def
proof (intro allI impI)
  fix n db db' assume "inv (Suc n + m) db \<and> X (leases db)" and "other_task D db db'"
  then show "inv (n + m) db' \<and> X (leases db')"
    using other_task_leases [of "n + m" db db'] assms by auto
qed

lemma stable_owners: "stable_under (other_task D) (holding inv leases m (owners_ok t))"
  by (rule stable_holding) (rule owners_ok_subset)

lemma stable_held: "stable_under (other_task D) (holding inv leases m (held_by t mac ip))"
  by (rule stable_holding) (rule held_by_subset)

lemma holding_owners:
  "holding inv leases (Suc m) (owners_ok t1) n db \<Longrightarrow> t1 \<le> t2 \<Longrightarrow> holding inv leases m (owners_ok t2) n db"
  using inv_mono [of "n + m" db] by (auto simp: holding_def intro: owners_ok_mono)

lemma holding_held:
  "holding inv leases m (held_by t1 mac ip) n db \<Longrightarrow> holding inv leases m (owners_ok t1) n db"
  by (simp add: holding_def held_by_def)

lemma expire_lease_leases:
  "inv n db \<Longrightarrow> inv n (snd (db_expire_lease D i db)) \<and> leases (snd (db_expire_lease D i db)) \<subseteq> leases db"
  using expire_cases [of n db i] by (cases "db_expire_lease D i db") auto

lemma keeps_expire:
  assumes sub: "\<And>L M. X L \<Longrightarrow> M \<subseteq> L \<Longrightarrow> X M" and own: "\<And>L. X L \<Longrightarrow> owners_ok t1 L" and t: "t1 \<le> t2"
    and p: "keeps_owners D inv leases t2 (holding inv leases (Suc 0) X) p"
  shows "keeps_owners D inv leases t2 (holding inv leases (Suc 0) X) (expire_prog D l p)"
proof (cases "l_id l")
  case (Some i)
  have "ensures (other_task D) (holding inv leases 0 (owners_ok t2)) (holding inv leases (Suc 0) X)
      (act (db_expire_lease D i) (\<lambda>_. p)) (\<lambda>_. holding inv leases 0 (owners_ok t2))"
  proof (rule ensures_act [where P' = "\<lambda>_. holding inv leases (Suc 0) X"])
    show "stable_under (other_task D) (holding inv leases (Suc 0) X)" using sub by (rule stable_holding)
    show "holding inv leases 0 (owners_ok t2) n db" if "holding inv leases (Suc 0) X n db" for n db
      using that holding_owners [of 0 t1 n db t2, OF _ t] own by (simp add: holding_def)
    show "holding inv leases (Suc 0) X n (snd (db_expire_lease D i db))" if "holding inv leases (Suc 0) X n db" for n db
      using that expire_lease_leases [of "n + 1" db i] sub by (auto simp: holding_def)
  qed (use p in \<open>simp add: keeps_owners_def\<close>)
  with Some show ?thesis by (simp add: expire_prog_def keeps_owners_def)
qed (simp add: expire_prog_def p)

lemma keeps_Return:
  assumes "t1 \<le> t2"
  shows "keeps_owners D inv leases t2 (holding inv leases (Suc 0) (owners_ok t1)) (Return x)"
  unfolding keeps_owners_def
  by (rule ensures_Return [OF stable_owners]) (use holding_owners [of 0] assms in simp_all)

text \<open>The insertion is the one action that uses the room.\<close>

lemma create_lease_owners:
  assumes t: "t1 \<le> t2" and h: "holding inv leases (Suc 0) (held_by t1 mac ip) n db"
    and new: "l_mac_address new = mac" "l_ip_address new = ip"
  shows "holding inv leases 0 (owners_ok t2) n (snd (db_create_lease D new db))"
proof -
  from h have inv: "inv (Suc n) db" and own: "owners_ok t2 (leases db)"
    and mine: "\<And>l. l \<in> leases db \<Longrightarrow> active t2 l \<Longrightarrow> l_ip_address l = ip \<Longrightarrow> l_mac_address l = mac"
    using t by (auto simp: holding_def held_by_def intro: owners_ok_mono dest: active_mono)
  obtain r d where c: "db_create_lease D new db = (r, d)" by fastforce
  show ?thesis
  proof (cases r)
    case (Inl e)
    with create_lease_err [OF inv c [unfolded Inl]] own c show ?thesis by (simp add: holding_def)
  next
    case (Inr i)
    have "owners_ok t2 (insert (new\<lparr> l_id := Some i \<rparr>) (leases db))"
      using own mine new by (intro owners_ok_insert) auto
    with create_lease_ok [OF inv c [unfolded Inr]] c show ?thesis by (simp add: holding_def)
  qed
qed

lemma keeps_create:
  assumes t: "t1 \<le> t2"
  shows "keeps_owners D inv leases t2 (holding inv leases (Suc 0) (held_by t1 mac ip))
    (create_prog D t2 packet mac ip h rg s cfg)"
  unfolding create_prog_def keeps_owners_def
proof (rule ensures_act [where P' = "\<lambda>_. holding inv leases 0 (owners_ok t2)"])
  show "stable_under (other_task D) (holding inv leases (Suc 0) (held_by t1 mac ip))" by (rule stable_held)
  show "holding inv leases 0 (owners_ok t2) n db" if "holding inv leases (Suc 0) (held_by t1 mac ip) n db" for n db
    using holding_owners [OF holding_held t, of 0 mac ip n db] that by simp
next
  fix r :: "db_error + i64"
  show "ensures (other_task D) (holding inv leases 0 (owners_ok t2)) (holding inv leases 0 (owners_ok t2))
      (case r of Inl _ \<Rightarrow> Return None | Inr _ \<Rightarrow> Return (Some (create_ack packet ip s cfg)))
      (\<lambda>_. holding inv leases 0 (owners_ok t2))"
    by (cases r) (simp_all add: ensures_Return [OF stable_owners])
qed (rule create_lease_owners [OF t], simp_all)

lemma list_active_learned:
  assumes own: "owners_ok t (leases db)"
  shows "learned t mac ip (db_list_active_leases D t db) (leases db)"
proof (cases "db_list_active_leases D t db")
  case (Inr ls)
  let ?holder = "List.find (\<lambda>l. l_ip_address l = ip) ls"
  have "l_mac_address l = mac" if l: "l \<in> leases db" "active t l" "l_ip_address l = ip"
    and holder: "case ?holder of None \<Rightarrow> True | Some l \<Rightarrow> l_mac_address l = mac" for l
  proof (cases ?holder)
    case None
    with l list_active [OF Inr] show ?thesis by (auto simp: find_None_iff)
  next
    case (Some k)
    with list_active [OF Inr] have "k \<in> leases db" "active t k" "l_ip_address k = ip"
      by (auto dest!: find_Some_in)
    with l have "l_mac_address l = l_mac_address k" by (intro owners_okD [OF own]) simp_all
    with Some holder show ?thesis by simp
  qed
  then show ?thesis unfolding learned_def held_by_def Inr sum.case using own by blast
qed (use own in \<open>simp add: learned_def\<close>)

lemma keeps_learned:
  assumes t: "t1 \<le> t2"
  shows "keeps_owners D inv leases t2 (holding inv leases (Suc 0) (learned t1 mac ip x))
    (case x of
       Inl _ \<Rightarrow> Return None
     | Inr active_leases \<Rightarrow>
         (case List.find (\<lambda>l. l_ip_address l = ip) active_leases of
            Some l \<Rightarrow> if l_mac_address l \<noteq> mac then Return None
              else expire_prog D l (create_prog D t2 packet mac ip h rg s cfg)
          | None \<Rightarrow> create_prog D t2 packet mac ip h rg s cfg))"
proof -
  let ?create = "create_prog D t2 packet mac ip h rg s cfg"
  have silent: "keeps_owners D inv leases t2 (holding inv leases (Suc 0) (learned t1 mac ip x)) (Return (None :: dhcp_packet option))"
    by (rule keeps_owners_weaken [OF keeps_Return [OF t]]) (simp add: holding_def learned_def)
  have expire: "keeps_owners D inv leases t2 (holding inv leases (Suc 0) (held_by t1 mac ip)) (expire_prog D l ?create)" for l
    by (rule keeps_expire [OF held_by_subset _ t keeps_create [OF t]]) (simp_all add: held_by_def)
  have take: "keeps_owners D inv leases t2 (holding inv leases (Suc 0) (learned t1 mac ip x)) p"
    if "x = Inr ls" "case List.find (\<lambda>l. l_ip_address l = ip) ls of None \<Rightarrow> True | Some l \<Rightarrow> l_mac_address l = mac"
      "keeps_owners D inv leases t2 (holding inv leases (Suc 0) (held_by t1 mac ip)) p" for ls p
    using that(3) by (rule keeps_owners_weaken) (use that(1,2) in \<open>simp add: holding_def learned_def\<close>)
  show ?thesis
  proof (cases x)
    case (Inr ls)
    show ?thesis
    proof (cases "List.find (\<lambda>l. l_ip_address l = ip) ls")
      case None
      then show ?thesis using take [OF Inr _ keeps_create [OF t]] Inr by simp
    next
      case (Some l)
      then show ?thesis using silent take [OF Inr _ expire [of l]] Inr by simp
    qed
  qed (use silent in simp)
qed

lemma keeps_grant:
  assumes t: "t1 \<le> t2"
  shows "keeps_owners D inv leases t2 (holding inv leases (Suc 0) (owners_ok t1))
    (grant_prog D t1 t2 packet mac ip h rg s cfg)"
  unfolding grant_prog_def Let_def keeps_owners_def
proof (rule ensures_ask [where P' = "\<lambda>x. holding inv leases (Suc 0) (learned t1 mac ip x)"])
  show "stable_under (other_task D) (holding inv leases (Suc 0) (owners_ok t1))" by (rule stable_owners)
  show "holding inv leases 0 (owners_ok t2) n db" if "holding inv leases (Suc 0) (owners_ok t1) n db" for n db
    using holding_owners [of 0 t1 n db t2] that t by simp
  show "holding inv leases (Suc 0) (learned t1 mac ip (db_list_active_leases D t1 db)) n db"
    if "holding inv leases (Suc 0) (owners_ok t1) n db" for n db
    using that list_active_learned by (simp add: holding_def)
qed (rule keeps_learned [OF t, unfolded keeps_owners_def])

lemma keeps_request:
  assumes t: "t1 \<le> t2"
  shows "keeps_owners D inv leases t2 (holding inv leases (Suc 0) (owners_ok t1))
    (request_prog D t1 t2 packet iface_ips cfg)"
proof -
  have I: "holding inv leases 0 (owners_ok t2) n db" if "holding inv leases (Suc 0) (owners_ok t1) n db" for n db
    using holding_owners [of 0 t1 n db t2] that t by simp
  note rules = keeps_Return [OF t, unfolded keeps_owners_def] keeps_grant [OF t, unfolded keeps_owners_def]
    ensures_read [OF stable_owners I] ensures_matching_range [OF stable_owners I]
  show ?thesis
    unfolding request_prog_def Let_def keeps_owners_def
    by (auto intro!: rules split: option.split sum.split)
qed

lemma keeps_release:
  assumes t: "t1 \<le> t2"
  shows "keeps_owners D inv leases t2 (holding inv leases (Suc 0) (owners_ok t1)) (release_prog D t1 packet)"
proof -
  have I: "holding inv leases 0 (owners_ok t2) n db" if "holding inv leases (Suc 0) (owners_ok t1) n db" for n db
    using holding_owners [of 0 t1 n db t2] that t by simp
  note rules = keeps_Return [OF t, unfolded keeps_owners_def] ensures_read [OF stable_owners I]
    keeps_expire [OF owners_ok_subset _ t keeps_Return [OF t], unfolded keeps_owners_def]
  show ?thesis
    unfolding release_prog_def keeps_owners_def
    by (auto intro!: rules split: option.split sum.split)
qed

lemma keeps_packet:
  assumes t: "t1 \<le> t2"
  shows "keeps_owners D inv leases t2 (holding inv leases (Suc 0) (owners_ok t1))
    (packet_prog D t1 t2 packet iface_ips cfg)"
proof -
  have I: "holding inv leases 0 (owners_ok t2) n db" if "holding inv leases (Suc 0) (owners_ok t1) n db" for n db
    using holding_owners [of 0 t1 n db t2] that t by simp
  have "keeps_owners D inv leases t2 (holding inv leases (Suc 0) (owners_ok t1)) (discover_prog D t1 t2 packet iface_ips cfg)"
    unfolding keeps_owners_def by (rule ensures_discover [OF stable_owners I I])
  then show ?thesis
    using keeps_request [OF t, of packet iface_ips cfg] keeps_release [OF t, of packet]
      keeps_Return [OF t, of "None :: dhcp_packet option"]
    by (simp add: packet_prog_def split: option.split message_type.split)
qed

lemma safe_packet:
  assumes "t1 \<le> t2" and "inv (Suc n) db" and "owners_ok t1 (leases db)"
  shows "safe (other_task D) (holding inv leases 0 (owners_ok t2)) (\<lambda>_. holding inv leases 0 (owners_ok t2)) n
    (packet_prog D t1 t2 packet iface_ips cfg) db"
  using keeps_packet [OF assms(1), of packet iface_ips cfg] assms(2,3)
  by (simp add: keeps_owners_def ensures_def holding_def)

lemma interleaved_packet:
  assumes "interleaved D n (packet_prog D t1 t2 packet iface_ips cfg, db) (r, db')" and "t1 \<le> t2"
    and "inv (n + Suc m) db" and "owners_ok t1 (leases db)"
  shows "inv m db' \<and> owners_ok t2 (leases db')"
proof -
  have "safe (other_task D) (holding inv leases 0 (owners_ok t2)) (\<lambda>_. holding inv leases 0 (owners_ok t2)) (n + m)
      (packet_prog D t1 t2 packet iface_ips cfg) db"
    using assms(3,4) by (intro safe_packet [OF assms(2)]) simp_all
  from safe_interleaved [OF assms(1) this] show ?thesis by (simp add: holding_def)
qed

end

section \<open>Runs\<close>

text \<open>
  A run of the daemon with its tasks interleaved at the awaits: packets are handled one after the
  other, with the steps of the other tasks before, within and after them. \<open>k\<close> counts packets and
  steps.
\<close>

inductive concurrent_run ::
  "'db database \<Rightarrow> config \<Rightarrow> i64 \<times> 'db \<Rightarrow> nat \<Rightarrow> i64 \<times> 'db \<Rightarrow> bool" for D cfg st where
  conc_refl: "concurrent_run D cfg st 0 st"
| conc_other: "concurrent_run D cfg st k (t, db) \<Longrightarrow> other_task D db db' \<Longrightarrow>
    concurrent_run D cfg st (Suc k) (t, db')"
| conc_packet: "concurrent_run D cfg st k (t, db) \<Longrightarrow> t \<le> t1 \<Longrightarrow> t1 \<le> t2 \<Longrightarrow>
    interleaved D n (packet_prog D t1 t2 packet iface_ips cfg, db) (r, db') \<Longrightarrow>
    concurrent_run D cfg st (k + Suc n) (t2, db')"

context admin_store
begin

lemma concurrent_run_leases:
  assumes "concurrent_run D cfg st k st'" and "inv (k + m) (snd st)" and "owners_ok (fst st) (leases (snd st))"
  shows "inv m (snd st') \<and> owners_ok (fst st') (leases (snd st'))"
  using assms
proof (induction arbitrary: m rule: concurrent_run.induct)
  case (conc_other k t db db')
  then have "inv (Suc m) db" and own: "owners_ok t (leases db)" using conc_other.IH [of "Suc m"] by simp_all
  from other_task_leases [OF this(1) conc_other.hyps(2)] own show ?case by (auto intro: owners_ok_subset)
next
  case (conc_packet k t db t1 t2 n packet iface_ips r db')
  then have "inv (n + Suc m) db" and "owners_ok t (leases db)" using conc_packet.IH [of "n + Suc m"] by (simp_all add: ac_simps)
  with interleaved_packet [OF conc_packet.hyps(4,3)] owners_ok_mono conc_packet.hyps(2) show ?case by simp
qed simp

end

text \<open>
  A schedule gives what the other tasks do before each await; it is a way to build an
  interleaving.
\<close>

primrec run_under :: "('db, 'r) prog \<Rightarrow> ('db \<Rightarrow> 'db) list \<Rightarrow> 'db \<Rightarrow> 'r \<times> 'db" where
  "run_under (Return r) = (\<lambda>fs. Pair r)"
| "run_under (Await k) = (\<lambda>fs db.
     case map_prod run_under id (k ((case fs of [] \<Rightarrow> id | f # _ \<Rightarrow> f) db)) of (run, db') \<Rightarrow> run (tl fs) db')"

lemma mem_inv_lab: "mem_inv 6 lab_db"
  by (simp add: mem_inv_def lab_db_def mem_new_def lab_subnet_def lab_range_def table_ok_def i64_max_def)

lemma run_under_interleaved:
  assumes "\<And>f d. f \<in> set fs \<Longrightarrow> f d = d \<or> other_task D d (f d)"
  shows "\<exists>n\<le>length fs. interleaved D n (p, db) (run_under p fs db)"
  using assms
proof (induction p arbitrary: fs db)
  case (Return r)
  then show ?case using il_return [of D r db] by auto
next
  case (Await k)
  let ?f = "case fs of [] \<Rightarrow> id | f # _ \<Rightarrow> f"
  obtain q d where k: "k (?f db) = (q, d)" by fastforce
  have run: "run_under (Await k) fs db = run_under q (tl fs) d" by (simp add: k)
  have "\<exists>n\<le>length (tl fs). interleaved D n (q, d) (run_under q (tl fs) d)"
  proof (rule Await.IH)
    show "q \<in> Basic_BNFs.fsts (k (?f db))" by (simp add: k)
    show "f e = e \<or> other_task D e (f e)" if "f \<in> set (tl fs)" for f e
      using that Await.prems by (cases fs) auto
  qed simp
  then obtain n where n: "n \<le> length (tl fs)" and "interleaved D n (q, d) (run_under q (tl fs) d)" by blast
  then have own: "interleaved D n (Await k, ?f db) (run_under (Await k) fs db)"
    unfolding run by (intro il_own) (simp add: k)
  show ?case
  proof (cases "?f db = db")
    case True
    with own n show ?thesis by (metis le_trans length_tl diff_le_self)
  next
    case False
    then obtain f gs where fs: "fs = f # gs" by (cases fs) auto
    with False Await.prems [of f db] have "other_task D db (?f db)" by auto
    from il_other [OF this own] n fs show ?thesis by auto
  qed
qed

section \<open>The property\<close>

text \<open>
  The race between the awaits of a handler and the other tasks is harmless: in every run in
  which requests of the interface and purges happen between any two database calls of the packet
  being handled, over every database that keeps the contract, all active leases of an address
  belong to one client.
\<close>

theorem concurrent_owners:
  assumes "admin_store D subnets ranges statics leases valid"
    and "concurrent_run D cfg (now, db) k (t, db')"
    and "valid k db" and "owners_ok now (leases db)"
  shows "valid 0 db' \<and> owners_ok t (leases db')"
  using admin_store.concurrent_run_leases [OF assms(1,2), of 0] assms(3,4) by simp

text \<open>The subnet is deleted just before the lease is created: the client still gets its answer.\<close>

theorem concurrent_owners_witness:
  "\<exists>k db' ack. concurrent_run memory_database (config_default Linux) (0, lab_db) k (10, db') \<and>
     run_under (packet_prog memory_database 10 10 (lab_client Request 0xC0A80164 1) [0xC0A80101] (config_default Linux))
       [id, id, id, id, admin_apply memory_database (DeleteSubnet 1)] lab_db = (Some ack, db') \<and>
     m_subnets db' = [] \<and> map l_ip_address (m_leases db') = [0xC0A80164] \<and> owners_ok 10 (set (m_leases db'))"
proof -
  let ?D = "memory_database" and ?cfg = "config_default Linux"
  let ?fs = "[id, id, id, id, admin_apply ?D (DeleteSubnet 1)]"
  let ?p = "packet_prog ?D 10 10 (lab_client Request 0xC0A80164 1) [0xC0A80101] ?cfg"
  let ?db = "snd (run_under ?p ?fs lab_db)"
  have "\<exists>n\<le>length ?fs. interleaved ?D n (?p, lab_db) (run_under ?p ?fs lab_db)"
    by (rule run_under_interleaved) (auto intro: other_admin)
  then obtain n where n: "n \<le> 5"
    and il: "interleaved ?D n (?p, lab_db) (fst (run_under ?p ?fs lab_db), ?db)"
    by (auto simp: numeral_eq_Suc)
  have run: "concurrent_run ?D ?cfg (0, lab_db) (0 + Suc n) (10, ?db)"
    by (rule conc_packet [OF conc_refl _ _ il]) simp_all
  have inv: "mem_inv (0 + Suc n) lab_db" using mem_inv_lab by (rule mem_inv_mono) (use n in simp)
  have "owners_ok 0 (set (m_leases lab_db))" by (simp add: owners_ok_def lab_db_def mem_new_def)
  from concurrent_owners [OF mem_admin.admin_store_axioms run inv this]
  have own: "owners_ok 10 (set (m_leases ?db))" by (rule conjunct2)
  have some: "\<not> Option.is_none (fst (run_under ?p ?fs lab_db))" and gone: "m_subnets ?db = []"
    and ip: "map l_ip_address (m_leases ?db) = [0xC0A80164]"
    by code_simp+
  from some obtain ack where ack: "run_under ?p ?fs lab_db = (Some ack, ?db)"
    by (cases "run_under ?p ?fs lab_db") (auto simp: Option.is_none_def)
  show ?thesis by (intro exI conjI) (rule run, rule ack, rule gone, rule ip, rule own)
qed

end
