(* ===== verification/Dhcp_Awaits.thy ===== *)
theory Dhcp_Awaits
  imports Dhcp_Concurrent
begin

text \<open>
  What a packet's handler does at its awaits whatever database it finds at each of them: no
  assumption on the other tasks is needed for an acknowledgement to follow a lease that was just
  stored, or for an offer to write nothing.
\<close>

section \<open>The actions of a handler\<close>

text \<open>The last action stored a lease of the address for the client.\<close>

definition just_leased :: "'db database \<Rightarrow> config \<Rightarrow> i64 \<Rightarrow> string \<Rightarrow> ipv4 \<Rightarrow> ('db \<times> 'db) list \<Rightarrow> bool" where
  "just_leased D cfg t mac ip ws \<longleftrightarrow> ws \<noteq> [] \<and>
     (\<exists>new i. db_create_lease D new (fst (last ws)) = (Inr i, snd (last ws)) \<and>
        l_mac_address new = mac \<and> l_ip_address new = ip \<and> l_lease_start new = t \<and>
        l_lease_end new = i64_add t (uint (default_lease_time (cfg_dhcp cfg))))"

text \<open>One of the actions found no other client on the address.\<close>

definition found_free :: "'db database \<Rightarrow> i64 \<Rightarrow> string \<Rightarrow> ipv4 \<Rightarrow> ('db \<times> 'db) list \<Rightarrow> bool" where
  "found_free D t mac ip ws \<longleftrightarrow>
     (\<exists>(d, d')\<in>set ws. \<exists>ls. db_list_active_leases D t d = Inr ls \<and>
        (case List.find (\<lambda>l. l_ip_address l = ip) ls of None \<Rightarrow> True | Some l \<Rightarrow> l_mac_address l = mac))"

text \<open>Both are about the later actions of a program.\<close>

lemma just_leased_append: "just_leased D cfg t mac ip vs \<Longrightarrow> just_leased D cfg t mac ip (us @ vs)"
  by (simp add: just_leased_def)

lemma found_free_append: "found_free D t mac ip vs \<Longrightarrow> found_free D t mac ip (us @ vs)"
  by (auto simp: found_free_def)

section \<open>The parts of a REQUEST\<close>

lemma play_create:
  assumes "play (create_prog D t2 packet mac ip h rg s cfg) ds = Some (Some r, ws)"
  shows "r = create_ack packet ip s cfg \<and> just_leased D cfg t2 mac ip ws"
proof -
  let ?new = "\<lparr> l_id = None, l_subnet_id = r_subnet_id rg, l_mac_address = mac, l_ip_address = ip,
      l_lease_start = t2, l_lease_end = i64_add t2 (uint (default_lease_time (cfg_dhcp cfg))), l_hostname = h \<rparr>"
  from assms obtain d i where r: "r = create_ack packet ip s cfg" and "fst (db_create_lease D ?new d) = Inr i"
    and ws: "ws = [(d, snd (db_create_lease D ?new d))]"
    by (cases ds) (auto simp: create_prog_def split: sum.splits)
  then have "db_create_lease D ?new d = (Inr i, snd (db_create_lease D ?new d))" by (metis prod.collapse)
  then have "just_leased D cfg t2 mac ip ws"
    unfolding just_leased_def ws by (intro conjI exI [of _ ?new] exI [of _ i]) simp_all
  with r show ?thesis by simp
qed

lemma play_expire:
  assumes "play (expire_prog D l rest) ds = Some (x, ws)"
  obtains ds' us vs where "play rest ds' = Some (x, vs)" and "ws = us @ vs"
proof (cases "l_id l")
  case None
  with assms that [of ds ws "[]"] show thesis by (simp add: expire_prog_def)
next
  case (Some i)
  with assms obtain d ds' vs where "play rest ds' = Some (x, vs)" and "ws = [(d, snd (db_expire_lease D i d))] @ vs"
    by (cases ds) (auto simp: expire_prog_def)
  then show thesis by (rule that)
qed

lemma play_matching_range:
  assumes "play (matching_range_prog D iface_ips ip g rs) ds = Some (x, ws)"
  shows "\<exists>m ds' us vs. play (g m) ds' = Some (x, vs) \<and> ws = us @ vs \<and>
    (\<forall>rg s. m = Some (rg, s) \<longrightarrow> rg \<in> set rs \<and> r_enabled rg \<and> r_range_start rg \<le> ip \<and> ip \<le> r_range_end rg \<and>
       iface_in_subnet iface_ips s)"
  using assms
proof (induction rs arbitrary: ds ws)
  case Nil
  then have "play (g None) ds = Some (x, ws)" by simp
  then show ?case by (intro exI [of _ None] exI [of _ ds] exI [of _ "[]"] exI [of _ ws]) simp
next
  case (Cons r rs)
  let ?rest = "matching_range_prog D iface_ips ip g rs"
  have later: ?case if p: "play ?rest ds' = Some (x, vs)" and w: "ws = us @ vs" for ds' us vs
  proof -
    from Cons.IH [OF p] obtain m ds'' us' vs' where "play (g m) ds'' = Some (x, vs')"
      and "ws = (us @ us') @ vs'"
      and "\<forall>rg s. m = Some (rg, s) \<longrightarrow> rg \<in> set (r # rs) \<and> r_enabled rg \<and> r_range_start rg \<le> ip \<and>
        ip \<le> r_range_end rg \<and> iface_in_subnet iface_ips s"
      unfolding w by auto
    then show ?thesis by blast
  qed
  show ?case
  proof (cases "r_enabled r \<and> r_range_start r \<le> ip \<and> ip \<le> r_range_end r")
    case False
    with Cons.prems have "play ?rest ds = Some (x, ws)" by (auto split: if_splits)
    from later [OF this, of "[]"] show ?thesis by simp
  next
    case True
    then obtain d ds' vs where ds: "ds = d # ds'" and ws: "ws = [(d, d)] @ vs"
      and p: "play (case db_get_subnet D (r_subnet_id r) d of
          Inr (Some s) \<Rightarrow> if iface_in_subnet iface_ips s then g (Some (r, s)) else ?rest
        | _ \<Rightarrow> ?rest) ds' = Some (x, vs)"
      using Cons.prems by (cases ds) auto
    show ?thesis
    proof (cases "\<exists>s. db_get_subnet D (r_subnet_id r) d = Inr (Some s) \<and> iface_in_subnet iface_ips s")
      case here: True
      then obtain s where "db_get_subnet D (r_subnet_id r) d = Inr (Some s)" "iface_in_subnet iface_ips s" by blast
      with p have "play (g (Some (r, s))) ds' = Some (x, vs)" by simp
      with ws True \<open>iface_in_subnet iface_ips s\<close> show ?thesis
        by (intro exI [of _ "Some (r, s)"] exI [of _ ds'] exI [of _ "[(d, d)]"] exI [of _ vs]) simp
    next
      case False
      with p have "play ?rest ds' = Some (x, vs)" by (auto split: sum.splits option.splits if_splits)
      from later [OF this ws] show ?thesis .
    qed
  qed
qed

lemma play_grant:
  assumes "play (grant_prog D t1 t2 packet mac ip h rg s cfg) ds = Some (Some r, ws)"
  shows "r = create_ack packet ip s cfg \<and> just_leased D cfg t2 mac ip ws \<and> found_free D t1 mac ip ws"
proof -
  let ?create = "create_prog D t2 packet mac ip h rg s cfg"
  from assms obtain d ds' vs ls where ws: "ws = [(d, d)] @ vs" and ls: "db_list_active_leases D t1 d = Inr ls"
    and p: "play (case List.find (\<lambda>l. l_ip_address l = ip) ls of
        Some l \<Rightarrow> if l_mac_address l \<noteq> mac then Return None else expire_prog D l ?create
      | None \<Rightarrow> ?create) ds' = Some (Some r, vs)"
    by (cases ds) (auto simp: grant_prog_def Let_def split: sum.splits)
  from p have free: "case List.find (\<lambda>l. l_ip_address l = ip) ls of None \<Rightarrow> True | Some l \<Rightarrow> l_mac_address l = mac"
    and "\<exists>ds'' us vs'. play ?create ds'' = Some (Some r, vs') \<and> vs = us @ vs'"
    by (auto split: option.splits if_splits elim!: play_expire)
  then obtain ds'' us vs' where "play ?create ds'' = Some (Some r, vs')" and vs: "vs = us @ vs'" by blast
  with play_create [OF this(1)] have "r = create_ack packet ip s cfg" and "just_leased D cfg t2 mac ip vs"
    by (simp_all add: just_leased_append)
  moreover have "found_free D t1 mac ip ws" using ls free ws by (auto simp: found_free_def)
  ultimately show ?thesis using ws by (simp add: just_leased_append del: append.simps)
qed

text \<open>What a REQUEST that is answered saw and did.\<close>

lemma play_request:
  assumes "play (request_prog D t1 t2 packet iface_ips cfg) ds = Some (Some r, ws)"
  shows "\<exists>ip s. requested_ip_of packet = Some ip \<and> r = create_ack packet ip s cfg \<and> iface_in_subnet iface_ips s \<and>
    ((\<exists>(d, d')\<in>set ws. \<exists>st. db_get_static_ip_by_mac D (mac_to_string (chaddr packet)) d = Inr (Some st) \<and>
        st_ip_address st = ip) \<or>
     just_leased D cfg t2 (mac_to_string (chaddr packet)) ip ws \<and>
     found_free D t1 (mac_to_string (chaddr packet)) ip ws)"
proof -
  let ?mac = "mac_to_string (chaddr packet)"
  from assms obtain ip where ip: "requested_ip_of packet = Some ip"
    by (auto simp: request_prog_def Let_def split: option.splits)
  let ?dynamic = "ask (db_list_ranges D None) (\<lambda>ranges.
      case ranges of
        Inl _ \<Rightarrow> Return None
      | Inr rs \<Rightarrow>
          matching_range_prog D iface_ips ip (\<lambda>m.
            case m of
              None \<Rightarrow> Return None
            | Some (rg, s) \<Rightarrow> grant_prog D t1 t2 packet ?mac ip (hostname_of packet) rg s cfg) rs)"
  from assms ip obtain d ds' vs where ws: "ws = (d, d) # vs"
    and p: "play (case db_get_static_ip_by_mac D ?mac d of
          Inr (Some st) \<Rightarrow>
            if st_ip_address st = ip then
              ask (db_get_subnet D (st_subnet_id st)) (\<lambda>s.
                case s of
                  Inr (Some s) \<Rightarrow>
                    if \<not> iface_in_subnet iface_ips s then Return None
                    else Return (Some (create_ack packet ip s cfg))
                | _ \<Rightarrow> Return None)
            else Return None
        | _ \<Rightarrow> ?dynamic) ds' = Some (Some r, vs)"
    by (cases ds) (auto simp: request_prog_def Let_def)
  show ?thesis
  proof (cases "\<exists>st. db_get_static_ip_by_mac D ?mac d = Inr (Some st)")
    case True
    then obtain st where st: "db_get_static_ip_by_mac D ?mac d = Inr (Some st)" by blast
    with p have "st_ip_address st = ip" "\<exists>s. r = create_ack packet ip s cfg \<and> iface_in_subnet iface_ips s"
      by (auto split: if_splits list.splits sum.splits option.splits)
    with ip st ws show ?thesis by auto
  next
    case False
    with p have "play ?dynamic ds' = Some (Some r, vs)" by (auto split: sum.splits option.splits)
    then obtain e es us rs where vs: "vs = (e, e) # us"
      and "play (matching_range_prog D iface_ips ip (\<lambda>m.
            case m of
              None \<Rightarrow> Return None
            | Some (rg, s) \<Rightarrow> grant_prog D t1 t2 packet ?mac ip (hostname_of packet) rg s cfg) rs) es = Some (Some r, us)"
      by (auto split: list.splits sum.splits)
    from play_matching_range [OF this(2)] obtain rg s es' us' vs' where us: "us = us' @ vs'"
      and "play (grant_prog D t1 t2 packet ?mac ip (hostname_of packet) rg s cfg) es' = Some (Some r, vs')"
      and s: "iface_in_subnet iface_ips s"
      by (auto split: option.splits)
    from play_grant [OF this(2)] have "r = create_ack packet ip s cfg"
      and "just_leased D cfg t2 ?mac ip ws" "found_free D t1 ?mac ip ws"
      unfolding ws vs us
      by (auto dest: just_leased_append [of D cfg t2 ?mac ip vs' "(d, d) # (e, e) # us'"]
          found_free_append [of D t1 ?mac ip vs' "(d, d) # (e, e) # us'"])
    with ip s show ?thesis by blast
  qed
qed

section \<open>A DISCOVER only reads\<close>

text \<open>A program that never changes the database, and what it may return.\<close>

inductive reading :: "('r \<Rightarrow> bool) \<Rightarrow> ('db, 'r) prog \<Rightarrow> bool" for Q where
  reading_Return: "Q r \<Longrightarrow> reading Q (Return r)"
| reading_Await: "(\<And>db. reading Q (fst (k db))) \<Longrightarrow> (\<And>db. snd (k db) = db) \<Longrightarrow> reading Q (Await k)"

lemma reading_ask: "(\<And>x. reading Q (g x)) \<Longrightarrow> reading Q (ask f g)"
  unfolding ask_def by (rule reading_Await) simp_all

lemma play_reading: "reading Q p \<Longrightarrow> play p ds = Some (r, ws) \<Longrightarrow> Q r \<and> (\<forall>(d, d')\<in>set ws. d' = d)"
proof (induction arbitrary: ds ws rule: reading.induct)
  case (reading_Await k)
  then obtain d ds' vs where "ws = (d, d) # vs" and p: "play (fst (k d)) ds' = Some (r, vs)"
    by (cases ds) (auto simp: case_prod_unfold)
  with reading_Await.IH [OF p] show ?case by simp
qed simp

lemma reading_foldr: "reading Q p \<Longrightarrow> (\<And>s rest. reading Q rest \<Longrightarrow> reading Q (h s rest)) \<Longrightarrow> reading Q (foldr h ss p)"
  by (induction ss) auto

lemma reading_discover:
  fixes packet
  defines "Q \<equiv> \<lambda>r. r = None \<or> (\<exists>ip s cfg. r = Some (create_offer packet ip s cfg))"
  shows "reading Q (discover_prog D t1 t2 packet iface_ips cfg)"
proof -
  have Q: "Q None" "Q (Some (create_offer packet ip s cfg))" for ip s by (auto simp: Q_def)
  note rules = reading_ask reading_Return [of Q, OF Q(1)] reading_Return [of Q, OF Q(2)]
  have "reading Q (discover_dynamic_prog D t2 packet iface_ips cfg)"
    unfolding discover_dynamic_prog_def
    by (intro rules; auto intro!: rules reading_foldr split: sum.split option.split)
  then show ?thesis
    unfolding discover_prog_def Let_def by (intro rules; auto intro!: rules split: sum.split option.split)
qed

lemmas play_discover = play_reading [OF reading_discover]

lemma play_release: "play (release_prog D t1 packet) ds = Some (resp, ws) \<Longrightarrow> resp = None"
  by (auto simp: release_prog_def expire_prog_def split: list.splits sum.splits option.splits)

lemma play_packet:
  assumes "play (packet_prog D t1 t2 packet iface_ips cfg) ds = Some (resp, ws)"
  shows "(case resp of
      Some r \<Rightarrow> get_message_type r = Some Ack \<longrightarrow> requested_ip_of packet = Some (yiaddr r) \<and>
        (\<exists>s. r = create_ack packet (yiaddr r) s cfg \<and> iface_in_subnet iface_ips s) \<and>
        ((\<exists>(d, d')\<in>set ws. \<exists>st. db_get_static_ip_by_mac D (mac_to_string (chaddr packet)) d = Inr (Some st) \<and>
            st_ip_address st = yiaddr r) \<or>
         just_leased D cfg t2 (mac_to_string (chaddr packet)) (yiaddr r) ws \<and>
         found_free D t1 (mac_to_string (chaddr packet)) (yiaddr r) ws)
    | None \<Rightarrow> True) \<and>
    (get_message_type packet \<notin> {Some Request, Some Release} \<longrightarrow> (\<forall>(d, d')\<in>set ws. d' = d))"
proof -
  consider (discover) "get_message_type packet \<notin> {Some Request, Some Release}"
      and "resp = None \<or> (\<exists>ip s cfg. resp = Some (create_offer packet ip s cfg))" and "\<forall>(d, d')\<in>set ws. d' = d"
    | (request) "get_message_type packet = Some Request" and "play (request_prog D t1 t2 packet iface_ips cfg) ds = Some (resp, ws)"
    | (release) "get_message_type packet = Some Release" and "resp = None"
    using assms play_discover [of D t1 t2 packet iface_ips cfg ds resp ws] play_release [of D t1 packet ds resp ws]
    by (cases "get_message_type packet") (auto simp: packet_prog_def split: message_type.splits)
  then show ?thesis
  proof cases
    case request
    show ?thesis
    proof (cases resp)
      case (Some r)
      with request(2) obtain ip s where "requested_ip_of packet = Some ip" "r = create_ack packet ip s cfg"
        "iface_in_subnet iface_ips s"
        "(\<exists>(d, d')\<in>set ws. \<exists>st. db_get_static_ip_by_mac D (mac_to_string (chaddr packet)) d = Inr (Some st) \<and>
            st_ip_address st = ip) \<or>
         just_leased D cfg t2 (mac_to_string (chaddr packet)) ip ws \<and>
         found_free D t1 (mac_to_string (chaddr packet)) ip ws"
        using play_request [of D t1 t2 packet iface_ips cfg ds r ws] by blast
      with Some request(1) show ?thesis by simp blast
    qed (use request(1) in simp)
  qed auto
qed

lemma play_ack:
  assumes "play (packet_prog D t1 t2 packet iface_ips cfg) ds = Some (Some r, ws)" and "get_message_type r = Some Ack"
  shows "requested_ip_of packet = Some (yiaddr r) \<and>
    ((\<exists>(d, d')\<in>set ws. \<exists>st. db_get_static_ip_by_mac D (mac_to_string (chaddr packet)) d = Inr (Some st) \<and>
        st_ip_address st = yiaddr r) \<or>
     just_leased D cfg t2 (mac_to_string (chaddr packet)) (yiaddr r) ws)"
  using conjunct1 [OF play_packet [OF assms(1)]] assms(2) by auto

section \<open>The property\<close>

text \<open>
  Whatever the other tasks do between the awaits of a packet's handler (\<open>ds\<close> are the databases
  that it finds), an ACK is backed: the address is the one asked for, and either the database
  held it as the client's static assignment at one of the awaits, or the server found no other
  client on it and its last action stored a lease of exactly this address for this client; and a
  packet that is not a REQUEST or a RELEASE writes nothing.
\<close>

theorem ack_backed_interleaved:
  assumes "play (packet_prog D t1 t2 packet iface_ips cfg) ds = Some (resp, ws)"
  shows "(case resp of
      Some r \<Rightarrow> get_message_type r = Some Ack \<longrightarrow> requested_ip_of packet = Some (yiaddr r) \<and>
        (\<exists>s. r = create_ack packet (yiaddr r) s cfg \<and> iface_in_subnet iface_ips s) \<and>
        ((\<exists>(d, d')\<in>set ws. \<exists>st. db_get_static_ip_by_mac D (mac_to_string (chaddr packet)) d = Inr (Some st) \<and>
            st_ip_address st = yiaddr r) \<or>
         just_leased D cfg t2 (mac_to_string (chaddr packet)) (yiaddr r) ws \<and>
         found_free D t1 (mac_to_string (chaddr packet)) (yiaddr r) ws)
    | None \<Rightarrow> True) \<and>
    (get_message_type packet \<notin> {Some Request, Some Release} \<longrightarrow> (\<forall>(d, d')\<in>set ws. d' = d))"
  by (rule play_packet [OF assms])

text \<open>The subnet and its range are deleted before the last await: the lease is stored all the same.\<close>

theorem ack_backed_interleaved_witness:
  "\<exists>ack ws. play (packet_prog memory_database 10 10 (lab_client Request 0xC0A80164 1) [0xC0A80101] (config_default Linux))
       [lab_db, lab_db, lab_db, lab_db, admin_apply memory_database (DeleteSubnet 1) lab_db] = Some (Some ack, ws) \<and>
     just_leased memory_database (config_default Linux) 10 (mac_to_string (chaddr (lab_client Request 0xC0A80164 1)))
       0xC0A80164 ws"
proof -
  let ?packet = "lab_client Request 0xC0A80164 1"
  let ?gone = "admin_apply memory_database (DeleteSubnet 1) lab_db"
  let ?ack = "create_ack ?packet 0xC0A80164 lab_subnet (config_default Linux)"
  let ?p = "play (packet_prog memory_database 10 10 ?packet [0xC0A80101] (config_default Linux))
       [lab_db, lab_db, lab_db, lab_db, ?gone]"
  have "map_option fst ?p = Some (Some ?ack)" and "map_option (map fst \<circ> snd) ?p = Some [lab_db, lab_db, lab_db, lab_db, ?gone]"
    by code_simp+
  then obtain ws where p: "?p = Some (Some ?ack, ws)" and ws: "map fst ws = [lab_db, lab_db, lab_db, lab_db, ?gone]" by auto
  have found: "fst ` set ws = {lab_db, ?gone}" using arg_cong [OF ws, of set] by simp
  have absent: "db_get_static_ip_by_mac memory_database (mac_to_string (chaddr ?packet)) lab_db = Inr None"
    "db_get_static_ip_by_mac memory_database (mac_to_string (chaddr ?packet)) ?gone = Inr None"
    by code_simp+
  have none: "db_get_static_ip_by_mac memory_database (mac_to_string (chaddr ?packet)) d \<noteq> Inr (Some st)"
    if "(d, d') \<in> set ws" for d d' st
  proof -
    have "d \<in> fst ` set ws" using that by (rule image_eqI [rotated]) simp
    then consider "d = lab_db" | "d = ?gone" unfolding found by blast
    then show ?thesis by cases (simp_all only: absent sum.inject option.distinct not_False_eq_True)
  qed
  have "case Some ?ack of Some r \<Rightarrow> get_message_type r = Some Ack \<longrightarrow> requested_ip_of ?packet = Some (yiaddr r) \<and>
        (\<exists>s. r = create_ack ?packet (yiaddr r) s (config_default Linux) \<and> iface_in_subnet [0xC0A80101] s) \<and>
        ((\<exists>(d, d')\<in>set ws. \<exists>st. db_get_static_ip_by_mac memory_database (mac_to_string (chaddr ?packet)) d = Inr (Some st) \<and>
            st_ip_address st = yiaddr r) \<or>
         just_leased memory_database (config_default Linux) 10 (mac_to_string (chaddr ?packet)) (yiaddr r) ws \<and>
         found_free memory_database 10 (mac_to_string (chaddr ?packet)) (yiaddr r) ws) | None \<Rightarrow> True"
    using ack_backed_interleaved [OF p] by (rule conjunct1)
  then have "just_leased memory_database (config_default Linux) 10 (mac_to_string (chaddr ?packet)) 0xC0A80164 ws"
    using none by auto
  with p show ?thesis by blast
qed

end
