(* ===== verification/Api_Handlers.thy ===== *)
theory Api_Handlers
  imports Memory_Db Network_Util
begin

text \<open>
  The REST handlers (\<open>crates/ndhcpd/src/handlers\<close>). A handler works on the database of the
  \<open>AppState\<close>; it returns \<open>Inl\<close> the error status or \<open>Inr\<close> its answer, and a writing
  handler also the new database. Extraction of path, query and JSON body is axum's and serde's:
  the handlers take the extracted values. Token handlers add a message to an error.
\<close>

section \<open>Status codes and results\<close>

datatype status_code =
  OK | CREATED | NO_CONTENT | NOT_FOUND | CONFLICT | UNAUTHORIZED | INTERNAL_SERVER_ERROR

text \<open>\<open>map_err\<close> to a status, without and with the test for a unique violation.\<close>

definition or_500 :: "db_error + 'a \<Rightarrow> status_code + 'a" where
  "or_500 r = (case r of Inl _ \<Rightarrow> Inl INTERNAL_SERVER_ERROR | Inr x \<Rightarrow> Inr x)"

definition or_conflict :: "db_error + 'a \<Rightarrow> status_code + 'a" where
  "or_conflict r =
     (case r of
        Inl e \<Rightarrow> if is_unique_violation e then Inl CONFLICT else Inl INTERNAL_SERVER_ERROR
      | Inr x \<Rightarrow> Inr x)"

definition ok_or_404 :: "status_code + 'a option \<Rightarrow> status_code + 'a" where
  "ok_or_404 r =
     (case r of Inl s \<Rightarrow> Inl s | Inr None \<Rightarrow> Inl NOT_FOUND | Inr (Some x) \<Rightarrow> Inr x)"

type_synonym ('db, 'a) api_read = "'db \<Rightarrow> status_code + 'a"
type_synonym ('db, 'a) api_write = "'db \<Rightarrow> (status_code + 'a) \<times> 'db"

section \<open>Subnets\<close>

definition list_subnets :: "'db database \<Rightarrow> ('db, subnet list) api_read" where
  "list_subnets D db = or_500 (db_list_subnets D db)"

definition create_subnet :: "'db database \<Rightarrow> subnet \<Rightarrow> ('db, status_code \<times> i64) api_write" where
  "create_subnet D subnet db =
     (case db_list_subnets D db of
        Inl _ \<Rightarrow> (Inl INTERNAL_SERVER_ERROR, db)
      | Inr existing \<Rightarrow>
          (if list_ex (\<lambda>e. subnets_overlap (s_network subnet) (s_netmask subnet) (s_network e) (s_netmask e)) existing
           then (Inl CONFLICT, db)
           else (case db_create_subnet D subnet db of
              (r, db') \<Rightarrow> (map_sum id (Pair CREATED) (or_conflict r), db'))))"

definition get_subnet :: "'db database \<Rightarrow> i64 \<Rightarrow> ('db, subnet) api_read" where
  "get_subnet D i db = ok_or_404 (or_500 (db_get_subnet D i db))"

definition update_subnet :: "'db database \<Rightarrow> i64 \<Rightarrow> subnet \<Rightarrow> ('db, status_code) api_write" where
  "update_subnet D i subnet db =
     (case db_update_subnet D i subnet db of (r, db') \<Rightarrow> (map_sum id (\<lambda>_. OK) (or_500 r), db'))"

definition delete_subnet :: "'db database \<Rightarrow> i64 \<Rightarrow> ('db, status_code) api_write" where
  "delete_subnet D i db =
     (case db_delete_subnet D i db of (r, db') \<Rightarrow> (map_sum id (\<lambda>_. NO_CONTENT) (or_500 r), db'))"

section \<open>Dynamic ranges\<close>

definition list_ranges :: "'db database \<Rightarrow> i64 option \<Rightarrow> ('db, dynamic_range list) api_read" where
  "list_ranges D subnet_id db = or_500 (db_list_ranges D subnet_id db)"

definition create_range :: "'db database \<Rightarrow> dynamic_range \<Rightarrow> ('db, status_code \<times> i64) api_write" where
  "create_range D rg db =
     (case db_create_range D rg db of (r, db') \<Rightarrow> (map_sum id (Pair CREATED) (or_500 r), db'))"

definition delete_range :: "'db database \<Rightarrow> i64 \<Rightarrow> ('db, status_code) api_write" where
  "delete_range D i db =
     (case db_delete_range D i db of (r, db') \<Rightarrow> (map_sum id (\<lambda>_. NO_CONTENT) (or_500 r), db'))"

section \<open>Static assignments\<close>

definition list_static_ips :: "'db database \<Rightarrow> i64 option \<Rightarrow> ('db, static_ip list) api_read" where
  "list_static_ips D subnet_id db = or_500 (db_list_static_ips D subnet_id db)"

definition create_static_ip :: "'db database \<Rightarrow> static_ip \<Rightarrow> ('db, status_code) api_write" where
  "create_static_ip D st db =
     (case db_create_static_ip D st db of (r, db') \<Rightarrow> (map_sum id (\<lambda>_. CREATED) (or_conflict r), db'))"

definition delete_static_ip :: "'db database \<Rightarrow> string \<Rightarrow> ('db, status_code) api_write" where
  "delete_static_ip D ip db =
     (case db_delete_static_ip D ip db of (r, db') \<Rightarrow> (map_sum id (\<lambda>_. NO_CONTENT) (or_500 r), db'))"

definition update_static_ip_hostname ::
  "'db database \<Rightarrow> string \<Rightarrow> string option \<Rightarrow> ('db, status_code) api_write" where
  "update_static_ip_hostname D ip hostname db =
     (case db_update_static_ip_hostname D ip hostname db of
        (r, db') \<Rightarrow> (map_sum id (\<lambda>_. NO_CONTENT) (or_500 r), db'))"

section \<open>Leases\<close>

definition list_leases :: "'db database \<Rightarrow> i64 \<Rightarrow> ('db, lease list) api_read" where
  "list_leases D now db = or_500 (db_list_active_leases D now db)"

section \<open>IPv6 prefixes\<close>

definition list_ia_prefixes :: "'db database \<Rightarrow> string option \<Rightarrow> ('db, ia_prefix list) api_read" where
  "list_ia_prefixes D iface db = or_500 (db_list_ia_prefixes D iface db)"

text \<open>The defaults for lifetimes that are zero.\<close>

definition with_default_lifetimes :: "ra_config \<Rightarrow> ia_prefix \<Rightarrow> ia_prefix" where
  "with_default_lifetimes cfg p =
     (let p = (if p_preferred_lifetime p = 0
               then p\<lparr> p_preferred_lifetime := default_preferred_lifetime cfg \<rparr> else p);
          p = (if p_valid_lifetime p = 0
               then p\<lparr> p_valid_lifetime := default_valid_lifetime cfg \<rparr> else p)
      in if p_dns_lifetime p = 0 then p\<lparr> p_dns_lifetime := default_dns_lifetime cfg \<rparr> else p)"

definition create_ia_prefix ::
  "'db database \<Rightarrow> ra_config \<Rightarrow> ia_prefix \<Rightarrow> ('db, status_code \<times> i64) api_write" where
  "create_ia_prefix D cfg p db =
     (case db_create_ia_prefix D (with_default_lifetimes cfg p) db of
        (r, db') \<Rightarrow> (map_sum id (Pair CREATED) (or_500 r), db'))"

definition get_ia_prefix :: "'db database \<Rightarrow> i64 \<Rightarrow> ('db, ia_prefix) api_read" where
  "get_ia_prefix D i db = ok_or_404 (or_500 (db_get_ia_prefix D i db))"

definition update_ia_prefix :: "'db database \<Rightarrow> i64 \<Rightarrow> ia_prefix \<Rightarrow> ('db, status_code) api_write" where
  "update_ia_prefix D i p db =
     (case db_update_ia_prefix D i p db of (r, db') \<Rightarrow> (map_sum id (\<lambda>_. OK) (or_500 r), db'))"

definition delete_ia_prefix :: "'db database \<Rightarrow> i64 \<Rightarrow> ('db, status_code) api_write" where
  "delete_ia_prefix D i db =
     (case db_delete_ia_prefix D i db of (r, db') \<Rightarrow> (map_sum id (\<lambda>_. NO_CONTENT) (or_500 r), db'))"

section \<open>Tokens\<close>

type_synonym api_error = "status_code \<times> string"

definition list_tokens :: "'db database \<Rightarrow> 'db \<Rightarrow> api_error + api_token list" where
  "list_tokens D db =
     (case db_list_api_tokens D db of
        Inr tokens \<Rightarrow> Inr tokens
      | Inl _ \<Rightarrow> Inl (INTERNAL_SERVER_ERROR, ''Failed to list tokens''))"

text \<open>
  \<open>token\<close> is what \<open>token::generate\<close> returned and \<open>hashed\<close> what \<open>token::hash\<close> returned for
  it: the hash and its salt, or an error.
\<close>

definition create_token ::
  "'db database \<Rightarrow> i64 \<Rightarrow> string \<Rightarrow> (string + string \<times> string) \<Rightarrow> string \<Rightarrow> 'db \<Rightarrow>
   (api_error + status_code \<times> create_token_response) \<times> 'db" where
  "create_token D now token hashed name db =
     (case hashed of
        Inl _ \<Rightarrow> (Inl (INTERNAL_SERVER_ERROR, ''Failed to hash token''), db)
      | Inr (token_hash, salt) \<Rightarrow>
          (case db_create_token D now name token_hash salt db of
             (Inr i, db') \<Rightarrow>
               (Inr (CREATED, \<lparr> ctr_id = i, ctr_name = name, ctr_token = token \<rparr>), db')
           | (Inl e, db') \<Rightarrow>
               (if is_unique_violation e then (Inl (CONFLICT, ''Token name already exists''), db')
                else (Inl (INTERNAL_SERVER_ERROR, ''Failed to create token''), db'))))"

definition delete_token :: "'db database \<Rightarrow> i64 \<Rightarrow> 'db \<Rightarrow> (api_error + status_code) \<times> 'db" where
  "delete_token D i db =
     (case db_delete_token D i db of
        (Inr _, db') \<Rightarrow> (Inr NO_CONTENT, db')
      | (Inl _, db') \<Rightarrow> (Inl (INTERNAL_SERVER_ERROR, ''Failed to delete token''), db'))"

definition toggle_token :: "'db database \<Rightarrow> i64 \<Rightarrow> 'db \<Rightarrow> (api_error + status_code) \<times> 'db" where
  "toggle_token D i db =
     (case db_list_api_tokens D db of
        Inl _ \<Rightarrow> (Inl (INTERNAL_SERVER_ERROR, ''Failed to toggle token''), db)
      | Inr tokens \<Rightarrow>
          (case List.find (\<lambda>t. tk_id t = Some i) tokens of
             None \<Rightarrow> (Inl (NOT_FOUND, ''Token not found''), db)
           | Some token \<Rightarrow>
               (case db_toggle_token D i (\<not> tk_enabled token) db of
                  (Inr _, db') \<Rightarrow> (Inr OK, db')
                | (Inl _, db') \<Rightarrow> (Inl (INTERNAL_SERVER_ERROR, ''Failed to toggle token''), db'))))"

section \<open>Health\<close>

definition health_check :: "status_code \<times> string" where
  "health_check = (OK, ''healthy'')"

end
