(* ===== verification/Api_Server.thy ===== *)
theory Api_Server
  imports Api_Handlers
begin

text \<open>
  Authentication (\<open>crates/ndhcpd/src/auth\<close>) and the router (\<open>handlers/mod.rs\<close>). Argon2 and
  its hash format are the arguments \<open>parse_hash\<close> and \<open>verify_password\<close>. A request is the
  route that axum matched with the extracted values; the \<open>Authorization\<close> header is the text
  that \<open>headers.get\<close> and \<open>to_str\<close> gave, if any.
\<close>

section \<open>Authentication\<close>

definition token_verify ::
  "(string \<Rightarrow> 'hash option) \<Rightarrow> (string \<Rightarrow> 'hash \<Rightarrow> bool) \<Rightarrow> string \<Rightarrow> string \<Rightarrow> string + bool" where
  "token_verify parse_hash verify_password token hash =
     (case parse_hash hash of
        None \<Rightarrow> Inl ''Failed to parse hash''
      | Some h \<Rightarrow> Inr (verify_password token h))"

fun strip_prefix :: "string \<Rightarrow> string \<Rightarrow> string option" where
  "strip_prefix [] s = Some s"
| "strip_prefix (c # cs) [] = None"
| "strip_prefix (c # cs) (d # ds) = (if c = d then strip_prefix cs ds else None)"

text \<open>What \<open>?\<close> carries out of the check: an error of the database or of the hash.\<close>

datatype auth_error = DbFailed db_error | VerifyFailed string

text \<open>The loop of \<open>verify_token_in_db\<close>: an error of \<open>token::verify\<close> leaves it.\<close>

fun verify_tokens ::
  "'db database \<Rightarrow> (string \<Rightarrow> string \<Rightarrow> string + bool) \<Rightarrow> i64 \<Rightarrow> string \<Rightarrow> (string \<times> i64) list \<Rightarrow>
   'db \<Rightarrow> (auth_error + bool) \<times> 'db" where
  "verify_tokens D verify now token [] db = (Inr False, db)"
| "verify_tokens D verify now token ((token_hash, enabled) # ts) db =
     (case verify token token_hash of
        Inl e \<Rightarrow> (Inl (VerifyFailed e), db)
      | Inr True \<Rightarrow> (Inr (enabled = 1), snd (db_update_token_last_used D now token_hash db))
      | Inr False \<Rightarrow> verify_tokens D verify now token ts db)"

definition verify_token_in_db ::
  "'db database \<Rightarrow> (string \<Rightarrow> string \<Rightarrow> string + bool) \<Rightarrow> i64 \<Rightarrow> string \<Rightarrow> 'db \<Rightarrow>
   (auth_error + bool) \<times> 'db" where
  "verify_token_in_db D verify now token db =
     (case db_list_tokens D db of
        Inl e \<Rightarrow> (Inl (DbFailed e), db)
      | Inr tokens \<Rightarrow> verify_tokens D verify now token tokens db)"

datatype connection_type = UnixSocket | Tcp

text \<open>\<open>next\<close> is the rest of the router.\<close>

definition auth_middleware ::
  "'db database \<Rightarrow> (string \<Rightarrow> string \<Rightarrow> string + bool) \<Rightarrow> i64 \<Rightarrow> connection_type option \<Rightarrow> string option \<Rightarrow>
   ('db \<Rightarrow> (api_error + 'a) \<times> 'db) \<Rightarrow> 'db \<Rightarrow> (api_error + 'a) \<times> 'db" where
  "auth_middleware D verify now conn_type auth_header nxt db =
     (if conn_type = Some UnixSocket then nxt db
      else case auth_header of
        None \<Rightarrow> (Inl (UNAUTHORIZED, ''Missing Authorization header''), db)
      | Some header \<Rightarrow>
          (case strip_prefix ''Bearer '' header of
             None \<Rightarrow> (Inl (UNAUTHORIZED,
               ''Invalid Authorization header format. Expected: Bearer <token>''), db)
           | Some token \<Rightarrow>
               (case verify_token_in_db D verify now token db of
                  (Inl _, db') \<Rightarrow> (Inl (UNAUTHORIZED, ''Invalid token''), db')
                | (Inr valid, db') \<Rightarrow>
                    (if \<not> valid then (Inl (UNAUTHORIZED, ''Invalid or disabled token''), db')
                     else nxt db'))))"

section \<open>The router\<close>

text \<open>One constructor for each route, with what the handler extracts from the request.\<close>

datatype api_request =
    ListSubnets | PostSubnet subnet | GetSubnet i64 | PutSubnet i64 subnet | DelSubnet i64
  | ListRanges "i64 option" | PostRange dynamic_range | DelRange i64
  | ListStaticIps "i64 option" | PostStaticIp static_ip | DelStaticIp string
  | PatchHostname string "string option"
  | ListLeases
  | ListTokens | PostToken string | DelToken i64 | PatchToggle i64
  | ListPrefixes "string option" | PostPrefix ia_prefix | GetPrefix i64 | PutPrefix i64 ia_prefix
  | DelPrefix i64
  | Health

datatype api_body =
    NoBody | IdBody i64
  | SubnetBody subnet | SubnetsBody "subnet list" | RangesBody "dynamic_range list"
  | StaticIpsBody "static_ip list" | LeasesBody "lease list"
  | PrefixBody ia_prefix | PrefixesBody "ia_prefix list"
  | TokensBody "api_token list" | TokenBody create_token_response | HealthBody string

type_synonym 'db api_result = "(api_error + status_code \<times> api_body) \<times> 'db"

text \<open>How a handler's result becomes a response: an error status has no text.\<close>

definition reply :: "('a \<Rightarrow> status_code \<times> api_body) \<Rightarrow> status_code + 'a \<Rightarrow> api_error + status_code \<times> api_body" where
  "reply f r = (case r of Inl s \<Rightarrow> Inl (s, '''') | Inr x \<Rightarrow> Inr (f x))"

fun route ::
  "'db database \<Rightarrow> ra_config \<Rightarrow> i64 \<Rightarrow> string \<Rightarrow> (string + string \<times> string) \<Rightarrow> api_request \<Rightarrow> 'db \<Rightarrow>
   'db api_result" where
  "route D cfg now tok hashed ListSubnets db =
     (reply (\<lambda>x. (OK, SubnetsBody x)) (list_subnets D db), db)"
| "route D cfg now tok hashed (PostSubnet s) db =
     map_prod (reply (map_prod id IdBody)) id (create_subnet D s db)"
| "route D cfg now tok hashed (GetSubnet i) db =
     (reply (\<lambda>x. (OK, SubnetBody x)) (get_subnet D i db), db)"
| "route D cfg now tok hashed (PutSubnet i s) db =
     map_prod (reply (\<lambda>c. (c, NoBody))) id (update_subnet D i s db)"
| "route D cfg now tok hashed (DelSubnet i) db =
     map_prod (reply (\<lambda>c. (c, NoBody))) id (delete_subnet D i db)"
| "route D cfg now tok hashed (ListRanges sid) db =
     (reply (\<lambda>x. (OK, RangesBody x)) (list_ranges D sid db), db)"
| "route D cfg now tok hashed (PostRange r) db =
     map_prod (reply (map_prod id IdBody)) id (create_range D r db)"
| "route D cfg now tok hashed (DelRange i) db =
     map_prod (reply (\<lambda>c. (c, NoBody))) id (delete_range D i db)"
| "route D cfg now tok hashed (ListStaticIps sid) db =
     (reply (\<lambda>x. (OK, StaticIpsBody x)) (list_static_ips D sid db), db)"
| "route D cfg now tok hashed (PostStaticIp st) db =
     map_prod (reply (\<lambda>c. (c, NoBody))) id (create_static_ip D st db)"
| "route D cfg now tok hashed (DelStaticIp ip) db =
     map_prod (reply (\<lambda>c. (c, NoBody))) id (delete_static_ip D ip db)"
| "route D cfg now tok hashed (PatchHostname ip h) db =
     map_prod (reply (\<lambda>c. (c, NoBody))) id (update_static_ip_hostname D ip h db)"
| "route D cfg now tok hashed ListLeases db =
     (reply (\<lambda>x. (OK, LeasesBody x)) (list_leases D now db), db)"
| "route D cfg now tok hashed ListTokens db =
     (map_sum id (\<lambda>x. (OK, TokensBody x)) (list_tokens D db), db)"
| "route D cfg now tok hashed (PostToken name) db =
     map_prod (map_sum id (map_prod id TokenBody)) id (create_token D now tok hashed name db)"
| "route D cfg now tok hashed (DelToken i) db =
     map_prod (map_sum id (\<lambda>c. (c, NoBody))) id (delete_token D i db)"
| "route D cfg now tok hashed (PatchToggle i) db =
     map_prod (map_sum id (\<lambda>c. (c, NoBody))) id (toggle_token D i db)"
| "route D cfg now tok hashed (ListPrefixes iface) db =
     (reply (\<lambda>x. (OK, PrefixesBody x)) (list_ia_prefixes D iface db), db)"
| "route D cfg now tok hashed (PostPrefix p) db =
     map_prod (reply (map_prod id IdBody)) id (create_ia_prefix D cfg p db)"
| "route D cfg now tok hashed (GetPrefix i) db =
     (reply (\<lambda>x. (OK, PrefixBody x)) (get_ia_prefix D i db), db)"
| "route D cfg now tok hashed (PutPrefix i p) db =
     map_prod (reply (\<lambda>c. (c, NoBody))) id (update_ia_prefix D i p db)"
| "route D cfg now tok hashed (DelPrefix i) db =
     map_prod (reply (\<lambda>c. (c, NoBody))) id (delete_ia_prefix D i db)"
| "route D cfg now tok hashed Health db = (Inr (fst health_check, HealthBody (snd health_check)), db)"

text \<open>\<open>create_router_with_auth\<close>: the middleware wraps every route but the health check.\<close>

definition create_router_with_auth ::
  "'db database \<Rightarrow> ra_config \<Rightarrow> (string \<Rightarrow> string \<Rightarrow> string + bool) \<Rightarrow> bool \<Rightarrow> i64 \<Rightarrow> string \<Rightarrow>
   (string + string \<times> string) \<Rightarrow> connection_type option \<Rightarrow> string option \<Rightarrow> api_request \<Rightarrow> 'db \<Rightarrow>
   'db api_result" where
  "create_router_with_auth D cfg verify require_auth now tok hashed conn auth req db =
     (if require_auth \<and> req \<noteq> Health
      then auth_middleware D verify now conn auth (route D cfg now tok hashed req) db
      else route D cfg now tok hashed req db)"

section \<open>Lemmas\<close>

lemmas handler_defs =
  create_subnet_def update_subnet_def delete_subnet_def create_range_def delete_range_def
  create_static_ip_def delete_static_ip_def update_static_ip_hostname_def create_token_def
  delete_token_def toggle_token_def create_ia_prefix_def update_ia_prefix_def delete_ia_prefix_def

lemma strip_prefix_Some: "strip_prefix p s = Some t \<longleftrightarrow> s = p @ t"
  by (induction p s rule: strip_prefix.induct) auto

text \<open>The writing method that a request ends in, if any: what the handlers refine.\<close>

fun request_op ::
  "'db database \<Rightarrow> ra_config \<Rightarrow> i64 \<Rightarrow> (string + string \<times> string) \<Rightarrow> api_request \<Rightarrow> 'db \<Rightarrow> admin_op option" where
  "request_op D cfg now hashed (PostSubnet s) db =
     (case db_list_subnets D db of
        Inl _ \<Rightarrow> None
      | Inr existing \<Rightarrow>
          if \<exists>e\<in>set existing. subnets_overlap (s_network s) (s_netmask s) (s_network e) (s_netmask e)
          then None else Some (CreateSubnet s))"
| "request_op D cfg now hashed (PutSubnet i s) db = Some (UpdateSubnet i s)"
| "request_op D cfg now hashed (DelSubnet i) db = Some (DeleteSubnet i)"
| "request_op D cfg now hashed (PostRange r) db = Some (CreateRange r)"
| "request_op D cfg now hashed (DelRange i) db = Some (DeleteRange i)"
| "request_op D cfg now hashed (PostStaticIp st) db = Some (CreateStaticIp st)"
| "request_op D cfg now hashed (DelStaticIp ip) db = Some (DeleteStaticIp ip)"
| "request_op D cfg now hashed (PatchHostname ip h) db = Some (UpdateStaticIpHostname ip h)"
| "request_op D cfg now hashed (PostToken name) db =
     (case hashed of Inl _ \<Rightarrow> None | Inr (h, salt) \<Rightarrow> Some (CreateToken now name h salt))"
| "request_op D cfg now hashed (DelToken i) db = Some (DeleteToken i)"
| "request_op D cfg now hashed (PatchToggle i) db =
     (case db_list_api_tokens D db of
        Inl _ \<Rightarrow> None
      | Inr tokens \<Rightarrow> map_option (\<lambda>t. ToggleToken i (\<not> tk_enabled t)) (List.find (\<lambda>t. tk_id t = Some i) tokens))"
| "request_op D cfg now hashed (PostPrefix p) db = Some (CreateIaPrefix (with_default_lifetimes cfg p))"
| "request_op D cfg now hashed (PutPrefix i p) db = Some (UpdateIaPrefix i p)"
| "request_op D cfg now hashed (DelPrefix i) db = Some (DeleteIaPrefix i)"
| "request_op D cfg now hashed _ db = None"

lemma route_effect:
  "snd (route D cfg now tok hashed req db) =
     (case request_op D cfg now hashed req db of None \<Rightarrow> db | Some x \<Rightarrow> admin_apply D x db)"
  by (cases req) (simp_all add: handler_defs list_ex_iff split: sum.split prod.split option.split)

lemma route_not_unauthorized: "fst (route D cfg now tok hashed req db) \<noteq> Inl (UNAUTHORIZED, msg)"
  by (cases req)
    (simp_all add: handler_defs list_subnets_def get_subnet_def list_ranges_def list_static_ips_def
      list_leases_def list_tokens_def list_ia_prefixes_def get_ia_prefix_def reply_def or_500_def
      or_conflict_def ok_or_404_def split: sum.split prod.split option.split)

text \<open>\<open>d\<close> comes from \<open>db\<close> by at most \<open>n\<close> writing methods of the administration.\<close>

definition administers :: "'db database \<Rightarrow> nat \<Rightarrow> 'db \<Rightarrow> 'db \<Rightarrow> bool" where
  "administers D n db d \<longleftrightarrow> (\<exists>ops. length ops \<le> n \<and> d = foldl (\<lambda>d x. admin_apply D x d) db ops)"

lemma administers_0: "administers D 0 db db"
  by (simp add: administers_def)

lemma administers_1: "administers D 1 db (admin_apply D x db)"
  unfolding administers_def by (rule exI [of _ "[x]"]) simp

lemma administers_mono: "administers D m db d \<Longrightarrow> m \<le> n \<Longrightarrow> administers D n db d"
proof -
  assume "administers D m db d" and "m \<le> n"
  then obtain ops where "length ops \<le> m" and d: "d = foldl (\<lambda>d x. admin_apply D x d) db ops"
    unfolding administers_def by blast
  with \<open>m \<le> n\<close> have "length ops \<le> n" by simp
  with d show ?thesis unfolding administers_def by blast
qed

lemma administers_trans:
  assumes "administers D m db d" and "administers D n d d'"
  shows "administers D (m + n) db d'"
proof -
  obtain xs ys where "length xs \<le> m" "d = foldl (\<lambda>d x. admin_apply D x d) db xs"
    "length ys \<le> n" "d' = foldl (\<lambda>d x. admin_apply D x d) d ys"
    using assms by (auto simp: administers_def)
  then show ?thesis unfolding administers_def by (intro exI [of _ "xs @ ys"]) simp
qed

lemma administers_route: "administers D 1 db (snd (route D cfg now tok hashed req db))"
  using administers_mono [OF administers_0, of 1 D db] administers_1
  by (cases "request_op D cfg now hashed req db") (simp_all add: route_effect)

text \<open>What the token check returns and writes.\<close>

lemma verify_tokens_True:
  "verify_tokens D verify now token ts db = (Inr True, db') \<Longrightarrow>
   \<exists>h. (h, 1) \<in> set ts \<and> verify token h = Inr True \<and> db' = admin_apply D (UpdateTokenLastUsed now h) db"
  by (induction ts) (auto split: sum.splits bool.splits)

lemma verify_tokens_effect:
  "snd (verify_tokens D verify now token ts db) = db \<or>
   (\<exists>h. snd (verify_tokens D verify now token ts db) = admin_apply D (UpdateTokenLastUsed now h) db)"
  by (induction ts) (auto split: sum.splits bool.splits)

lemma verify_tokens_skip:
  "\<forall>x\<in>set pre. verify token (fst x) = Inr False \<Longrightarrow>
   verify_tokens D verify now token (pre @ ts) db = verify_tokens D verify now token ts db"
  by (induction pre) auto

text \<open>What the middleware lets through.\<close>

lemma auth_middleware_passed:
  assumes h: "auth_middleware D verify now conn auth nxt db = (r, db')"
    and r: "\<And>msg. r \<noteq> Inl (UNAUTHORIZED, msg)" and c: "conn \<noteq> Some UnixSocket"
  obtains token tokens h where "auth = Some (''Bearer '' @ token)" and "db_list_tokens D db = Inr tokens"
    and "(h, 1) \<in> set tokens" and "verify token h = Inr True"
    and "(r, db') = nxt (admin_apply D (UpdateTokenLastUsed now h) db)"
proof -
  from h r c obtain header token where a: "auth = Some header" and s: "strip_prefix ''Bearer '' header = Some token"
    by (auto simp: auth_middleware_def split: option.splits)
  obtain res d where v: "verify_token_in_db D verify now token db = (res, d)" by fastforce
  with h r c a s have "res = Inr True" and n: "nxt d = (r, db')"
    by (auto simp: auth_middleware_def split: sum.splits if_splits)
  with v obtain tokens where t: "db_list_tokens D db = Inr tokens"
    and "verify_tokens D verify now token tokens db = (Inr True, d)"
    by (auto simp: verify_token_in_db_def split: sum.splits)
  from verify_tokens_True [OF this(2)] t n a s that show thesis
    by (auto simp: strip_prefix_Some)
qed

lemma auth_middleware_effect:
  "\<exists>d. snd (auth_middleware D verify now conn auth nxt db) \<in> {d, snd (nxt d)} \<and>
     (d = db \<or> (\<exists>h. d = admin_apply D (UpdateTokenLastUsed now h) db))"
proof -
  have "snd (verify_token_in_db D verify now token db) = db \<or>
      (\<exists>h. snd (verify_token_in_db D verify now token db) = admin_apply D (UpdateTokenLastUsed now h) db)" for token
    using verify_tokens_effect [of D verify now token _ db]
    by (auto simp: verify_token_in_db_def split: sum.split)
  then show ?thesis
    unfolding auth_middleware_def
    by (cases auth; cases "strip_prefix ''Bearer '' (the auth)";
        cases "verify_token_in_db D verify now (the (strip_prefix ''Bearer '' (the auth))) db")
      (auto split: sum.splits; metis snd_conv)+
qed

lemma administers_router:
  "administers D 2 db
     (snd (create_router_with_auth D cfg verify require_auth now tok hashed conn auth req db))"
proof (cases "require_auth \<and> req \<noteq> Health")
  case False
  then have "create_router_with_auth D cfg verify require_auth now tok hashed conn auth req db =
      route D cfg now tok hashed req db"
    by (auto simp: create_router_with_auth_def)
  then show ?thesis
    using administers_mono [OF administers_route [of D db cfg now tok hashed req], of 2] by simp
next
  case True
  obtain d where d: "snd (create_router_with_auth D cfg verify require_auth now tok hashed conn auth req db)
      \<in> {d, snd (route D cfg now tok hashed req d)}"
    and u: "d = db \<or> (\<exists>h. d = admin_apply D (UpdateTokenLastUsed now h) db)"
    using auth_middleware_effect [of D verify now conn auth "route D cfg now tok hashed req" db] True
    by (auto simp: create_router_with_auth_def)
  from u have "administers D 1 db d"
    by (metis administers_0 administers_1 administers_mono zero_le_one)
  then have "administers D 2 db d" and "administers D 2 db (snd (route D cfg now tok hashed req d))"
    using administers_mono [of D 1 db d 2]
      administers_trans [of D 1 db d 1 "snd (route D cfg now tok hashed req d)"]
      administers_route [of D d cfg now tok hashed req]
    by (simp_all add: numeral_2_eq_2)
  with d show ?thesis by auto
qed

text \<open>The addresses of a subnet, and subnets without common addresses.\<close>

definition subnet_addresses :: "subnet \<Rightarrow> ipv4 set" where
  "subnet_addresses s = {ip. ip AND netmask_from_prefix (s_netmask s) = s_network s AND netmask_from_prefix (s_netmask s)}"

fun pairwise_disjoint :: "subnet list \<Rightarrow> bool" where
  "pairwise_disjoint [] \<longleftrightarrow> True"
| "pairwise_disjoint (s # ss) \<longleftrightarrow>
     (\<forall>e\<in>set ss. subnet_addresses s \<inter> subnet_addresses e = {}) \<and> pairwise_disjoint ss"

lemma subnet_addresses_id [simp]: "subnet_addresses (s\<lparr> s_id := i \<rparr>) = subnet_addresses s"
  by (simp add: subnet_addresses_def)

lemma pairwise_disjoint_snoc:
  "pairwise_disjoint (ss @ [s]) \<longleftrightarrow>
     pairwise_disjoint ss \<and> (\<forall>e\<in>set ss. subnet_addresses s \<inter> subnet_addresses e = {})"
  by (induction ss) auto

text \<open>An example: a subnet and a database with one token, whose hash is the token itself.\<close>

definition lab_net :: subnet where
  "lab_net = \<lparr> s_id = None, s_network = 0xC0A80100, s_netmask = 24, s_gateway = 0xC0A80101,
     s_dns_servers = [], s_domain_name = None \<rparr>"

definition lab_token_db :: memory_db where
  "lab_token_db = mem_new\<lparr> m_tokens := [(1, ''admin'', ''abc'', 1)], next_token_id := 2 \<rparr>"

section \<open>Properties\<close>

text \<open>
  With authentication required, nothing passes without a valid token: when a request over TCP
  to any route but the health check gets an answer other than 401, its header is
  \<open>Bearer\<close> and a token, and the database lists an enabled token whose hash the token
  verifies; the handler ran on the database with the use of that token recorded.
\<close>

theorem authenticated:
  assumes "create_router_with_auth D cfg verify True now tok hashed conn auth req db = (r, db')"
    and "req \<noteq> Health" and "conn \<noteq> Some UnixSocket" and "\<forall>msg. r \<noteq> Inl (UNAUTHORIZED, msg)"
  shows "\<exists>token tokens h. auth = Some (''Bearer '' @ token) \<and> db_list_tokens D db = Inr tokens \<and>
    (h, 1) \<in> set tokens \<and> verify token h = Inr True \<and>
    (r, db') = route D cfg now tok hashed req (snd (db_update_token_last_used D now h db))"
proof -
  from assms(1,2) have m: "auth_middleware D verify now conn auth (route D cfg now tok hashed req) db = (r, db')"
    by (simp add: create_router_with_auth_def)
  have "r \<noteq> Inl (UNAUTHORIZED, msg)" for msg using assms(4) by simp
  from auth_middleware_passed [OF m this assms(3)] show ?thesis by (metis admin_apply.simps(15))
qed

text \<open>
  A valid token is accepted: when the listed tokens before an enabled one do not match and are
  well formed, and the token verifies its hash, the request reaches its handler.
\<close>

theorem valid_token_accepted:
  assumes "db_list_tokens D db = Inr (pre @ (h, 1) # post)"
    and "\<forall>x\<in>set pre. verify token (fst x) = Inr False" and "verify token h = Inr True"
  shows "create_router_with_auth D cfg verify True now tok hashed conn (Some (''Bearer '' @ token)) req db =
    route D cfg now tok hashed req
      (if req = Health \<or> conn = Some UnixSocket then db else snd (db_update_token_last_used D now h db))"
proof -
  have "strip_prefix ''Bearer '' (''Bearer '' @ token) = Some token" by (simp only: strip_prefix_Some)
  moreover have "verify_token_in_db D verify now token db =
      (Inr True, snd (db_update_token_last_used D now h db))"
    using assms by (simp add: verify_token_in_db_def verify_tokens_skip)
  ultimately show ?thesis
    by (simp add: create_router_with_auth_def auth_middleware_def del: strip_prefix.simps append.simps)
qed

text \<open>
  The interface only administers: whatever a request and its header are, the database
  afterwards is the one before with at most two writing methods of the administration applied,
  the record of the token's use and the one operation the route stands for. None of these
  touches leases.
\<close>

theorem api_only_administers:
  "\<exists>ops. length ops \<le> 2 \<and>
    snd (create_router_with_auth D cfg verify require_auth now tok hashed conn auth req db) =
      foldl (\<lambda>d x. admin_apply D x d) db ops"
  by (rule administers_router [unfolded administers_def])

theorem authenticated_witness:
  "\<exists>r db'. create_router_with_auth memory_database ra_default (token_verify Some (=)) True 5 [] (Inl [])
     (Some Tcp) (Some ''Bearer abc'') (PostSubnet lab_net) lab_token_db = (r, db') \<and>
     (\<forall>msg. r \<noteq> Inl (UNAUTHORIZED, msg)) \<and> (\<exists>token. ''Bearer abc'' = ''Bearer '' @ token \<and>
     (\<exists>i name. (i, name, token, 1) \<in> set (m_tokens lab_token_db)))"
proof -
  have h: "create_router_with_auth memory_database ra_default (token_verify Some (=)) True 5 [] (Inl [])
     (Some Tcp) (Some ''Bearer abc'') (PostSubnet lab_net) lab_token_db =
     (Inr (CREATED, IdBody 1), lab_token_db\<lparr> m_subnets := [lab_net\<lparr> s_id := Some 1 \<rparr>], next_subnet_id := 2 \<rparr>)"
    by code_simp
  then obtain token tokens hash where t: "Some ''Bearer abc'' = Some (''Bearer '' @ token)"
    "db_list_tokens memory_database lab_token_db = Inr tokens" "(hash, 1) \<in> set tokens"
    "token_verify Some (=) token hash = Inr True"
    using authenticated [OF h] by blast
  from t(2-4) have "(\<exists>i name. (i, name, token, 1) \<in> set (m_tokens lab_token_db))"
    by (auto simp: token_verify_def mem_list_tokens_def) blast
  with h t(1) show ?thesis by blast
qed

theorem valid_token_accepted_witness:
  "create_router_with_auth memory_database ra_default (token_verify Some (=)) True 5 [] (Inl [])
     (Some Tcp) (Some ''Bearer abc'') ListSubnets lab_token_db =
   route memory_database ra_default 5 [] (Inl []) ListSubnets lab_token_db"
proof -
  have "db_list_tokens memory_database lab_token_db = Inr ([] @ (''abc'', 1) # [])" by code_simp
  moreover have "token_verify Some (=) ''abc'' ''abc'' = Inr True" by code_simp
  ultimately show ?thesis
    using valid_token_accepted [of memory_database lab_token_db "[]" "''abc''" "[]" "token_verify Some (=)" "''abc''"
        ra_default 5 "[]" "Inl []" "Some Tcp" ListSubnets]
    by (simp add: mem_update_token_last_used_def)
qed



text \<open>
  Changing a subnet is not guarded: an update can move a subnet onto another one, which
  creating it there would have been refused.
\<close>

theorem update_subnet_overlaps:
  "let db = mem_new\<lparr> m_subnets := [lab_net\<lparr> s_id := Some 1 \<rparr>,
         lab_net\<lparr> s_id := Some 2, s_network := 0x0A000000 \<rparr>], next_subnet_id := 3 \<rparr>;
       (r, db') = update_subnet memory_database 2 lab_net db
   in r = Inr OK \<and> fst (create_subnet memory_database lab_net db) = Inl CONFLICT \<and>
      (case m_subnets db' of [a, b] \<Rightarrow> subnets_overlap (s_network a) (s_netmask a) (s_network b) (s_netmask b) | _ \<Rightarrow> False)"
  by code_simp

text \<open>
  What is created can be read back, and what is deleted is gone: over HTTP on the in-memory
  database, a created subnet is returned by its identifier with exactly the fields that were
  sent, other subnets are not affected by creation, update and deletion, an update of an existing
  subnet replaces it, and after a deletion the answer is 404.
\<close>

theorem subnet_crud:
  assumes "mem_inv (Suc n) db"
  shows "(case create_subnet memory_database s db of
        (Inr (c, i), db') \<Rightarrow> c = CREATED \<and> get_subnet memory_database i db' = Inr (s\<lparr> s_id := Some i \<rparr>) \<and>
          mem_inv n db' \<and> (\<forall>j. j \<noteq> i \<longrightarrow> get_subnet memory_database j db' = get_subnet memory_database j db)
      | (Inl e, db') \<Rightarrow> e = CONFLICT \<and> db' = db) \<and>
    (case update_subnet memory_database k s db of
        (r, db') \<Rightarrow> r = Inr OK \<and>
          (\<forall>j. get_subnet memory_database j db' =
             (if j = k \<and> get_subnet memory_database k db \<noteq> Inl NOT_FOUND then Inr (s\<lparr> s_id := Some k \<rparr>)
              else get_subnet memory_database j db))) \<and>
    (case delete_subnet memory_database k db of
        (r, db') \<Rightarrow> r = Inr NO_CONTENT \<and>
          (\<forall>j. get_subnet memory_database j db' =
             (if j = k then Inl NOT_FOUND else get_subnet memory_database j db)))"
proof (intro conjI)
  have ok: "table_ok s_id (Suc n) (m_subnets db) (next_subnet_id db)"
    using assms by (simp add: mem_inv_def)
  have get: "get_subnet memory_database j d =
      (case table_map s_id (m_subnets d) j of None \<Rightarrow> Inl NOT_FOUND | Some x \<Rightarrow> Inr x)" for j d
    by (simp add: get_subnet_def mem_get_subnet_def table_map_def ok_or_404_def or_500_def)
  have inv: "mem_inv n (snd (mem_create_subnet s db))"
    using mem_admin_inv [OF assms, of "CreateSubnet s"] by simp
  show "case create_subnet memory_database s db of
        (Inr (c, i), db') \<Rightarrow> c = CREATED \<and> get_subnet memory_database i db' = Inr (s\<lparr> s_id := Some i \<rparr>) \<and>
          mem_inv n db' \<and> (\<forall>j. j \<noteq> i \<longrightarrow> get_subnet memory_database j db' = get_subnet memory_database j db)
      | (Inl e, db') \<Rightarrow> e = CONFLICT \<and> db' = db"
    using subnet_table.create_map [OF ok, of s] subnet_table.create_result [of s db] inv
    by (cases "mem_create_subnet s db") (auto simp: create_subnet_def mem_list_subnets_def or_conflict_def get)
  show "case update_subnet memory_database k s db of
        (r, db') \<Rightarrow> r = Inr OK \<and>
          (\<forall>j. get_subnet memory_database j db' =
             (if j = k \<and> get_subnet memory_database k db \<noteq> Inl NOT_FOUND then Inr (s\<lparr> s_id := Some k \<rparr>)
              else get_subnet memory_database j db))"
    using subnet_table.update_map [of k s db] subnet_table.update_result [of k s db]
    by (cases "mem_update_subnet k s db") (auto simp: update_subnet_def or_500_def get split: option.splits)
  show "case delete_subnet memory_database k db of
        (r, db') \<Rightarrow> r = Inr NO_CONTENT \<and>
          (\<forall>j. get_subnet memory_database j db' =
             (if j = k then Inl NOT_FOUND else get_subnet memory_database j db))"
    using subnet_table.delete_map [of k db] subnet_table.delete_result [of k db]
    by (cases "mem_delete_subnet k db") (auto simp: delete_subnet_def or_500_def get)
qed

theorem subnet_crud_witness:
  "mem_inv 3 mem_new \<and>
   get_subnet memory_database 1 (snd (create_subnet memory_database lab_net mem_new)) = Inr (lab_net\<lparr> s_id := Some 1 \<rparr>)"
proof -
  have inv: "mem_inv (Suc 2) mem_new" by (rule mem_inv_new) (simp add: i64_max_def)
  have c: "create_subnet memory_database lab_net mem_new =
      (Inr (CREATED, 1), snd (create_subnet memory_database lab_net mem_new))" by code_simp
  from subnet_crud [OF inv, of lab_net] have "case create_subnet memory_database lab_net mem_new of
        (Inr (c, i), db') \<Rightarrow> c = CREATED \<and> get_subnet memory_database i db' = Inr (lab_net\<lparr> s_id := Some i \<rparr>) \<and>
          mem_inv 2 db' \<and> (\<forall>j. j \<noteq> i \<longrightarrow> get_subnet memory_database j db' = get_subnet memory_database j mem_new)
      | (Inl e, db') \<Rightarrow> e = CONFLICT \<and> db' = mem_new"
    by (rule conjunct1)
  then show ?thesis using inv by (subst (asm) c) (simp add: numeral_3_eq_3 numeral_2_eq_2)
qed

text \<open>
  The defaults for an IPv6 prefix: a lifetime that is zero in the request is stored as the
  configured default, any other as sent, and nothing else changes.
\<close>

theorem prefix_lifetimes_stored:
  "case create_ia_prefix memory_database cfg p db of
     (r, db') \<Rightarrow> r = Inr (CREATED, next_ia_prefix_id db) \<and>
       m_ia_prefixes db' = m_ia_prefixes db @ [p\<lparr> p_id := Some (next_ia_prefix_id db),
         p_preferred_lifetime := (if p_preferred_lifetime p = 0 then default_preferred_lifetime cfg else p_preferred_lifetime p),
         p_valid_lifetime := (if p_valid_lifetime p = 0 then default_valid_lifetime cfg else p_valid_lifetime p),
         p_dns_lifetime := (if p_dns_lifetime p = 0 then default_dns_lifetime cfg else p_dns_lifetime p) \<rparr>]"
  by (cases p) (simp add: create_ia_prefix_def mem_create_ia_prefix_def with_default_lifetimes_def Let_def or_500_def)

text \<open>
  One stored hash that does not parse locks out the tokens listed after it: the check stops
  with an error at that hash and answers 401 to a token that is valid and enabled.
\<close>

theorem malformed_hash_locks_out:
  "fst (create_router_with_auth memory_database ra_default
     (token_verify (\<lambda>h. if h = ''broken'' then None else Some h) (=)) True 5 [] (Inl [])
     (Some Tcp) (Some ''Bearer abc'') ListSubnets
     (mem_new\<lparr> m_tokens := [(1, ''old'', ''broken'', 1), (2, ''admin'', ''abc'', 1)] \<rparr>)) =
   Inl (UNAUTHORIZED, ''Invalid token'')"
  by code_simp

end
