(* ===== verification/Api_Concurrent.thy ===== *)
theory Api_Concurrent
  imports Dhcp_Concurrent Api_Server
begin

text \<open>
  The REST interface as programs over its awaits (\<open>handlers\<close>, \<open>auth\<close>): the requests of several
  connections, the DHCP server and the purge interleave between them. The check of a token and
  the two handlers that read before they write, \<open>create_subnet\<close> and \<open>toggle_token\<close>, have several
  awaits; every other handler calls the database at most once. Alone a program is the function
  of \<open>Api_Handlers\<close> or \<open>Api_Server\<close>.
\<close>

section \<open>Handlers\<close>

definition create_subnet_prog :: "'db database \<Rightarrow> subnet \<Rightarrow> ('db, status_code + status_code \<times> i64) prog" where
  "create_subnet_prog D subnet =
     ask (db_list_subnets D) (\<lambda>existing.
       case existing of
         Inl _ \<Rightarrow> Return (Inl INTERNAL_SERVER_ERROR)
       | Inr existing \<Rightarrow>
           if list_ex (\<lambda>e. subnets_overlap (s_network subnet) (s_netmask subnet) (s_network e) (s_netmask e)) existing
           then Return (Inl CONFLICT)
           else act (db_create_subnet D subnet) (\<lambda>r. Return (map_sum id (Pair CREATED) (or_conflict r))))"

definition toggle_token_prog :: "'db database \<Rightarrow> i64 \<Rightarrow> ('db, api_error + status_code) prog" where
  "toggle_token_prog D i =
     ask (db_list_api_tokens D) (\<lambda>tokens.
       case tokens of
         Inl _ \<Rightarrow> Return (Inl (INTERNAL_SERVER_ERROR, ''Failed to toggle token''))
       | Inr tokens \<Rightarrow>
           (case List.find (\<lambda>t. tk_id t = Some i) tokens of
              None \<Rightarrow> Return (Inl (NOT_FOUND, ''Token not found''))
            | Some token \<Rightarrow>
                act (db_toggle_token D i (\<not> tk_enabled token)) (\<lambda>r.
                  case r of
                    Inr _ \<Rightarrow> Return (Inr OK)
                  | Inl _ \<Rightarrow> Return (Inl (INTERNAL_SERVER_ERROR, ''Failed to toggle token'')))))"

fun route_prog ::
  "'db database \<Rightarrow> ra_config \<Rightarrow> i64 \<Rightarrow> string \<Rightarrow> (string + string \<times> string) \<Rightarrow> api_request \<Rightarrow>
   ('db, api_error + status_code \<times> api_body) prog" where
  "route_prog D cfg now tok hashed (PostSubnet s) =
     bind_prog (create_subnet_prog D s) (\<lambda>r. Return (reply (map_prod id IdBody) r))"
| "route_prog D cfg now tok hashed (PatchToggle i) =
     bind_prog (toggle_token_prog D i) (\<lambda>r. Return (map_sum id (\<lambda>c. (c, NoBody)) r))"
| "route_prog D cfg now tok hashed Health = Return (Inr (fst health_check, HealthBody (snd health_check)))"
| "route_prog D cfg now tok hashed req = act (route D cfg now tok hashed req) Return"

section \<open>Authentication\<close>

fun verify_tokens_prog ::
  "'db database \<Rightarrow> (string \<Rightarrow> string \<Rightarrow> string + bool) \<Rightarrow> i64 \<Rightarrow> string \<Rightarrow> (string \<times> i64) list \<Rightarrow>
   ('db, auth_error + bool) prog" where
  "verify_tokens_prog D verify now token [] = Return (Inr False)"
| "verify_tokens_prog D verify now token ((token_hash, enabled) # ts) =
     (case verify token token_hash of
        Inl e \<Rightarrow> Return (Inl (VerifyFailed e))
      | Inr True \<Rightarrow> act (db_update_token_last_used D now token_hash) (\<lambda>_. Return (Inr (enabled = 1)))
      | Inr False \<Rightarrow> verify_tokens_prog D verify now token ts)"

definition verify_token_prog ::
  "'db database \<Rightarrow> (string \<Rightarrow> string \<Rightarrow> string + bool) \<Rightarrow> i64 \<Rightarrow> string \<Rightarrow> ('db, auth_error + bool) prog" where
  "verify_token_prog D verify now token =
     ask (db_list_tokens D) (\<lambda>tokens.
       case tokens of
         Inl e \<Rightarrow> Return (Inl (DbFailed e))
       | Inr tokens \<Rightarrow> verify_tokens_prog D verify now token tokens)"

definition auth_prog ::
  "'db database \<Rightarrow> (string \<Rightarrow> string \<Rightarrow> string + bool) \<Rightarrow> i64 \<Rightarrow> connection_type option \<Rightarrow> string option \<Rightarrow>
   ('db, api_error + 'a) prog \<Rightarrow> ('db, api_error + 'a) prog" where
  "auth_prog D verify now conn_type auth_header nxt =
     (if conn_type = Some UnixSocket then nxt
      else case auth_header of
        None \<Rightarrow> Return (Inl (UNAUTHORIZED, ''Missing Authorization header''))
      | Some header \<Rightarrow>
          (case strip_prefix ''Bearer '' header of
             None \<Rightarrow> Return (Inl (UNAUTHORIZED,
               ''Invalid Authorization header format. Expected: Bearer <token>''))
           | Some token \<Rightarrow>
               bind_prog (verify_token_prog D verify now token) (\<lambda>r.
                 case r of
                   Inl _ \<Rightarrow> Return (Inl (UNAUTHORIZED, ''Invalid token''))
                 | Inr valid \<Rightarrow>
                     if \<not> valid then Return (Inl (UNAUTHORIZED, ''Invalid or disabled token'')) else nxt)))"

definition router_prog ::
  "'db database \<Rightarrow> ra_config \<Rightarrow> (string \<Rightarrow> string \<Rightarrow> string + bool) \<Rightarrow> bool \<Rightarrow> i64 \<Rightarrow> string \<Rightarrow>
   (string + string \<times> string) \<Rightarrow> connection_type option \<Rightarrow> string option \<Rightarrow> api_request \<Rightarrow>
   ('db, api_error + status_code \<times> api_body) prog" where
  "router_prog D cfg verify require_auth now tok hashed conn auth req =
     (if require_auth \<and> req \<noteq> Health
      then auth_prog D verify now conn auth (route_prog D cfg now tok hashed req)
      else route_prog D cfg now tok hashed req)"

section \<open>Alone\<close>

lemma create_subnet_alone [simp]: "run_alone (create_subnet_prog D s) db = create_subnet D s db"
  by (auto simp: create_subnet_prog_def create_subnet_def split: sum.split prod.split)

lemma toggle_token_alone [simp]: "run_alone (toggle_token_prog D i) db = toggle_token D i db"
  by (auto simp: toggle_token_prog_def toggle_token_def split: sum.split prod.split option.split)

lemma route_alone [simp]: "run_alone (route_prog D cfg now tok hashed req) db = route D cfg now tok hashed req db"
  by (cases req) (simp_all add: map_prod_def split: prod.split)

lemma verify_tokens_alone [simp]:
  "run_alone (verify_tokens_prog D verify now token ts) db = verify_tokens D verify now token ts db"
  by (induction ts) (auto split: sum.split bool.split)

lemma verify_token_alone [simp]:
  "run_alone (verify_token_prog D verify now token) db = verify_token_in_db D verify now token db"
  by (simp add: verify_token_prog_def verify_token_in_db_def split: sum.split)

lemma auth_alone:
  assumes "\<And>db. run_alone nxt db = nxt' db"
  shows "run_alone (auth_prog D verify now conn auth nxt) db = auth_middleware D verify now conn auth nxt' db"
  by (simp add: auth_prog_def auth_middleware_def assms split: option.split prod.split sum.split)

lemma router_alone:
  "run_alone (router_prog D cfg verify require_auth now tok hashed conn auth req) db =
     create_router_with_auth D cfg verify require_auth now tok hashed conn auth req db"
  by (simp add: router_prog_def create_router_with_auth_def auth_alone [OF route_alone])

section \<open>What a request does to the database\<close>

text \<open>At each await it reads or applies one writing method of the administration.\<close>

inductive administrative :: "'db database \<Rightarrow> ('db, 'r) prog \<Rightarrow> bool" for D where
  adm_Return: "administrative D (Return r)"
| adm_Await: "(\<And>db. administrative D (fst (k db))) \<Longrightarrow>
    (\<And>db. snd (k db) = db \<or> (\<exists>x. snd (k db) = admin_apply D x db)) \<Longrightarrow> administrative D (Await k)"

inductive_cases administrative_AwaitE: "administrative D (Await k)"

lemma adm_ask: "(\<And>x. administrative D (g x)) \<Longrightarrow> administrative D (ask f g)"
  unfolding ask_def by (rule adm_Await) simp_all

lemma adm_act:
  "(\<And>x. administrative D (g x)) \<Longrightarrow> (\<And>db. snd (f db) = db \<or> (\<exists>x. snd (f db) = admin_apply D x db)) \<Longrightarrow>
   administrative D (act f g)"
  unfolding act_def by (rule adm_Await) simp_all

text \<open>The writing methods in the form in which the programs call them.\<close>

lemma adm_create_subnet: "(\<And>x. administrative D (g x)) \<Longrightarrow> administrative D (act (db_create_subnet D s) g)"
  using admin_apply.simps(1) [of D s] by (intro adm_act) metis+

lemma adm_toggle_token: "(\<And>x. administrative D (g x)) \<Longrightarrow> administrative D (act (db_toggle_token D i b) g)"
  using admin_apply.simps(14) [of D i b] by (intro adm_act) metis+

lemma adm_token_used:
  "(\<And>x. administrative D (g x)) \<Longrightarrow> administrative D (act (db_update_token_last_used D now h) g)"
  using admin_apply.simps(15) [of D now h] by (intro adm_act) metis+

lemmas adm_intros = adm_Return adm_ask adm_create_subnet adm_toggle_token adm_token_used

lemma adm_bind: "administrative D p \<Longrightarrow> (\<And>x. administrative D (f x)) \<Longrightarrow> administrative D (bind_prog p f)"
proof (induction rule: administrative.induct)
  case (adm_Await k)
  have "administrative D (Await (\<lambda>db. map_prod (\<lambda>p. bind_prog p f) id (k db)))"
    by (rule administrative.adm_Await) (simp_all add: adm_Await)
  then show ?case by simp
qed simp

lemma adm_route: "administrative D (route_prog D cfg now tok hashed req)"
proof -
  have one: "administrative D (act (route D cfg now tok hashed req) Return)"
    by (rule adm_act [OF adm_Return]) (auto simp: route_effect split: option.split)
  have "administrative D (create_subnet_prog D s)" for s
    unfolding create_subnet_prog_def
    by (auto intro!: adm_intros split: sum.split)
  moreover have "administrative D (toggle_token_prog D i)" for i
    unfolding toggle_token_prog_def
    by (auto intro!: adm_intros split: sum.split option.split)
  ultimately show ?thesis using one by (cases req) (auto intro: adm_bind adm_Return)
qed

lemma adm_verify_tokens: "administrative D (verify_tokens_prog D verify now token ts)"
  by (induction ts) (auto intro!: adm_intros split: sum.split bool.split)

lemma adm_verify_token: "administrative D (verify_token_prog D verify now token)"
  unfolding verify_token_prog_def
  by (auto intro!: adm_ask adm_Return adm_verify_tokens split: sum.split)

lemma adm_router: "administrative D (router_prog D cfg verify require_auth now tok hashed conn auth req)"
  unfolding router_prog_def auth_prog_def
  by (auto intro!: adm_route adm_bind adm_verify_token adm_Return split: option.split sum.split)

section \<open>Authentication, whatever the other tasks do\<close>

lemma play_verify_tokens:
  assumes "play (verify_tokens_prog D verify now token ts) ds = Some (v, ws)"
  shows "(v = Inr True \<longrightarrow> (\<exists>h. (h, 1) \<in> set ts \<and> verify token h = Inr True)) \<and>
    (\<forall>(d, d')\<in>set ws. d' = d \<or> (\<exists>h. d' = snd (db_update_token_last_used D now h d)))"
  using assms
proof (induction ts)
  case (Cons t ts)
  obtain h e where t: "t = (h, e)" by fastforce
  with Cons show ?case by (cases "verify token h") (auto split: bool.splits list.splits)
qed auto

lemma play_verify_token:
  assumes "play (verify_token_prog D verify now token) ds = Some (v, ws)"
  shows "(v = Inr True \<longrightarrow> (\<exists>d tokens h. hd ds = d \<and> ds \<noteq> [] \<and> db_list_tokens D d = Inr tokens \<and>
        (h, 1) \<in> set tokens \<and> verify token h = Inr True)) \<and>
    (\<forall>(d, d')\<in>set ws. d' = d \<or> (\<exists>h. d' = snd (db_update_token_last_used D now h d)))"
proof (cases ds)
  case (Cons d ds')
  show ?thesis
  proof (cases "db_list_tokens D d")
    case (Inr tokens)
    with assms Cons obtain vs where "play (verify_tokens_prog D verify now token tokens) ds' = Some (v, vs)"
      and "ws = (d, d) # vs"
      by (auto simp: verify_token_prog_def)
    with play_verify_tokens [OF this(1)] Inr Cons show ?thesis by auto
  qed (use assms Cons in \<open>auto simp: verify_token_prog_def\<close>)
qed (use assms in \<open>simp add: verify_token_prog_def\<close>)

lemma play_route_not_unauthorized:
  assumes "play (route_prog D cfg now tok hashed req) ds = Some (r, ws)"
  shows "r \<noteq> Inl (UNAUTHORIZED, msg)"
proof -
  have one: "r \<noteq> Inl (UNAUTHORIZED, msg)"
    if "play (act (route D cfg now tok hashed req) Return) ds = Some (r, ws)"
    using that route_not_unauthorized [of D cfg now tok hashed req _ msg] by (auto split: list.splits)
  have "r \<noteq> Inl (UNAUTHORIZED, msg)" if "play (route_prog D cfg now tok hashed (PostSubnet s)) ds = Some (r, ws)" for s
  proof -
    from that obtain x where "r = reply (map_prod id IdBody) x"
      and "x \<in> {Inl INTERNAL_SERVER_ERROR, Inl CONFLICT} \<union> range Inr"
      by (auto simp: create_subnet_prog_def or_conflict_def split: list.splits sum.splits if_splits)
    then show ?thesis by (auto simp: reply_def)
  qed
  moreover have "r \<noteq> Inl (UNAUTHORIZED, msg)"
    if "play (route_prog D cfg now tok hashed (PatchToggle i)) ds = Some (r, ws)" for i
    using that by (auto simp: toggle_token_prog_def split: list.splits sum.splits option.splits)
  ultimately show ?thesis using assms one by (cases req) auto
qed

lemma play_router_checked:
  assumes "play (router_prog D cfg verify True now tok hashed conn auth req) ds = Some (r, ws)"
    and "req \<noteq> Health" and "conn \<noteq> Some UnixSocket"
  shows "if \<exists>msg. r = Inl (UNAUTHORIZED, msg)
    then \<forall>(d, d')\<in>set ws. d' = d \<or> (\<exists>h. d' = snd (db_update_token_last_used D now h d))
    else ds \<noteq> [] \<and> (\<exists>token tokens h us vs. auth = Some (''Bearer '' @ token) \<and>
      db_list_tokens D (hd ds) = Inr tokens \<and> (h, 1) \<in> set tokens \<and> verify token h = Inr True \<and>
      ws = us @ vs \<and> play (route_prog D cfg now tok hashed req) (drop (length us) ds) = Some (r, vs))"
proof (cases auth)
  case None
  with assms show ?thesis by (auto simp: router_prog_def auth_prog_def)
next
  case (Some header)
  show ?thesis
  proof (cases "strip_prefix ''Bearer '' header")
    case None
    with assms Some show ?thesis by (auto simp: router_prog_def auth_prog_def)
  next
    case token: (Some token)
    from assms Some token obtain v us vs where v: "play (verify_token_prog D verify now token) ds = Some (v, us)"
      and w: "ws = us @ vs"
      and rest: "play (case v of Inl _ \<Rightarrow> Return (Inl (UNAUTHORIZED, ''Invalid token''))
          | Inr valid \<Rightarrow> if \<not> valid then Return (Inl (UNAUTHORIZED, ''Invalid or disabled token''))
              else route_prog D cfg now tok hashed req) (drop (length us) ds) = Some (r, vs)"
      by (auto simp: router_prog_def auth_prog_def play_bind)
    show ?thesis
    proof (cases "v = Inr True")
      case True
      with rest have r: "play (route_prog D cfg now tok hashed req) (drop (length us) ds) = Some (r, vs)" by simp
      with True play_verify_token [OF v] play_route_not_unauthorized [OF r] w Some token
      show ?thesis by (auto simp: strip_prefix_Some)
    next
      case False
      with rest have "\<exists>msg. r = Inl (UNAUTHORIZED, msg)" and "vs = []" by (auto split: sum.splits if_splits)
      with play_verify_token [OF v] w show ?thesis by simp
    qed
  qed
qed

lemma play_router_passed:
  assumes "play (router_prog D cfg verify True now tok hashed None auth req) ds = Some (r, ws)"
    and "req \<noteq> Health" and "\<forall>msg. r \<noteq> Inl (UNAUTHORIZED, msg)"
  obtains token tokens h where "ds \<noteq> []" and "auth = Some (''Bearer '' @ token)"
    and "db_list_tokens D (hd ds) = Inr tokens" and "(h, 1) \<in> set tokens" and "verify token h = Inr True"
  using play_router_checked [OF assms(1,2)] assms(3) by auto

section \<open>Properties\<close>

text \<open>
  The awaits change nothing of what a request does when no other task runs in between.
\<close>

theorem router_prog_alone:
  "run_alone (router_prog D cfg verify require_auth now tok hashed conn auth req) =
     create_router_with_auth D cfg verify require_auth now tok hashed conn auth req"
  by (rule ext) (rule router_alone)

text \<open>
  Whatever the other tasks do between the awaits of a request (\<open>ds\<close> are the databases that
  it finds, in any relation to each other), a request over TCP that needs authentication is
  either answered 401, and then has written nothing but the time of a token's use, or its header
  is \<open>Bearer\<close> and a token that verifies the hash of an enabled token listed at the first await,
  and the answer is the one of its handler at the remaining awaits.
\<close>

theorem authenticated_interleaved:
  assumes "play (router_prog D cfg verify True now tok hashed conn auth req) ds = Some (r, ws)"
    and "req \<noteq> Health" and "conn \<noteq> Some UnixSocket"
  shows "if \<exists>msg. r = Inl (UNAUTHORIZED, msg)
    then \<forall>(d, d')\<in>set ws. d' = d \<or> (\<exists>h. d' = snd (db_update_token_last_used D now h d))
    else ds \<noteq> [] \<and> (\<exists>token tokens h us vs. auth = Some (''Bearer '' @ token) \<and>
      db_list_tokens D (hd ds) = Inr tokens \<and> (h, 1) \<in> set tokens \<and> verify token h = Inr True \<and>
      ws = us @ vs \<and> play (route_prog D cfg now tok hashed req) (drop (length us) ds) = Some (r, vs))"
  by (rule play_router_checked [OF assms])

text \<open>The token is disabled after the check and before the handler: the request is still served.\<close>

theorem authenticated_interleaved_witness:
  "\<exists>ws. play (router_prog memory_database ra_default (token_verify Some (=)) True 5 [] (Inl [])
       (Some Tcp) (Some ''Bearer abc'') ListSubnets)
     [lab_token_db, lab_token_db, snd (toggle_token memory_database 1 lab_token_db)] = Some (Inr (OK, SubnetsBody []), ws) \<and>
     (\<exists>tokens h. db_list_tokens memory_database lab_token_db = Inr tokens \<and> (h, 1) \<in> set tokens \<and>
       token_verify Some (=) ''abc'' h = Inr True)"
proof -
  let ?p = "router_prog memory_database ra_default (token_verify Some (=)) True 5 [] (Inl [])
       (Some Tcp) (Some ''Bearer abc'') ListSubnets"
  let ?off = "snd (toggle_token memory_database 1 lab_token_db)"
  let ?ws = "[(lab_token_db, lab_token_db), (lab_token_db, lab_token_db), (?off, ?off)]"
  have p: "play ?p [lab_token_db, lab_token_db, ?off] = Some (Inr (OK, SubnetsBody []), ?ws)" by code_simp
  from authenticated_interleaved [OF p] obtain token tokens h where "Some ''Bearer abc'' = Some (''Bearer '' @ token)"
    "db_list_tokens memory_database lab_token_db = Inr tokens" "(h, 1) \<in> set tokens"
    "token_verify Some (=) token h = Inr True" by auto
  with p show ?thesis by auto
qed

text \<open>
  Between the check and the insertion another request may be answered: both are told 201 Created
  and the subnets overlap, which neither order of the two requests allows.
\<close>

theorem overlap_race:
  "let other = lab_net\<lparr> s_network := 0xC0A80180, s_netmask := 25 \<rparr>;
       (r, db) = run_under (create_subnet_prog memory_database lab_net)
         [id, \<lambda>db. snd (create_subnet memory_database other db)] mem_new
   in r = Inr (CREATED, 2) \<and> fst (create_subnet memory_database other mem_new) = Inr (CREATED, 1) \<and>
      (case m_subnets db of [a, b] \<Rightarrow> subnets_overlap (s_network a) (s_netmask a) (s_network b) (s_netmask b)
       | _ \<Rightarrow> False) \<and>
      fst (create_subnet memory_database lab_net (snd (create_subnet memory_database other mem_new))) = Inl CONFLICT"
  by code_simp

text \<open>
  Two requests to toggle a token that both read before either writes: the second undoes nothing,
  and the token that two toggles should leave as it was is disabled.
\<close>

theorem toggle_race:
  "let (r, db) = run_under (toggle_token_prog memory_database 1)
         [id, \<lambda>db. snd (toggle_token memory_database 1 db)] lab_token_db
   in r = Inr OK \<and> m_tokens db = [(1, ''admin'', ''abc'', 0)] \<and>
      snd (toggle_token memory_database 1 (snd (toggle_token memory_database 1 lab_token_db))) = lab_token_db"
  by code_simp

end
