(* ===== verification/Ra_Packet.thy ===== *)
theory Ra_Packet
  imports Models
begin

text \<open>
  The Router Advertisement payload (\<open>crates/ndhcpd/src/ra/packet.rs\<close>). The DNS servers of all
  prefixes go through a \<open>HashSet\<close>, whose iteration order is not specified: it is the argument
  \<open>hash_order\<close>, of which the properties assume that it lists the members of its argument,
  each once. \<open>ra_decode\<close> is a decoder written from RFC 4861 and RFC 6106, the reference
  against which the builder is proved.
\<close>

section \<open>The builder\<close>

definition ICMPV6_TYPE_RS :: u8 where
  "ICMPV6_TYPE_RS = 133"

definition ICMPV6_TYPE_RA :: u8 where
  "ICMPV6_TYPE_RA = 134"

text \<open>\<open>Ipv6Addr::octets\<close>.\<close>

definition octets6 :: "ipv6 \<Rightarrow> bytes" where
  "octets6 w = map (\<lambda>i. ucast (drop_bit (8 * (15 - i)) w)) [0..<16]"

definition prefix_option :: "ia_prefix \<Rightarrow> bytes" where
  "prefix_option p =
     [3, 4, p_prefix_len p, 0xC0] @ be32 (p_valid_lifetime p) @ be32 (p_preferred_lifetime p) @
     be32 0 @ octets6 (p_prefix p)"

text \<open>\<open>prefixes.iter().map(|p| p.dns_lifetime).max().unwrap_or(3600)\<close>.\<close>

fun max_dns_lifetime :: "ia_prefix list \<Rightarrow> u32" where
  "max_dns_lifetime [] = 3600"
| "max_dns_lifetime [p] = p_dns_lifetime p"
| "max_dns_lifetime (p # ps) = max (p_dns_lifetime p) (max_dns_lifetime ps)"

definition rdnss_option :: "ia_prefix list \<Rightarrow> ipv6 list \<Rightarrow> bytes" where
  "rdnss_option ps dns_servers =
     (if dns_servers = [] then []
      else [25, of_nat (1 + 2 * length dns_servers), 0, 0] @ be32 (max_dns_lifetime ps) @
        concat (map octets6 dns_servers))"

definition build_router_advertisement ::
  "(ipv6 list \<Rightarrow> ipv6 list) \<Rightarrow> ia_prefix list \<Rightarrow> u8 \<Rightarrow> u16 \<Rightarrow> bool \<Rightarrow> bool \<Rightarrow> bytes" where
  "build_router_advertisement hash_order ps cur_hop_limit router_lifetime_secs managed other =
     [ICMPV6_TYPE_RA, 0, 0, 0] @
     [cur_hop_limit, (if managed then 0x80 else 0) OR (if other then 0x40 else 0)] @
     be16 router_lifetime_secs @ be32 0 @ be32 0 @
     concat (map prefix_option ps) @
     rdnss_option ps (hash_order (concat (map p_dns_servers ps)))"

section \<open>The reference decoder\<close>

record ra_header =
  ra_hop_limit :: u8
  ra_managed :: bool
  ra_other :: bool
  ra_router_lifetime :: u16

datatype nd_option =
    PrefixInformation u8 bool bool u32 u32 ipv6
      \<comment> \<open>length, on-link, autonomous, valid and preferred lifetime, prefix\<close>
  | Rdnss u32 "ipv6 list"
  | OtherOption u8 bytes

definition of_octets6 :: "bytes \<Rightarrow> ipv6" where
  "of_octets6 bs = foldl (\<lambda>w b. push_bit 8 w OR ucast b) 0 bs"

fun ipv6_chunks :: "nat \<Rightarrow> bytes \<Rightarrow> ipv6 list" where
  "ipv6_chunks 0 bs = []"
| "ipv6_chunks (Suc n) bs = of_octets6 (take 16 bs) # ipv6_chunks n (drop 16 bs)"

definition nd_option_of :: "u8 \<Rightarrow> bytes \<Rightarrow> nd_option" where
  "nd_option_of t body =
     (if t = 3 \<and> length body = 30
      then PrefixInformation (body ! 0) (bit (body ! 1) 7) (bit (body ! 1) 6) (be32_at body 2)
        (be32_at body 6) (of_octets6 (drop 14 body))
      else if t = 25 then Rdnss (be32_at body 2) (ipv6_chunks ((length body - 6) div 16) (drop 6 body))
      else OtherOption t body)"

text \<open>Type, length in units of eight bytes, body; a length of zero or beyond the end is an error.\<close>

function nd_options :: "bytes \<Rightarrow> nd_option list option" where
  "nd_options bs =
     (if bs = [] then Some []
      else if length bs < 2 \<or> bs ! 1 = 0 \<or> length bs < 8 * unat (bs ! 1) then None
      else map_option (Cons (nd_option_of (bs ! 0) (drop 2 (take (8 * unat (bs ! 1)) bs))))
        (nd_options (drop (8 * unat (bs ! 1)) bs)))"
  by pat_completeness auto
termination
  by (relation "measure length") (auto simp: unat_gt_0)

declare nd_options.simps [simp del]

definition ra_decode :: "bytes \<Rightarrow> (ra_header \<times> nd_option list) option" where
  "ra_decode bs =
     (if length bs < 16 \<or> bs ! 0 \<noteq> 134 \<or> bs ! 1 \<noteq> 0 then None
      else map_option (Pair \<lparr> ra_hop_limit = bs ! 4, ra_managed = bit (bs ! 5) 7, ra_other = bit (bs ! 5) 6,
          ra_router_lifetime = of_be16 (bs ! 6) (bs ! 7) \<rparr>) (nd_options (drop 16 bs)))"

section \<open>Lemmas\<close>

lemma length_octets6 [simp]: "length (octets6 w) = 16"
  by (simp add: octets6_def)

lemma length_prefix_option [simp]: "length (prefix_option p) = 32"
  by (simp add: prefix_option_def)

lemma low_byte_or: "push_bit 8 (drop_bit 8 w) OR ucast (ucast w :: u8) = w" for w :: ipv6
  by (rule bit_eqI) (auto simp: bit_simps)

lemma of_octets6_octets6 [simp]: "of_octets6 (octets6 w) = w"
proof -
  have "foldl (\<lambda>w b. push_bit 8 w OR ucast b) 0 (map (\<lambda>i. ucast (drop_bit (8 * (15 - i)) w) :: u8) [0..<k]) =
      drop_bit (8 * (16 - k)) w" if "k \<le> 16" for k
    using that
  proof (induction k)
    case 0
    show ?case by (simp add: bit_eq_iff bit_simps)
  next
    case (Suc k)
    let ?x = "drop_bit (8 * (15 - k)) w"
    have "drop_bit (8 * (16 - k)) w = drop_bit 8 ?x"
      using Suc.prems by (simp add: Suc_diff_le algebra_simps)
    with Suc show ?case using low_byte_or [of ?x] by simp
  qed
  from this [of 16] show ?thesis by (simp add: of_octets6_def octets6_def)
qed

lemma ipv6_chunks_octets [simp]: "ipv6_chunks (length addrs) (concat (map octets6 addrs)) = addrs"
  by (induction addrs) simp_all

lemma length_concat_octets6 [simp]: "length (concat (map octets6 addrs)) = 16 * length addrs"
  by (induction addrs) simp_all

lemma nd_options_cons:
  assumes "length body + 2 = 8 * unat n" and "0 < unat n"
  shows "nd_options ((t # n # body) @ rest) = map_option (Cons (nd_option_of t body)) (nd_options rest)"
proof -
  have "drop 2 (take (8 * unat n) ((t # n # body) @ rest)) = body"
    and "drop (8 * unat n) ((t # n # body) @ rest) = rest"
    using assms(1) by (auto simp: numeral_2_eq_2 simp flip: assms(1))
  then show ?thesis
    using assms by (subst nd_options.simps) (auto simp: unat_eq_zero)
qed

definition decoded_prefix :: "ia_prefix \<Rightarrow> nd_option" where
  "decoded_prefix p = PrefixInformation (p_prefix_len p) True True (p_valid_lifetime p)
     (p_preferred_lifetime p) (p_prefix p)"

lemma nd_options_prefix:
  "nd_options (prefix_option p @ rest) = map_option (Cons (decoded_prefix p)) (nd_options rest)"
proof -
  let ?body = "[p_prefix_len p, 0xC0] @ be32 (p_valid_lifetime p) @ be32 (p_preferred_lifetime p) @
    be32 0 @ octets6 (p_prefix p)"
  have "nd_option_of 3 ?body = decoded_prefix p"
    by (simp add: nd_option_of_def decoded_prefix_def be32_def be32_at_def be_simps bit_numeral_word_iff)
  with nd_options_cons [of ?body 4 3 rest] show ?thesis by (simp add: prefix_option_def)
qed

lemma nd_options_ps:
  "nd_options (concat (map prefix_option ps) @ rest) =
     map_option (append (map decoded_prefix ps)) (nd_options rest)"
  by (induction ps) (simp_all add: nd_options_prefix option.map_comp comp_def option.map_ident)

lemma nd_options_rdnss:
  assumes "length dns \<le> 127"
  shows "nd_options (rdnss_option ps dns) =
    Some (if dns = [] then [] else [Rdnss (max_dns_lifetime ps) dns])"
proof (cases "dns = []")
  case False
  let ?n = "of_nat (1 + 2 * length dns) :: u8"
  let ?body = "[0, 0] @ be32 (max_dns_lifetime ps) @ concat (map octets6 dns)"
  have n: "unat ?n = 1 + 2 * length dns"
    using assms by (subst unat_of_nat) (simp add: take_bit_nat_eq_self)
  have "nd_option_of 25 ?body = Rdnss (max_dns_lifetime ps) dns"
    by (simp add: nd_option_of_def be32_def be32_at_def be_simps)
  moreover have "nd_options [] = Some []" by (simp add: nd_options.simps)
  ultimately show ?thesis
    using False n nd_options_cons [of ?body ?n 25 "[]"] by (simp add: rdnss_option_def)
qed (simp add: rdnss_option_def nd_options.simps)

lemma ra_decode_build:
  assumes "\<And>xs. set (hash_order xs) = set xs" and "\<And>xs. distinct (hash_order xs)"
    and "card (\<Union>p\<in>set ps. set (p_dns_servers p)) \<le> 127"
  shows "\<exists>dns. set dns = (\<Union>p\<in>set ps. set (p_dns_servers p)) \<and> distinct dns \<and>
    ra_decode (build_router_advertisement hash_order ps hop life managed other) =
      Some (\<lparr> ra_hop_limit = hop, ra_managed = managed, ra_other = other, ra_router_lifetime = life \<rparr>,
        map (\<lambda>p. PrefixInformation (p_prefix_len p) True True (p_valid_lifetime p)
          (p_preferred_lifetime p) (p_prefix p)) ps @
        (if dns = [] then [] else [Rdnss (max_dns_lifetime ps) dns]))"
proof -
  let ?dns = "hash_order (concat (map p_dns_servers ps))"
  have set: "set ?dns = (\<Union>p\<in>set ps. set (p_dns_servers p))" and d: "distinct ?dns"
    using assms(1,2) by simp_all
  then have "length ?dns \<le> 127" using assms(3) distinct_card [OF d] by simp
  then have "ra_decode (build_router_advertisement hash_order ps hop life managed other) =
      Some (\<lparr> ra_hop_limit = hop, ra_managed = managed, ra_other = other, ra_router_lifetime = life \<rparr>,
        map decoded_prefix ps @ (if ?dns = [] then [] else [Rdnss (max_dns_lifetime ps) ?dns]))"
    by (simp add: build_router_advertisement_def ra_decode_def nd_options_ps nd_options_rdnss
        ICMPV6_TYPE_RA_def be16_def be32_def be_simps bit_or_iff bit_numeral_word_iff)
  with set d show ?thesis by (auto simp: decoded_prefix_def [abs_def])
qed

section \<open>Properties\<close>

text \<open>
  C35. A receiver that follows RFC 4861 and RFC 6106 reads from the advertisement exactly what
  was put in: the hop limit, flags and router lifetime, one on-link autonomous prefix option per
  configured prefix, in order and with its lifetimes, and, if there is any DNS server, one
  RDNSS option that lists each of them once with the longest DNS lifetime - as long as there are at
  most 127 distinct servers.
\<close>

theorem ra_decodes:
  assumes "\<And>xs. set (hash_order xs) = set xs" and "\<And>xs. distinct (hash_order xs)"
    and "card (\<Union>p\<in>set ps. set (p_dns_servers p)) \<le> 127"
  shows "\<exists>dns. set dns = (\<Union>p\<in>set ps. set (p_dns_servers p)) \<and> distinct dns \<and>
    ra_decode (build_router_advertisement hash_order ps hop life managed other) =
      Some (\<lparr> ra_hop_limit = hop, ra_managed = managed, ra_other = other, ra_router_lifetime = life \<rparr>,
        map (\<lambda>p. PrefixInformation (p_prefix_len p) True True (p_valid_lifetime p)
          (p_preferred_lifetime p) (p_prefix p)) ps @
        (if dns = [] then [] else [Rdnss (max_dns_lifetime ps) dns]))"
  by (rule ra_decode_build [OF assms])

theorem ra_decodes_witness:
  "\<exists>dns. set dns = {0x20010DB8000000000000000000000001} \<and>
    ra_decode (build_router_advertisement remdups
      [\<lparr> p_id = None, p_interface = ''eth0'', p_prefix = 0x20010DB8000000000000000000000000,
         p_prefix_len = 64, p_preferred_lifetime = 14400, p_valid_lifetime = 86400,
         p_dns_servers = [0x20010DB8000000000000000000000001, 0x20010DB8000000000000000000000001],
         p_dns_lifetime = 3600 \<rparr>] 64 1800 False False) =
      Some (\<lparr> ra_hop_limit = 64, ra_managed = False, ra_other = False, ra_router_lifetime = 1800 \<rparr>,
        [PrefixInformation 64 True True 86400 14400 0x20010DB8000000000000000000000000,
         Rdnss 3600 dns])"
  using ra_decodes [of remdups "[\<lparr> p_id = None, p_interface = ''eth0'', p_prefix = 0x20010DB8000000000000000000000000,
         p_prefix_len = 64, p_preferred_lifetime = 14400, p_valid_lifetime = 86400,
         p_dns_servers = [0x20010DB8000000000000000000000001, 0x20010DB8000000000000000000000001],
         p_dns_lifetime = 3600 \<rparr>]" 64 1800 False False]
  by (auto simp: card_insert_if)

text \<open>
  With 128 distinct DNS servers the length byte of the RDNSS option wraps: the option has 2056
  bytes and announces one unit of eight, so a receiver reads the addresses as further options.
\<close>

theorem rdnss_length_wraps:
  assumes "length dns = 128"
  shows "take 2 (rdnss_option ps dns) = [25, 1] \<and> length (rdnss_option ps dns) = 2056"
  using assms by (auto simp: rdnss_option_def)

theorem rdnss_length_wraps_witness:
  "take 2 (rdnss_option [] (map of_nat [0..<128])) = [25, 1] \<and>
   length (rdnss_option [] (map of_nat [0..<128])) = 2056"
  by (rule rdnss_length_wraps) simp

end
