(* ===== verification/Interface_Info.thy ===== *)
theory Interface_Info
  imports Network_Util
begin

text \<open>
  The lookups that walk the list of \<open>getifaddrs(3)\<close>: \<open>get_interface_ips\<close>
  (\<open>dhcp/server.rs\<close>), \<open>get_link_local_addr\<close> and the FreeBSD \<open>get_iface_mac\<close>
  (\<open>utils/network.rs\<close>). The answer of the system call is the argument: \<open>None\<close> when it
  fails, otherwise its linked list. A socket address is decoded by its family, with addresses in
  host order.
\<close>

datatype sock_addr =
    AfInet ipv4
  | AfInet6 ipv6
  | AfLink nat nat bytes  \<comment> \<open>\<open>sdl_nlen\<close>, \<open>sdl_alen\<close>, \<open>sdl_data\<close>\<close>
  | AfOther

record ifaddr =
  ifa_name :: bytes
  ifa_addr :: "sock_addr option"

text \<open>\<open>CStr::to_string_lossy(ifa_name) == interface\<close>.\<close>

definition named :: "string \<Rightarrow> ifaddr \<Rightarrow> bool" where
  "named iface ifa \<longleftrightarrow> from_utf8_lossy (ifa_name ifa) = iface"

fun get_interface_ips :: "string \<Rightarrow> ifaddr list option \<Rightarrow> ipv4 list" where
  "get_interface_ips iface None = []"
| "get_interface_ips iface (Some []) = []"
| "get_interface_ips iface (Some (ifa # rest)) =
     (case ifa_addr ifa of
        Some (AfInet ip) \<Rightarrow>
          (if named iface ifa then ip # get_interface_ips iface (Some rest)
           else get_interface_ips iface (Some rest))
      | _ \<Rightarrow> get_interface_ips iface (Some rest))"

text \<open>The test \<open>addr_bytes[0] == 0xfe && (addr_bytes[1] & 0xc0) == 0x80\<close>.\<close>

definition is_link_local :: "ipv6 \<Rightarrow> bool" where
  "is_link_local a \<longleftrightarrow> (ucast (drop_bit 120 a) :: u8) = 0xfe \<and> (ucast (drop_bit 112 a) :: u8) AND 0xc0 = 0x80"

fun get_link_local_addr :: "string \<Rightarrow> ifaddr list option \<Rightarrow> ipv6 option" where
  "get_link_local_addr iface None = None"
| "get_link_local_addr iface (Some []) = None"
| "get_link_local_addr iface (Some (ifa # rest)) =
     (case ifa_addr ifa of
        Some (AfInet6 a) \<Rightarrow>
          (if named iface ifa \<and> is_link_local a then Some a else get_link_local_addr iface (Some rest))
      | _ \<Rightarrow> get_link_local_addr iface (Some rest))"

fun get_iface_mac :: "string \<Rightarrow> ifaddr list option \<Rightarrow> mac_address option" where
  "get_iface_mac iface None = None"
| "get_iface_mac iface (Some []) = None"
| "get_iface_mac iface (Some (ifa # rest)) =
     (case ifa_addr ifa of
        Some (AfLink nlen alen d) \<Rightarrow>
          (if named iface ifa \<and> 6 \<le> alen then mac_from_slice (take 6 (drop nlen d))
           else get_iface_mac iface (Some rest))
      | _ \<Rightarrow> get_iface_mac iface (Some rest))"

section \<open>Lemmas\<close>

lemma set_get_interface_ips:
  "set (get_interface_ips iface (Some l)) = {ip. \<exists>ifa\<in>set l. named iface ifa \<and> ifa_addr ifa = Some (AfInet ip)}"
  by (induction iface "Some l" arbitrary: l rule: get_interface_ips.induct)
    (auto split: option.splits sock_addr.splits)

lemma get_link_local_addr_Some:
  "get_link_local_addr iface (Some l) = Some a \<Longrightarrow>
   is_link_local a \<and> (\<exists>ifa\<in>set l. named iface ifa \<and> ifa_addr ifa = Some (AfInet6 a))"
  by (induction iface "Some l" arbitrary: l rule: get_link_local_addr.induct)
    (auto split: option.splits sock_addr.splits if_splits)

lemma get_link_local_addr_None:
  "get_link_local_addr iface (Some l) = None \<Longrightarrow> ifa \<in> set l \<Longrightarrow> named iface ifa \<Longrightarrow>
   ifa_addr ifa = Some (AfInet6 a) \<Longrightarrow> \<not> is_link_local a"
  by (induction iface "Some l" arbitrary: l rule: get_link_local_addr.induct)
    (auto split: option.splits sock_addr.splits if_splits)

text \<open>
  The byte test is membership in \<open>fe80::/10\<close>: the top ten bits are 1111111010.
\<close>

lemma is_link_local_iff: "is_link_local a \<longleftrightarrow> drop_bit 118 a = 0x3fa" for a :: ipv6
proof -
  have less8: "(\<forall>n<8. P n) \<longleftrightarrow> P 0 \<and> P 1 \<and> P 2 \<and> P 3 \<and> P 4 \<and> P 5 \<and> P 6 \<and> P (7 :: nat)" for P
    by (auto simp: numeral_eq_Suc All_less_Suc)
  have less10: "(\<forall>n<10. P n) \<longleftrightarrow> (\<forall>n<8. P n) \<and> P 8 \<and> P (9 :: nat)" for P
    by (auto simp: numeral_eq_Suc All_less_Suc)
  have top: "drop_bit 118 a = 0x3fa \<longleftrightarrow> (\<forall>n<10. bit a (118 + n) = bit (0x3fa :: ipv6) n)"
  proof -
    have "take_bit 10 0x3fa = (0x3fa :: ipv6)" by simp
    then have "\<not> bit (0x3fa :: ipv6) n" if "10 \<le> n" for n
      using that by (metis bit_take_bit_iff not_less)
    moreover have "\<not> bit a (118 + n)" if "10 \<le> n" for n
      using that by (auto dest: bit_imp_le_length)
    ultimately have "bit a (118 + n) = bit (0x3fa :: ipv6) n" if "10 \<le> n" for n
      using that by simp
    then show ?thesis by (auto simp: bit_eq_iff bit_simps not_less intro: leI)
  qed
  have byte: "u = v \<longleftrightarrow> (\<forall>n<8. bit u n = bit v n)" for u v :: u8
    by (auto intro: bit_word_eqI)
  show ?thesis
    unfolding is_link_local_def top
    by (simp add: byte less8 less10 bit_simps bit_numeral_word_iff) blast
qed

end
