(* ===== verification/Ra_Server.thy ===== *)
theory Ra_Server
  imports Ra_Packet Memory_Db Interface_Info
begin

text \<open>
  The Router Advertisement server (\<open>crates/ndhcpd/src/ra/server.rs\<close>): the ICMPv6 filter, the
  advertisement that is sent, the loop of one interface and the choice of interfaces. The loop is
  modelled by what wakes it up and the payloads it sends to \<open>ff02::1\<close>; the system calls are in
  \<open>Ra_Socket\<close>.
\<close>

section \<open>The ICMPv6 filter\<close>

type_synonym icmp6_filter = "u32 list"

definition block_all :: icmp6_filter where
  "block_all = replicate 8 0xFFFFFFFF"

definition pass :: "icmp6_filter \<Rightarrow> u8 \<Rightarrow> icmp6_filter" where
  "pass f icmpv6_type =
     (let t = unat icmpv6_type in
      f[drop_bit 5 t := f ! drop_bit 5 t AND NOT (push_bit (t AND 31) 1)])"

definition ra_filter :: icmp6_filter where
  "ra_filter = pass block_all ICMPV6_TYPE_RS"

text \<open>How the kernel reads the filter on Linux: a set bit blocks the type.\<close>

definition blocked :: "icmp6_filter \<Rightarrow> u8 \<Rightarrow> bool" where
  "blocked f icmpv6_type \<longleftrightarrow> bit (f ! (unat icmpv6_type div 32)) (unat icmpv6_type mod 32)"

section \<open>Sending\<close>

definition MAX_RTR_ADV_INTERVAL_SECS :: nat where
  "MAX_RTR_ADV_INTERVAL_SECS = 200"

definition send_ra ::
  "(ipv6 list \<Rightarrow> ipv6 list) \<Rightarrow> 'db database \<Rightarrow> ra_config \<Rightarrow> string \<Rightarrow> 'db \<Rightarrow> bytes list" where
  "send_ra hash_order D cfg iface db =
     (case db_list_ia_prefixes D (Some iface) db of
        Inl _ \<Rightarrow> []
      | Inr ps \<Rightarrow>
          (if ps = [] then []
           else [build_router_advertisement hash_order ps 64
             (ucast (min (default_preferred_lifetime cfg) 0xFFFF)) False False]))"

section \<open>The loop of one interface\<close>

text \<open>
  What ends a \<open>select!\<close>: the timer, or a readable socket with the datagrams that \<open>try_recv\<close>
  returns until it fails, or an error of the \<open>AsyncFd\<close>, which leaves the loop. Each comes with
  the database at that time.
\<close>

datatype ra_event = Tick | Readable "bytes list" | FdError

fun drain :: "bytes list \<Rightarrow> bytes list \<Rightarrow> bytes list" where
  "drain ra [] = []"
| "drain ra (d # ds) =
     (case d of
        [] \<Rightarrow> drain ra ds
      | t # _ \<Rightarrow> if t = ICMPV6_TYPE_RS then ra @ drain ra ds else drain ra ds)"

fun ra_loop ::
  "(ipv6 list \<Rightarrow> ipv6 list) \<Rightarrow> 'db database \<Rightarrow> ra_config \<Rightarrow> string \<Rightarrow> (ra_event \<times> 'db) list \<Rightarrow> bytes list list" where
  "ra_loop hash_order D cfg iface [] = []"
| "ra_loop hash_order D cfg iface ((Tick, db) # es) =
     send_ra hash_order D cfg iface db # ra_loop hash_order D cfg iface es"
| "ra_loop hash_order D cfg iface ((Readable ds, db) # es) =
     drain (send_ra hash_order D cfg iface db) ds # ra_loop hash_order D cfg iface es"
| "ra_loop hash_order D cfg iface ((FdError, db) # es) = []"

text \<open>
  \<open>run_on_interface\<close>: \<open>None\<close> when the interface has no index or no link-local address; otherwise
  the initial advertisement and those of the loop. The socket is the argument \<open>socket\<close>.
\<close>

definition run_on_interface ::
  "(ipv6 list \<Rightarrow> ipv6 list) \<Rightarrow> 'db database \<Rightarrow> ra_config \<Rightarrow> (string \<Rightarrow> u32 option) \<Rightarrow> ifaddr list option \<Rightarrow>
   (string \<Rightarrow> u32 \<Rightarrow> ipv6 \<Rightarrow> bool) \<Rightarrow> string \<Rightarrow> 'db \<Rightarrow> (ra_event \<times> 'db) list \<Rightarrow> bytes list list option" where
  "run_on_interface hash_order D cfg get_ifindex ifaddrs create_ra_socket iface db events =
     (case get_ifindex iface of
        None \<Rightarrow> None
      | Some ifindex \<Rightarrow>
          (case get_link_local_addr iface ifaddrs of
             None \<Rightarrow> None
           | Some link_local \<Rightarrow>
               (if \<not> create_ra_socket iface ifindex link_local then None
                else Some (send_ra hash_order D cfg iface db # ra_loop hash_order D cfg iface events))))"

text \<open>\<open>RaServer::run\<close>: the interfaces for which a task is started.\<close>

definition ra_tasks :: "config \<Rightarrow> string list" where
  "ra_tasks config =
     (case cfg_ra config of
        Some cfg \<Rightarrow> if ra_enabled cfg then ip6_listen_interfaces cfg else []
      | None \<Rightarrow> [])"

section \<open>Lemmas\<close>

lemma length_pass [simp]: "length (pass f t) = length f"
  by (simp add: pass_def Let_def)

lemma blocked_block_all [simp]: "blocked block_all t"
proof -
  have "unat t div 32 < 8" using unat_u8_lt [of t] by simp
  moreover have "(0xFFFFFFFF :: u32) = - 1" by simp
  then have "bit (0xFFFFFFFF :: u32) n" if "n < 32" for n using that by (simp only: bit_simps) simp
  ultimately show ?thesis by (simp add: blocked_def block_all_def)
qed

lemma drain_replicate:
  "drain ra ds = concat (replicate (length (filter (\<lambda>d. d \<noteq> [] \<and> hd d = ICMPV6_TYPE_RS) ds)) ra)"
  by (induction ds) (auto split: list.splits)

lemma and_31: "n AND 31 = n mod 32" for n :: nat
  using take_bit_eq_mask [of 5 n] by (simp add: take_bit_eq_mod mask_eq_exp_minus_1)

lemma blocked_pass:
  assumes "length f = 8"
  shows "blocked (pass f t) u \<longleftrightarrow> u \<noteq> t \<and> blocked f u"
proof -
  have t: "drop_bit 5 (unat t) = unat t div 32" "unat t AND 31 = unat t mod 32" "unat t div 32 < 8"
    using unat_u8_lt [of t] and_31 by (simp_all add: drop_bit_eq_div)
  show ?thesis
  proof (cases "unat u div 32 = unat t div 32")
    case True
    then have "unat u mod 32 = unat t mod 32 \<longleftrightarrow> u = t"
      by (metis div_mult_mod_eq word_unat_eq_iff)
    with True t assms show ?thesis
      by (auto simp: blocked_def pass_def Let_def bit_simps)
  next
    case False
    with t assms show ?thesis by (auto simp: blocked_def pass_def Let_def)
  qed
qed

lemma unat_ucast_min: "unat (ucast (min w 0xFFFF :: u32) :: u16) = min (unat w) 65535"
proof -
  have "unat (min w 0xFFFF) = min (unat w) 65535"
    by (auto simp: min_def word_le_nat_alt)
  then show ?thesis
    by (simp add: unsigned_ucast_eq take_bit_nat_eq_self)
qed

text \<open>An example: one prefix on one interface.\<close>

definition lab_prefix_db :: memory_db where
  "lab_prefix_db = mem_new\<lparr> m_ia_prefixes := [\<lparr> p_id = Some 1, p_interface = ''eth0'',
     p_prefix = 0x20010DB8000000000000000000000000, p_prefix_len = 64, p_preferred_lifetime = 14400,
     p_valid_lifetime = 86400, p_dns_servers = [], p_dns_lifetime = 3600 \<rparr>] \<rparr>"

section \<open>Properties\<close>

text \<open>
  The filter installed on the socket lets exactly Router Solicitations through, where a set
  bit blocks a type, as the comment on the structure says and Linux reads it.
\<close>

theorem ra_filter_exact: "blocked ra_filter t \<longleftrightarrow> t \<noteq> ICMPV6_TYPE_RS"
  by (simp add: ra_filter_def blocked_pass block_all_def [THEN arg_cong [where f = length], simplified])

text \<open>
  As long as the socket has no error, the loop answers every event: one advertisement for
  each tick of the timer and one for each datagram whose first byte is the type of a Router
  Solicitation, and nothing for other datagrams - each built from the prefixes stored at that
  time, and none at all when there are none.
\<close>

theorem ra_loop_answers:
  assumes "FdError \<notin> fst ` set events"
  shows "ra_loop hash_order D cfg iface events =
    map (\<lambda>(e, db). case e of
          Tick \<Rightarrow> send_ra hash_order D cfg iface db
        | Readable ds \<Rightarrow> concat (replicate (length (filter (\<lambda>d. d \<noteq> [] \<and> hd d = ICMPV6_TYPE_RS) ds))
            (send_ra hash_order D cfg iface db))
        | FdError \<Rightarrow> []) events"
  using assms
proof (induction events)
  case (Cons ev events)
  then show ?case by (cases ev; cases "fst ev") (auto simp: drain_replicate)
qed simp

theorem ra_loop_answers_witness:
  "map length (ra_loop remdups memory_database ra_default ''eth0''
     [(Readable [[133, 0], [136], []], lab_prefix_db), (Tick, lab_prefix_db), (Tick, mem_new)]) = [1, 1, 0]"
  by (subst ra_loop_answers)
    (simp_all add: ICMPV6_TYPE_RS_def send_ra_def lab_prefix_db_def mem_new_def mem_list_ia_prefixes_def)

text \<open>
  What an advertisement announces is what the database holds for the interface: it decodes
  to one prefix option for each stored prefix of that interface, in order, and no other, with hop
  limit 64, no managed or other flag, and the default preferred lifetime, cut to 16 bits by
  saturation, as router lifetime.
\<close>

theorem send_ra_announces:
  assumes "\<And>xs. set (hash_order xs) = set xs" and "\<And>xs. distinct (hash_order xs)"
    and "card (\<Union>p\<in>set (m_ia_prefixes db). set (p_dns_servers p)) \<le> 127"
    and "payload \<in> set (send_ra hash_order memory_database cfg iface db)"
  shows "\<exists>hdr dns. ra_decode payload = Some (hdr,
      map (\<lambda>p. PrefixInformation (p_prefix_len p) True True (p_valid_lifetime p)
        (p_preferred_lifetime p) (p_prefix p)) (filter (\<lambda>p. p_interface p = iface) (m_ia_prefixes db)) @ dns) \<and>
    ra_hop_limit hdr = 64 \<and> \<not> ra_managed hdr \<and> \<not> ra_other hdr \<and>
    unat (ra_router_lifetime hdr) = min (unat (default_preferred_lifetime cfg)) 65535"
proof -
  let ?ps = "filter (\<lambda>p. p_interface p = iface) (m_ia_prefixes db)"
  have payload: "payload = build_router_advertisement hash_order ?ps 64
      (ucast (min (default_preferred_lifetime cfg) 0xFFFF)) False False"
    using assms(4) by (auto simp: send_ra_def mem_list_ia_prefixes_def split: if_splits)
  have "card (\<Union>p\<in>set ?ps. set (p_dns_servers p)) \<le> card (\<Union>p\<in>set (m_ia_prefixes db). set (p_dns_servers p))"
    by (intro card_mono) auto
  with assms(3) have "card (\<Union>p\<in>set ?ps. set (p_dns_servers p)) \<le> 127" by simp
  from ra_decode_build [OF assms(1,2) this] payload show ?thesis
    by (fastforce simp: unat_ucast_min)
qed

theorem send_ra_announces_witness:
  "\<exists>payload hdr dns. send_ra remdups memory_database ra_default ''eth0'' lab_prefix_db = [payload] \<and>
     ra_decode payload = Some (hdr, PrefixInformation 64 True True 86400 14400
       0x20010DB8000000000000000000000000 # dns) \<and> ra_router_lifetime hdr = 65535"
proof -
  have "\<exists>payload. send_ra remdups memory_database ra_default ''eth0'' lab_prefix_db = [payload]"
    by (simp add: send_ra_def lab_prefix_db_def mem_list_ia_prefixes_def)
  then obtain payload where p: "send_ra remdups memory_database ra_default ''eth0'' lab_prefix_db = [payload]" ..
  have "card (\<Union>p\<in>set (m_ia_prefixes lab_prefix_db). set (p_dns_servers p)) \<le> 127"
    by (simp add: lab_prefix_db_def)
  from send_ra_announces [of remdups, OF _ _ this, of payload ra_default "''eth0''"] p show ?thesis
    by (auto simp: lab_prefix_db_def ra_default_def word_unat_eq_iff)
qed

end
