(* ===== verification/Startup.thy ===== *)
theory Startup
  imports Ra_Server
begin

text \<open>
  What \<open>main\<close> (\<open>crates/ndhcpd/src/main.rs\<close>) decides before the servers run: the
  configuration file, the overrides of the command line, the kind of database
  (\<open>create_database\<close>, \<open>db/mod.rs\<close>), the listeners of the interface and whether they
  authenticate, the tasks that are started, and what \<open>main\<close> has done when a step of the start fails.
  The file system is an argument: \<open>exists\<close> tells whether a path exists, \<open>files\<close> what can be read
  from it; \<open>main\<close> reads the configuration twice, and the file may change in between. The YAML
  functions of serde are arguments.
\<close>

section \<open>The configuration file\<close>

definition from_file :: "(string \<Rightarrow> config option) \<Rightarrow> (string \<Rightarrow> string option) \<Rightarrow> string \<Rightarrow> config option" where
  "from_file yaml_from_str files path = Option.bind (files path) yaml_from_str"

text \<open>\<open>None\<close> when the configuration has no YAML form or the file cannot be written.\<close>

definition to_file ::
  "(config \<Rightarrow> string option) \<Rightarrow> (string \<Rightarrow> bool) \<Rightarrow> config \<Rightarrow> string \<Rightarrow> (string \<Rightarrow> string option) \<Rightarrow>
   (string \<Rightarrow> string option) option" where
  "to_file yaml_to_string writable config path files =
     (case yaml_to_string config of
        None \<Rightarrow> None
      | Some yaml \<Rightarrow> if writable path then Some (files(path \<mapsto> yaml)) else None)"

section \<open>Command line and configuration\<close>

record args =
  arg_config :: string
  arg_data_dir :: "string option"
  arg_unix_socket :: "string option"

fun DEFAULT_CONFIG_PATH :: "target_os \<Rightarrow> string" where
  "DEFAULT_CONFIG_PATH FreeBSD = ''/usr/local/etc/ndhcpd/config.yaml''"
| "DEFAULT_CONFIG_PATH Linux = ''/etc/ndhcpd/config.yaml''"

definition config_path :: "target_os \<Rightarrow> (string \<Rightarrow> bool) \<Rightarrow> args \<Rightarrow> string" where
  "config_path os exists args =
     (if exists (arg_config args) then arg_config args
      else if arg_config args = DEFAULT_CONFIG_PATH os then
        (if exists ''config.yaml'' then ''config.yaml'' else arg_config args)
      else arg_config args)"

definition load_config :: "target_os \<Rightarrow> config option \<Rightarrow> config option \<Rightarrow> config" where
  "load_config os from_file1 from_file2 =
     (let config = (case from_file1 of Some c \<Rightarrow> c | None \<Rightarrow> config_default os)
      in case from_file2 of Some cfg \<Rightarrow> cfg | None \<Rightarrow> config)"

text \<open>Where the log goes and what is logged: both follow the first reading of the file.\<close>

datatype log_output = Stdout | Syslog

definition log_setup :: "target_os \<Rightarrow> string option \<Rightarrow> bool \<Rightarrow> config option \<Rightarrow> string \<times> log_output" where
  "log_setup os env_filter syslog_connects from_file1 =
     (let logging = cfg_logging (case from_file1 of Some c \<Rightarrow> c | None \<Rightarrow> config_default os)
      in (case env_filter of Some f \<Rightarrow> f | None \<Rightarrow> ''ndhcpd='' @ log_level logging,
          if log_syslog logging \<and> syslog_connects then Syslog else Stdout))"

text \<open>\<open>Path::new(dir).join(file)\<close> for a relative \<open>file\<close>: a separator unless the directory is empty
  or ends with one.\<close>

definition path_join :: "string \<Rightarrow> string \<Rightarrow> string" where
  "path_join dir file =
     (if dir = [] \<or> last dir = CHR ''/'' then dir @ file else dir @ ''/'' @ file)"

definition apply_args :: "args \<Rightarrow> config \<Rightarrow> config" where
  "apply_args args config =
     (let config = (case arg_data_dir args of
                      Some data_dir \<Rightarrow> config\<lparr> database_path := path_join data_dir ''dhcp.db'' \<rparr>
                    | None \<Rightarrow> config)
      in case arg_unix_socket args of
           Some socket_path \<Rightarrow> config\<lparr> cfg_api := (cfg_api config)\<lparr> api_unix_socket := Some socket_path \<rparr> \<rparr>
         | None \<Rightarrow> config)"

section \<open>Database\<close>

datatype database_kind = InMemory | Sqlite string | Unsupported string

definition starts_with :: "string \<Rightarrow> string \<Rightarrow> bool" where
  "starts_with s p \<longleftrightarrow> take (length p) s = p"

definition create_database :: "string \<Rightarrow> database_kind" where
  "create_database url =
     (if starts_with url ''memory:'' \<or> url = '':memory:'' then InMemory
      else if starts_with url ''sqlite:'' then Sqlite url
      else Unsupported url)"

section \<open>Servers\<close>

text \<open>A listener of the interface: where, and whether its router requires authentication.\<close>

datatype listener = UnixListener string bool | TcpListener string u16 bool

definition api_listeners :: "config \<Rightarrow> listener list" where
  "api_listeners config =
     (case api_unix_socket (cfg_api config) of
        Some socket_path \<Rightarrow> [UnixListener socket_path False]
      | None \<Rightarrow> []) @
     [TcpListener (api_listen_address (cfg_api config)) (api_port (cfg_api config))
        (case api_require_authentication (cfg_api config) of Some b \<Rightarrow> b | None \<Rightarrow> False)]"

record startup =
  su_database :: database_kind
  su_listeners :: "listener list"
  su_ra_config :: ra_config
  su_ra_tasks :: "string list"
  su_dhcp_interfaces :: "string list"

definition main_startup :: "target_os \<Rightarrow> args \<Rightarrow> config option \<Rightarrow> config option \<Rightarrow> startup" where
  "main_startup os args from_file1 from_file2 =
     (let config = apply_args args (load_config os from_file1 from_file2) in
      \<lparr> su_database = create_database (''sqlite:'' @ database_path config),
        su_listeners = api_listeners config,
        su_ra_config = (case cfg_ra config of Some ra \<Rightarrow> ra | None \<Rightarrow> ra_default),
        su_ra_tasks = (if (case cfg_ra config of Some ra \<Rightarrow> ra_enabled ra | None \<Rightarrow> False)
                       then ra_tasks config else []),
        su_dhcp_interfaces = listen_interfaces config \<rparr>)"

section \<open>Starting the tasks\<close>

text \<open>
  What \<open>main\<close> does, in this order, and the error with which it returns: the database, the Unix
  socket (a file at its path is removed first), the TCP socket, then the servers. \<open>run\<close> of the
  DHCP server starts the receive loop and the purge and never returns.
\<close>

datatype start_action =
    OpenDatabase database_kind | RemoveFile string | BindUnix string | BindTcp string u16
  | ServeApi listener | StartRa "string list" | StartDhcp "string list" | StartPurge "64 word"

datatype main_error = DatabaseFailed | UnixBindFailed string | TcpBindFailed string u16

definition cleanup_interval_secs :: "config \<Rightarrow> 64 word" where
  "cleanup_interval_secs config = ucast (lease_cleanup_interval_minutes (cfg_dhcp config)) * 60"

definition main_servers :: "config \<Rightarrow> start_action list" where
  "main_servers config =
     (if (case cfg_ra config of Some ra \<Rightarrow> ra_enabled ra | None \<Rightarrow> False) then [StartRa (ra_tasks config)] else []) @
     [StartDhcp (listen_interfaces config), StartPurge (cleanup_interval_secs config)]"

definition main_tcp :: "(string \<Rightarrow> u16 \<Rightarrow> bool) \<Rightarrow> config \<Rightarrow> start_action list \<times> main_error option" where
  "main_tcp tcp_binds config =
     (let address = api_listen_address (cfg_api config); port = api_port (cfg_api config);
          require_auth = (case api_require_authentication (cfg_api config) of Some b \<Rightarrow> b | None \<Rightarrow> False)
      in if \<not> tcp_binds address port then ([BindTcp address port], Some (TcpBindFailed address port))
         else ([BindTcp address port, ServeApi (TcpListener address port require_auth)] @ main_servers config, None))"

definition main_run ::
  "(database_kind \<Rightarrow> bool) \<Rightarrow> (string \<Rightarrow> bool) \<Rightarrow> (string \<Rightarrow> u16 \<Rightarrow> bool) \<Rightarrow> config \<Rightarrow>
   start_action list \<times> main_error option" where
  "main_run db_opens unix_binds tcp_binds config =
     (let db = create_database (''sqlite:'' @ database_path config) in
      if \<not> db_opens db then ([OpenDatabase db], Some DatabaseFailed)
      else case api_unix_socket (cfg_api config) of
        None \<Rightarrow> map_prod ((#) (OpenDatabase db)) id (main_tcp tcp_binds config)
      | Some path \<Rightarrow>
          if \<not> unix_binds path
          then ([OpenDatabase db, RemoveFile path, BindUnix path], Some (UnixBindFailed path))
          else map_prod ((@) [OpenDatabase db, RemoveFile path, BindUnix path, ServeApi (UnixListener path False)]) id
            (main_tcp tcp_binds config))"

text \<open>What an action needs to have succeeded.\<close>

fun start_succeeds :: "(database_kind \<Rightarrow> bool) \<Rightarrow> (string \<Rightarrow> bool) \<Rightarrow> (string \<Rightarrow> u16 \<Rightarrow> bool) \<Rightarrow> start_action \<Rightarrow> bool" where
  "start_succeeds db_opens unix_binds tcp_binds (OpenDatabase db) = db_opens db"
| "start_succeeds db_opens unix_binds tcp_binds (BindUnix path) = unix_binds path"
| "start_succeeds db_opens unix_binds tcp_binds (BindTcp address port) = tcp_binds address port"
| "start_succeeds db_opens unix_binds tcp_binds _ = True"

lemma log_setup_first_file:
  "log_setup os None connects f = (''ndhcpd='' @ level, out) \<Longrightarrow>
   level = (case f of Some c \<Rightarrow> log_level (cfg_logging c) | None \<Rightarrow> ''info'')"
  by (auto simp: log_setup_def Let_def config_default_def logging_default_def split: option.splits)

section \<open>Properties\<close>

text \<open>
  Whatever the configuration and the command line are, the daemon runs on an SQLite
  database, at \<open>dhcp.db\<close> under the data directory when one is given; there is exactly one TCP
  listener, which authenticates exactly when the configuration says so; a Unix socket never
  authenticates and is the one of the command line when one is given there; Router Advertisements
  are sent on no interface unless they are enabled.
\<close>

theorem startup_plan:
  "let config = load_config os from_file1 from_file2; plan = main_startup os args from_file1 from_file2 in
   su_database plan = Sqlite (''sqlite:'' @ (case arg_data_dir args of
     Some dir \<Rightarrow> path_join dir ''dhcp.db'' | None \<Rightarrow> database_path config)) \<and>
   [l \<leftarrow> su_listeners plan. case l of TcpListener _ _ _ \<Rightarrow> True | _ \<Rightarrow> False] =
     [TcpListener (api_listen_address (cfg_api config)) (api_port (cfg_api config))
        (api_require_authentication (cfg_api config) = Some True)] \<and>
   (\<forall>path auth. UnixListener path auth \<in> set (su_listeners plan) \<longleftrightarrow> \<not> auth \<and>
      Some path = (case arg_unix_socket args of Some p \<Rightarrow> Some p | None \<Rightarrow> api_unix_socket (cfg_api config))) \<and>
   su_ra_tasks plan = (case cfg_ra config of
      Some ra \<Rightarrow> if ra_enabled ra then ip6_listen_interfaces ra else [] | None \<Rightarrow> [])"
  by (auto simp: main_startup_def apply_args_def api_listeners_def create_database_def starts_with_def
      ra_tasks_def Let_def split: option.splits if_splits)


text \<open>
  A configuration that was saved is what is loaded from the same path, when the YAML functions
  of serde undo each other on it, and no other file has changed.
\<close>

theorem config_file_roundtrip:
  assumes "to_file yaml_to_string writable config path files = Some files'"
    and "\<forall>yaml. yaml_to_string config = Some yaml \<longrightarrow> yaml_from_str yaml = Some config"
  shows "from_file yaml_from_str files' path = Some config \<and> (\<forall>other. other \<noteq> path \<longrightarrow> files' other = files other)"
  using assms by (auto simp: to_file_def from_file_def split: option.splits if_splits)

theorem config_file_roundtrip_witness:
  "\<exists>files'. to_file (\<lambda>c. Some (database_path c)) (\<lambda>_. True) (config_default Linux) ''config.yaml'' Map.empty = Some files' \<and>
     from_file (\<lambda>y. if y = default_db_path Linux then Some (config_default Linux) else None) files' ''config.yaml'' =
       Some (config_default Linux)"
proof -
  let ?files = "Map.empty(''config.yaml'' \<mapsto> default_db_path Linux)"
  have "to_file (\<lambda>c. Some (database_path c)) (\<lambda>_. True) (config_default Linux) ''config.yaml'' Map.empty = Some ?files"
    by (simp add: to_file_def config_default_def)
  from config_file_roundtrip [OF this, of "\<lambda>y. if y = default_db_path Linux then Some (config_default Linux) else None"] this
  show ?thesis by (auto simp: config_default_def)
qed

end
