(* ===== verification/Daemon.thy ===== *)
theory Daemon
  imports Dhcp_Awaits Api_Concurrent Startup
begin

text \<open>
  The running daemon as one transition system: what \<open>main\<close> has started (\<open>main.rs\<close>,
  \<open>DhcpServer::run\<close>) shares one database. The receive loop handles one packet at a time; every
  connection of a listener runs its requests in a task of its own; a further task purges expired
  leases; the tasks of the Router Advertisements read the prefixes. A step is one database call
  of one task, or the arrival or the end of a packet or a request. The events of a run are what
  the outside sees, each with the database at that moment.
\<close>

section \<open>Tasks and states\<close>

text \<open>
  A packet being handled: the interface, its addresses and the two readings of the clock that
  its handler uses. A request: the listener it came in on, what its handler takes from the clock,
  the random generator and the password hash, the header and the route.
\<close>

record dhcp_job =
  j_iface :: string
  j_packet :: dhcp_packet
  j_ips :: "ipv4 list"
  j_t1 :: i64
  j_t2 :: i64

record api_call =
  c_listener :: listener
  c_now :: i64
  c_token :: string
  c_hashed :: "string + string \<times> string"
  c_auth :: "string option"
  c_request :: api_request

type_synonym api_answer = "api_error + status_code \<times> api_body"

record 'db daemon =
  dm_now :: i64
  dm_db :: 'db
  dm_dhcp :: "(dhcp_job \<times> ('db, dhcp_packet option) prog) option"
  dm_calls :: "(api_call \<times> ('db, api_answer) prog) list"

datatype event =
    Received dhcp_job
  | Dropped string bytes
  | Replied dhcp_job "dhcp_packet option" send_action
  | Purged i64
  | Accepted api_call
  | Answered api_call api_answer
  | Advertised string "bytes list"
  | Awaited

fun listener_auth :: "listener \<Rightarrow> bool" where
  "listener_auth (UnixListener path auth) = auth"
| "listener_auth (TcpListener address port auth) = auth"

definition daemon_ra_config :: "config \<Rightarrow> ra_config" where
  "daemon_ra_config cfg = (case cfg_ra cfg of Some ra \<Rightarrow> ra | None \<Rightarrow> ra_default)"

definition job_prog :: "'db database \<Rightarrow> config \<Rightarrow> dhcp_job \<Rightarrow> ('db, dhcp_packet option) prog" where
  "job_prog D cfg j = packet_prog D (j_t1 j) (j_t2 j) (j_packet j) (j_ips j) cfg"

text \<open>Neither listener tells the router the type of the connection.\<close>

definition call_prog ::
  "'db database \<Rightarrow> config \<Rightarrow> (string \<Rightarrow> string \<Rightarrow> string + bool) \<Rightarrow> api_call \<Rightarrow> ('db, api_answer) prog" where
  "call_prog D cfg verify c =
     router_prog D (daemon_ra_config cfg) verify (listener_auth (c_listener c)) (c_now c) (c_token c) (c_hashed c)
       None (c_auth c) (c_request c)"

definition idle :: "i64 \<Rightarrow> 'db \<Rightarrow> 'db daemon" where
  "idle now db = \<lparr> dm_now = now, dm_db = db, dm_dhcp = None, dm_calls = [] \<rparr>"

section \<open>Steps\<close>

inductive daemon_step ::
  "'db database \<Rightarrow> config \<Rightarrow> (string \<Rightarrow> string \<Rightarrow> string + bool) \<Rightarrow> (ipv6 list \<Rightarrow> ipv6 list) \<Rightarrow>
   'db daemon \<Rightarrow> event \<Rightarrow> 'db daemon \<Rightarrow> bool"
  for D cfg verify hash_order where
  ds_receive: "dm_dhcp s = None \<Longrightarrow> iface \<in> set (listen_interfaces cfg) \<Longrightarrow> packet_parse data = Inr packet \<Longrightarrow>
    dm_now s \<le> t1 \<Longrightarrow> t1 \<le> t2 \<Longrightarrow>
    j = \<lparr> j_iface = iface, j_packet = packet, j_ips = iface_ips, j_t1 = t1, j_t2 = t2 \<rparr> \<Longrightarrow>
    daemon_step D cfg verify hash_order s (Received j)
      (s\<lparr> dm_now := t2, dm_dhcp := Some (j, job_prog D cfg j) \<rparr>)"
| ds_drop: "dm_dhcp s = None \<Longrightarrow> iface \<notin> set (listen_interfaces cfg) \<or> packet_parse data = Inl e \<Longrightarrow>
    daemon_step D cfg verify hash_order s (Dropped iface data) s"
| ds_handle: "dm_dhcp s = Some (j, Await k) \<Longrightarrow> k (dm_db s) = (p, db') \<Longrightarrow>
    daemon_step D cfg verify hash_order s Awaited (s\<lparr> dm_db := db', dm_dhcp := Some (j, p) \<rparr>)"
| ds_reply: "dm_dhcp s = Some (j, Return resp) \<Longrightarrow>
    action = (case resp of None \<Rightarrow> NoSend | Some r \<Rightarrow> send_response (j_ips j) mac (j_packet j) r) \<Longrightarrow>
    daemon_step D cfg verify hash_order s (Replied j resp action) (s\<lparr> dm_dhcp := None \<rparr>)"
| ds_purge: "daemon_step D cfg verify hash_order s (Purged t) (s\<lparr> dm_db := cleanup_step D t (dm_db s) \<rparr>)"
| ds_accept: "c_listener c \<in> set (api_listeners cfg) \<Longrightarrow>
    daemon_step D cfg verify hash_order s (Accepted c)
      (s\<lparr> dm_calls := dm_calls s @ [(c, call_prog D cfg verify c)] \<rparr>)"
| ds_serve: "dm_calls s = xs @ (c, Await k) # ys \<Longrightarrow> k (dm_db s) = (p, db') \<Longrightarrow>
    daemon_step D cfg verify hash_order s Awaited (s\<lparr> dm_db := db', dm_calls := xs @ (c, p) # ys \<rparr>)"
| ds_answer: "dm_calls s = xs @ (c, Return r) # ys \<Longrightarrow>
    daemon_step D cfg verify hash_order s (Answered c r) (s\<lparr> dm_calls := xs @ ys \<rparr>)"
| ds_advertise: "iface \<in> set (ra_tasks cfg) \<Longrightarrow>
    daemon_step D cfg verify hash_order s
      (Advertised iface (send_ra hash_order D (daemon_ra_config cfg) iface (dm_db s))) s"

text \<open>What each kind of event tells about the step.\<close>

inductive_cases RepliedE [elim!]: "daemon_step D cfg verify hash_order s (Replied j resp action) s'"
inductive_cases AnsweredE [elim!]: "daemon_step D cfg verify hash_order s (Answered c r) s'"
inductive_simps Advertised_step: "daemon_step D cfg verify hash_order s (Advertised iface payload) s'"

inductive daemon_run ::
  "'db database \<Rightarrow> config \<Rightarrow> (string \<Rightarrow> string \<Rightarrow> string + bool) \<Rightarrow> (ipv6 list \<Rightarrow> ipv6 list) \<Rightarrow>
   'db daemon \<Rightarrow> (event \<times> 'db) list \<Rightarrow> 'db daemon \<Rightarrow> bool"
  for D cfg verify hash_order s where
  dr_refl: "daemon_run D cfg verify hash_order s [] s"
| dr_step: "daemon_run D cfg verify hash_order s tr s' \<Longrightarrow> daemon_step D cfg verify hash_order s' e s'' \<Longrightarrow>
    daemon_run D cfg verify hash_order s (tr @ [(e, dm_db s')]) s''"

abbreviation "databases tr \<equiv> snd ` set tr"

section \<open>Executing the daemon\<close>

text \<open>
  The choices of a step as commands, and what a step then does: \<open>None\<close> when the daemon cannot
  take it.
\<close>

datatype daemon_command =
    Datagram string bytes "ipv4 list" i64 i64 | Handle | Reply "mac_address option" | Purge i64
  | Connect api_call | Serve nat | Answer nat | Advertise string

fun perform ::
  "'db database \<Rightarrow> config \<Rightarrow> (string \<Rightarrow> string \<Rightarrow> string + bool) \<Rightarrow> (ipv6 list \<Rightarrow> ipv6 list) \<Rightarrow>
   daemon_command \<Rightarrow> 'db daemon \<Rightarrow> (event \<times> 'db daemon) option" where
  "perform D cfg verify hash_order (Datagram iface data iface_ips t1 t2) s =
     (case dm_dhcp s of
        Some _ \<Rightarrow> None
      | None \<Rightarrow>
          if iface \<notin> set (listen_interfaces cfg) then Some (Dropped iface data, s)
          else case packet_parse data of
            Inl _ \<Rightarrow> Some (Dropped iface data, s)
          | Inr packet \<Rightarrow>
              if dm_now s \<le> t1 \<and> t1 \<le> t2 then
                let j = \<lparr> j_iface = iface, j_packet = packet, j_ips = iface_ips, j_t1 = t1, j_t2 = t2 \<rparr>
                in Some (Received j, s\<lparr> dm_now := t2, dm_dhcp := Some (j, job_prog D cfg j) \<rparr>)
              else None)"
| "perform D cfg verify hash_order Handle s =
     (case dm_dhcp s of
        Some (j, Await k) \<Rightarrow>
          (case k (dm_db s) of (p, db') \<Rightarrow> Some (Awaited, s\<lparr> dm_db := db', dm_dhcp := Some (j, p) \<rparr>))
      | _ \<Rightarrow> None)"
| "perform D cfg verify hash_order (Reply mac) s =
     (case dm_dhcp s of
        Some (j, Return resp) \<Rightarrow>
          Some (Replied j resp (case resp of None \<Rightarrow> NoSend | Some r \<Rightarrow> send_response (j_ips j) mac (j_packet j) r),
            s\<lparr> dm_dhcp := None \<rparr>)
      | _ \<Rightarrow> None)"
| "perform D cfg verify hash_order (Purge t) s = Some (Purged t, s\<lparr> dm_db := cleanup_step D t (dm_db s) \<rparr>)"
| "perform D cfg verify hash_order (Connect c) s =
     (if c_listener c \<in> set (api_listeners cfg)
      then Some (Accepted c, s\<lparr> dm_calls := dm_calls s @ [(c, call_prog D cfg verify c)] \<rparr>) else None)"
| "perform D cfg verify hash_order (Serve i) s =
     (case drop i (dm_calls s) of
        (c, Await k) # ys \<Rightarrow>
          (case k (dm_db s) of
             (p, db') \<Rightarrow> Some (Awaited, s\<lparr> dm_db := db', dm_calls := take i (dm_calls s) @ (c, p) # ys \<rparr>))
      | _ \<Rightarrow> None)"
| "perform D cfg verify hash_order (Answer i) s =
     (case drop i (dm_calls s) of
        (c, Return r) # ys \<Rightarrow> Some (Answered c r, s\<lparr> dm_calls := take i (dm_calls s) @ ys \<rparr>)
      | _ \<Rightarrow> None)"
| "perform D cfg verify hash_order (Advertise iface) s =
     (if iface \<in> set (ra_tasks cfg)
      then Some (Advertised iface (send_ra hash_order D (daemon_ra_config cfg) iface (dm_db s)), s) else None)"

fun run_commands ::
  "'db database \<Rightarrow> config \<Rightarrow> (string \<Rightarrow> string \<Rightarrow> string + bool) \<Rightarrow> (ipv6 list \<Rightarrow> ipv6 list) \<Rightarrow>
   daemon_command list \<Rightarrow> 'db daemon \<Rightarrow> ((event \<times> 'db) list \<times> 'db daemon) option" where
  "run_commands D cfg verify hash_order [] s = Some ([], s)"
| "run_commands D cfg verify hash_order (x # xs) s =
     (case perform D cfg verify hash_order x s of
        None \<Rightarrow> None
      | Some (e, s') \<Rightarrow> map_option (map_prod ((#) (e, dm_db s)) id) (run_commands D cfg verify hash_order xs s'))"

text \<open>Commands and steps are the same.\<close>

lemma drop_Cons_split: "drop i xs = y # ys \<Longrightarrow> xs = take i xs @ y # ys"
  by (metis append_take_drop_id)

lemma perform_step:
  assumes "perform D cfg verify hash_order x s = Some (e, s')"
  shows "daemon_step D cfg verify hash_order s e s'"
proof (cases x)
  case (Datagram iface data iface_ips t1 t2)
  with assms show ?thesis
    by (auto simp: Let_def intro!: ds_receive ds_drop split: option.splits if_splits sum.splits)
next
  case (Serve i)
  with assms show ?thesis
    by (auto intro!: ds_serve drop_Cons_split split: list.splits prog.splits prod.splits)
next
  case (Answer i)
  with assms show ?thesis
    by (auto intro!: ds_answer drop_Cons_split split: list.splits prog.splits)
qed (use assms in \<open>auto intro!: daemon_step.intros split: option.splits prog.splits prod.splits if_splits\<close>)

lemma step_perform:
  assumes "daemon_step D cfg verify hash_order s e s'"
  shows "\<exists>x. perform D cfg verify hash_order x s = Some (e, s')"
  using assms
proof cases
  case (ds_receive iface data packet t1 t2 j iface_ips)
  then show ?thesis by (intro exI [of _ "Datagram iface data iface_ips t1 t2"]) (simp add: Let_def)
next
  case (ds_drop iface data e)
  then show ?thesis by (intro exI [of _ "Datagram iface data [] 0 0"]) auto
next
  case (ds_reply j resp action mac)
  then show ?thesis by (intro exI [of _ "Reply mac"]) simp
next
  case (ds_serve xs c k ys p db')
  then show ?thesis by (intro exI [of _ "Serve (length xs)"]) simp
next
  case (ds_answer xs c r ys)
  then show ?thesis by (intro exI [of _ "Answer (length xs)"]) simp
next
  case ds_handle
  then show ?thesis by (intro exI [of _ Handle]) simp
next
  case (ds_purge t)
  then show ?thesis by (intro exI [of _ "Purge t"]) simp
next
  case (ds_accept c)
  then show ?thesis by (intro exI [of _ "Connect c"]) simp
next
  case (ds_advertise iface)
  then show ?thesis by (intro exI [of _ "Advertise iface"]) simp
qed

lemma daemon_run_Cons:
  "daemon_run D cfg verify hash_order s' tr s'' \<Longrightarrow> daemon_step D cfg verify hash_order s e s' \<Longrightarrow>
   daemon_run D cfg verify hash_order s ((e, dm_db s) # tr) s''"
proof (induction rule: daemon_run.induct)
  case dr_refl
  then show ?case using dr_step [OF daemon_run.dr_refl] by fastforce
next
  case (dr_step tr s1 e1 s2)
  then show ?case using daemon_run.dr_step [of D cfg verify hash_order s "(e, dm_db s) # tr" s1 e1 s2] by simp
qed

lemma run_commands_run:
  "run_commands D cfg verify hash_order xs s = Some (tr, s') \<Longrightarrow> daemon_run D cfg verify hash_order s tr s'"
proof (induction xs arbitrary: s tr)
  case (Cons x xs)
  then obtain e s1 tr' where p: "perform D cfg verify hash_order x s = Some (e, s1)"
    and r: "run_commands D cfg verify hash_order xs s1 = Some (tr', s')" and "tr = (e, dm_db s) # tr'"
    by (auto split: option.splits)
  with daemon_run_Cons [OF Cons.IH [OF r] perform_step [OF p]] show ?case by simp
qed (simp add: dr_refl)

text \<open>The packet in progress is always finished by its own steps.\<close>

lemma packet_finishes:
  assumes "dm_dhcp s = Some (j, p)"
  shows "\<exists>tr s'. daemon_run D cfg verify hash_order s tr s' \<and> dm_dhcp s' = None \<and> dm_calls s' = dm_calls s \<and>
    dm_db s' = snd (run_alone p (dm_db s)) \<and> (\<exists>action d. last tr = (Replied j (fst (run_alone p (dm_db s))) action, d))"
  using assms
proof (induction p arbitrary: s)
  case (Return r)
  then have st: "daemon_step D cfg verify hash_order s
      (Replied j r (case r of None \<Rightarrow> NoSend | Some x \<Rightarrow> send_response (j_ips j) None (j_packet j) x)) (s\<lparr> dm_dhcp := None \<rparr>)"
    by (intro ds_reply) simp_all
  from daemon_run_Cons [OF dr_refl st] show ?case by (intro exI conjI) (assumption, simp_all)
next
  case (Await k)
  obtain q d where k: "k (dm_db s) = (q, d)" by fastforce
  let ?s = "s\<lparr> dm_db := d, dm_dhcp := Some (j, q) \<rparr>"
  have st: "daemon_step D cfg verify hash_order s Awaited ?s" using Await.prems k by (rule ds_handle)
  have "q \<in> Basic_BNFs.fsts (k (dm_db s))" by (simp add: k)
  from Await.IH [OF rangeI this, of ?s] obtain tr s' action d' where
    r: "daemon_run D cfg verify hash_order ?s tr s'" and "dm_dhcp s' = None" "dm_calls s' = dm_calls s"
      "dm_db s' = snd (run_alone q d)" "last tr = (Replied j (fst (run_alone q d)) action, d')"
    by auto
  moreover have "tr \<noteq> []" using r \<open>dm_dhcp s' = None\<close> by cases auto
  ultimately show ?case using k
    by (intro exI [of _ "(Awaited, dm_db s) # tr"] exI [of _ s'] conjI daemon_run_Cons [OF r st]) simp_all
qed

section \<open>What a task has seen\<close>

text \<open>The program that is left after the databases it found.\<close>

primrec feed :: "('db, 'r) prog \<Rightarrow> 'db list \<Rightarrow> ('db, 'r) prog" where
  "feed (Return r) = (\<lambda>ds. Return r)"
| "feed (Await k) = (\<lambda>ds.
     case ds of [] \<Rightarrow> Await k | d # ds' \<Rightarrow> (case map_prod feed id (k d) of (go, _) \<Rightarrow> go ds'))"

lemma feed_snoc: "feed p ds = Await k \<Longrightarrow> feed p (ds @ [d]) = fst (k d)"
proof (induction p arbitrary: ds)
  case (Await k')
  show ?case
  proof (cases ds)
    case Nil
    with Await.prems have "k' = k" by simp
    moreover have "feed q [] = q" for q by (cases q) simp_all
    ultimately show ?thesis using Nil by (simp add: case_prod_unfold)
  next
    case (Cons e es)
    have "fst (k' e) \<in> Basic_BNFs.fsts (k' e)" by (cases "k' e") simp
    from Await.IH [OF rangeI this, of es] Await.prems Cons show ?thesis by (simp add: case_prod_unfold)
  qed
qed simp

lemma feed_play: "feed p ds = Return r \<Longrightarrow> \<exists>ws. play p ds = Some (r, ws)"
proof (induction p arbitrary: ds)
  case (Await k)
  then obtain d es where ds: "ds = d # es" by (cases ds) auto
  have "fst (k d) \<in> Basic_BNFs.fsts (k d)" by (cases "k d") simp
  from Await.IH [OF rangeI this, of es] Await.prems ds show ?case by (auto simp: case_prod_unfold)
qed simp

definition descends :: "('db, 'r) prog \<Rightarrow> 'db set \<Rightarrow> ('db, 'r) prog \<Rightarrow> bool" where
  "descends q M p \<longleftrightarrow> (\<exists>ds. set ds \<subseteq> M \<and> feed q ds = p)"

lemma descends_refl: "descends q M q"
  unfolding descends_def by (rule exI [of _ "[]"]) (cases q, simp_all)

lemma descends_mono: "descends q M p \<Longrightarrow> M \<subseteq> N \<Longrightarrow> descends q N p"
  unfolding descends_def by blast

lemma descends_await: "descends q M (Await k) \<Longrightarrow> k d = (p, d') \<Longrightarrow> descends q (insert d M) p"
  unfolding descends_def using feed_snoc [of q _ k d] by (metis fst_conv insert_mono list.set(1,2) set_append Un_insert_right sup_bot_right)

lemma descends_play:
  assumes "descends q M (Return r)"
  obtains ds ws where "set ds \<subseteq> M" and "play q ds = Some (r, ws)"
  using assms feed_play unfolding descends_def by metis

text \<open>Every task of a state, and every answer of a run, comes from the databases before it.\<close>

definition tracked ::
  "'db database \<Rightarrow> config \<Rightarrow> (string \<Rightarrow> string \<Rightarrow> string + bool) \<Rightarrow> 'db set \<Rightarrow> 'db daemon \<Rightarrow> bool" where
  "tracked D cfg verify M s \<longleftrightarrow>
     (\<forall>j p. dm_dhcp s = Some (j, p) \<longrightarrow> descends (job_prog D cfg j) M p) \<and>
     (\<forall>(c, p)\<in>set (dm_calls s). c_listener c \<in> set (api_listeners cfg) \<and> descends (call_prog D cfg verify c) M p)"

fun explained ::
  "'db database \<Rightarrow> config \<Rightarrow> (string \<Rightarrow> string \<Rightarrow> string + bool) \<Rightarrow> 'db set \<Rightarrow> event \<Rightarrow> bool" where
  "explained D cfg verify M (Replied j resp action) \<longleftrightarrow> descends (job_prog D cfg j) M (Return resp)"
| "explained D cfg verify M (Answered c r) \<longleftrightarrow>
     c_listener c \<in> set (api_listeners cfg) \<and> descends (call_prog D cfg verify c) M (Return r)"
| "explained D cfg verify M e \<longleftrightarrow> True"

lemma tracked_mono: "tracked D cfg verify M s \<Longrightarrow> M \<subseteq> N \<Longrightarrow> tracked D cfg verify N s"
  by (auto simp: tracked_def intro: descends_mono)

lemma explained_mono: "explained D cfg verify M e \<Longrightarrow> M \<subseteq> N \<Longrightarrow> explained D cfg verify N e"
  by (cases e) (auto intro: descends_mono)

lemma step_tracked:
  assumes "daemon_step D cfg verify hash_order s e s'" and "tracked D cfg verify M s"
  shows "tracked D cfg verify (insert (dm_db s) M) s' \<and> explained D cfg verify (insert (dm_db s) M) e"
  using assms(1)
proof cases
  case ds_handle
  with assms(2) show ?thesis
    using tracked_mono [OF assms(2) subset_insertI] by (auto simp: tracked_def intro: descends_await)
next
  case (ds_serve xs c k ys p db')
  with assms(2) have "descends (call_prog D cfg verify c) M (Await k)" by (auto simp: tracked_def)
  from descends_await [OF this ds_serve(4)] ds_serve show ?thesis
    using tracked_mono [OF assms(2) subset_insertI] by (auto simp: tracked_def)
qed (use tracked_mono [OF assms(2) subset_insertI] in \<open>auto simp: tracked_def intro: descends_refl\<close>)

lemma run_tracked:
  assumes "daemon_run D cfg verify hash_order (idle now db) tr s"
  shows "tracked D cfg verify (databases tr) s \<and> (\<forall>(e, d)\<in>set tr. explained D cfg verify (databases tr) e)"
  using assms
proof induction
  case (dr_step tr s' e s'')
  from step_tracked [OF dr_step.hyps(2)] dr_step.IH
  have "tracked D cfg verify (insert (dm_db s') (databases tr)) s''"
    and "explained D cfg verify (insert (dm_db s') (databases tr)) e" by auto
  with dr_step.IH show ?case by (auto intro: explained_mono)
qed (simp add: tracked_def idle_def)

section \<open>The owners of addresses\<close>

text \<open>
  With \<open>m\<close> steps to go: requests administer, and the packet being handled keeps the owners
  whatever the other tasks do in these steps.
\<close>

definition daemon_inv ::
  "'db database \<Rightarrow> (nat \<Rightarrow> 'db \<Rightarrow> bool) \<Rightarrow> ('db \<Rightarrow> lease set) \<Rightarrow> nat \<Rightarrow> 'db daemon \<Rightarrow> bool" where
  "daemon_inv D valid ls m s \<longleftrightarrow>
     (\<forall>(c, p)\<in>set (dm_calls s). administrative D p) \<and>
     (case dm_dhcp s of
        None \<Rightarrow> holding valid ls 0 (owners_ok (dm_now s)) m (dm_db s)
      | Some (j, p) \<Rightarrow>
          safe (other_task D) (holding valid ls 0 (owners_ok (dm_now s)))
            (\<lambda>_. holding valid ls 0 (owners_ok (dm_now s))) m p (dm_db s))"

context admin_store
begin

lemma holding_Suc: "holding inv leases 0 X (Suc n) db \<Longrightarrow> holding inv leases 0 X n db"
  using inv_mono [of n db] by (simp add: holding_def)

lemma daemon_inv_owners: "daemon_inv D inv leases m s \<Longrightarrow> holding inv leases 0 (owners_ok (dm_now s)) m (dm_db s)"
  by (auto simp: daemon_inv_def split: option.splits dest: safe_holds)

text \<open>The packet in progress over a step of another task, and over one of its own.\<close>

lemma daemon_inv_other:
  assumes "daemon_inv D inv leases (Suc m) s" and "other_task D (dm_db s) db' \<or> db' = dm_db s"
    and "\<forall>(c, p)\<in>set cs. administrative D p"
  shows "daemon_inv D inv leases m (s\<lparr> dm_db := db', dm_calls := cs \<rparr>)"
proof (cases "dm_dhcp s")
  case None
  with assms(1) have h: "holding inv leases 0 (owners_ok (dm_now s)) (Suc m) (dm_db s)" by (simp add: daemon_inv_def)
  have "holding inv leases 0 (owners_ok (dm_now s)) m db'"
    using assms(2) h stable_owners [of 0 "dm_now s"] holding_Suc [OF h] by (auto simp: stable_under_def)
  with None assms(3) show ?thesis by (simp add: daemon_inv_def)
next
  case (Some x)
  obtain j p where x: "x = (j, p)" by fastforce
  with Some assms(1) have s: "safe (other_task D) (holding inv leases 0 (owners_ok (dm_now s)))
      (\<lambda>_. holding inv leases 0 (owners_ok (dm_now s))) (Suc m) p (dm_db s)"
    by (simp add: daemon_inv_def)
  have "safe (other_task D) (holding inv leases 0 (owners_ok (dm_now s)))
      (\<lambda>_. holding inv leases 0 (owners_ok (dm_now s))) m p db'"
    using assms(2) safe_other [OF s, of db'] safe_Suc [OF s] holding_Suc by blast
  with Some x assms(3) show ?thesis by (simp add: daemon_inv_def)
qed

lemma daemon_step_inv:
  assumes "daemon_step D cfg verify hash_order s e s'" and i: "daemon_inv D inv leases (Suc m) s"
  shows "daemon_inv D inv leases m s'"
proof -
  have calls: "\<forall>(c, p)\<in>set (dm_calls s). administrative D p" using i by (simp add: daemon_inv_def)
  have same: "daemon_inv D inv leases m (s\<lparr> dm_calls := cs \<rparr>)" if "\<forall>(c, p)\<in>set cs. administrative D p" for cs
    using daemon_inv_other [OF i _ that, of "dm_db s"] by simp
  show ?thesis
    using assms(1)
  proof cases
    case (ds_receive iface data packet t1 t2 j iface_ips)
    with i have h: "holding inv leases 0 (owners_ok (dm_now s)) (Suc m) (dm_db s)" by (simp add: daemon_inv_def)
    then have "owners_ok t1 (leases (dm_db s))" using owners_ok_mono ds_receive(6) by (auto simp: holding_def)
    with h safe_packet [OF ds_receive(7), of m "dm_db s" packet iface_ips cfg] ds_receive calls
    show ?thesis by (simp add: daemon_inv_def holding_def job_prog_def)
  next
    case (ds_handle j k p db')
    with i have s: "safe (other_task D) (holding inv leases 0 (owners_ok (dm_now s)))
        (\<lambda>_. holding inv leases 0 (owners_ok (dm_now s))) (Suc m) p db'"
      using safe_await [of "other_task D" _ _ "Suc m" k "dm_db s"] by (simp add: daemon_inv_def)
    with safe_Suc [OF s holding_Suc holding_Suc] ds_handle calls show ?thesis by (simp add: daemon_inv_def)
  next
    case (ds_reply j resp action mac)
    with i have "holding inv leases 0 (owners_ok (dm_now s)) m (dm_db s)"
      by (auto simp: daemon_inv_def dest: safe_return intro: holding_Suc)
    with ds_reply calls show ?thesis by (simp add: daemon_inv_def)
  next
    case (ds_purge t)
    then show ?thesis
      using daemon_inv_other [OF i _ calls, of "cleanup_step D t (dm_db s)"] other_purge [of D "dm_db s" t] by simp
  next
    case (ds_serve xs c k ys p db')
    with calls have "administrative D (Await k)" by auto
    with ds_serve(4) have "administrative D p" "other_task D (dm_db s) db' \<or> db' = dm_db s"
      by (auto elim!: administrative_AwaitE) (metis fst_conv, metis other_admin snd_conv)
    with ds_serve calls show ?thesis using daemon_inv_other [OF i, of db' "xs @ (c, p) # ys"] by auto
  next
    case (ds_accept c)
    have "administrative D (call_prog D cfg verify c)" unfolding call_prog_def by (rule adm_router)
    with ds_accept same [of "dm_calls s @ [(c, call_prog D cfg verify c)]"] calls show ?thesis by simp
  next
    case (ds_answer xs c r ys)
    then show ?thesis using same [of "xs @ ys"] calls by auto
  qed (use same [OF calls] in simp_all)
qed

lemma daemon_run_inv:
  assumes "daemon_run D cfg verify hash_order s tr s'" and "daemon_inv D inv leases (length tr + m) s"
  shows "daemon_inv D inv leases m s'"
  using assms
proof (induction arbitrary: m rule: daemon_run.induct)
  case (dr_step tr s' e s'')
  then show ?case using daemon_step_inv [OF dr_step.hyps(2), of m] dr_step.IH [of "Suc m"] by simp
qed simp

lemma daemon_run_owners:
  assumes "daemon_run D cfg verify hash_order (idle now db) tr s"
    and "inv (length tr) db" and "owners_ok now (leases db)"
  shows "inv 0 (dm_db s) \<and> owners_ok (dm_now s) (leases (dm_db s))"
proof -
  have "daemon_inv D inv leases (length tr + 0) (idle now db)"
    using assms(2,3) by (simp add: daemon_inv_def idle_def holding_def)
  from daemon_run_inv [OF assms(1) this]
  have "holding inv leases 0 (owners_ok (dm_now s)) 0 (dm_db s)" by (rule daemon_inv_owners)
  then show ?thesis by (simp add: holding_def)
qed

end

section \<open>An example\<close>

text \<open>
  A client asks for an address while an administrator with a token deletes the subnet over TCP,
  between the check and the storing of the lease; then leases are purged.
\<close>

definition lab_config :: config where
  "lab_config = (config_default Linux)\<lparr> cfg_api := (cfg_api (config_default Linux))\<lparr> api_require_authentication := Some True \<rparr> \<rparr>"

definition lab_call :: api_call where
  "lab_call = \<lparr> c_listener = TcpListener ''127.0.0.1'' 8080 True, c_now = 10, c_token = [], c_hashed = Inl [],
     c_auth = Some ''Bearer abc'', c_request = DelSubnet 1 \<rparr>"

definition lab_daemon_db :: memory_db where
  "lab_daemon_db = lab_db\<lparr> m_tokens := [(1, ''admin'', ''abc'', 1)], next_token_id := 2 \<rparr>"

definition lab_script :: "daemon_command list" where
  "lab_script =
     [Connect lab_call, Serve 0, Datagram ''eth0'' (packet_to_bytes (lab_client Request 0xC0A80164 1)) [0xC0A80101] 10 10,
      Handle, Handle, Serve 0, Handle, Handle, Serve 0, Handle, Answer 0, Reply None, Purge 11]"

definition lab_execution :: "((event \<times> memory_db) list \<times> memory_db daemon) option" where
  "lab_execution = run_commands memory_database lab_config (token_verify Some (=)) id lab_script (idle 0 lab_daemon_db)"

fun is_answer :: "event \<Rightarrow> bool" where
  "is_answer (Answered c r) \<longleftrightarrow> c = lab_call \<and> r = Inr (NO_CONTENT, NoBody)"
| "is_answer e \<longleftrightarrow> False"

fun is_ack :: "event \<Rightarrow> bool" where
  "is_ack (Replied j (Some r) action) \<longleftrightarrow> get_message_type r = Some Ack \<and> yiaddr r = 0xC0A80164"
| "is_ack e \<longleftrightarrow> False"

lemma lab_execution_events:
  "case lab_execution of
     None \<Rightarrow> False
   | Some (tr, s) \<Rightarrow> length tr = 13 \<and> list_ex (is_answer \<circ> fst) tr \<and> list_ex (is_ack \<circ> fst) tr \<and>
       dm_now s = 10 \<and> m_subnets (dm_db s) = [] \<and> map l_ip_address (m_leases (dm_db s)) = [0xC0A80164]"
  by code_simp

lemma lab_daemon_run:
  obtains tr s where "daemon_run memory_database lab_config (token_verify Some (=)) id (idle 0 lab_daemon_db) tr s"
    and "length tr = 13" and "\<exists>x\<in>set tr. is_answer (fst x)" and "\<exists>x\<in>set tr. is_ack (fst x)"
    and "dm_now s = 10" and "m_subnets (dm_db s) = []" and "map l_ip_address (m_leases (dm_db s)) = [0xC0A80164]"
proof (cases lab_execution)
  case None
  with lab_execution_events show thesis by simp
next
  case (Some x)
  obtain tr s where x: "x = (tr, s)" by fastforce
  with Some have "daemon_run memory_database lab_config (token_verify Some (=)) id (idle 0 lab_daemon_db) tr s"
    by (intro run_commands_run) (simp add: lab_execution_def)
  moreover have "length tr = 13" "\<exists>x\<in>set tr. is_answer (fst x)"
    "\<exists>x\<in>set tr. is_ack (fst x)" "dm_now s = 10" "m_subnets (dm_db s) = []"
    "map l_ip_address (m_leases (dm_db s)) = [0xC0A80164]"
    using lab_execution_events [unfolded Some x] by (simp_all add: list_ex_iff)
  ultimately show thesis by (rule that)
qed

section \<open>Properties\<close>

text \<open>
  C2. The running daemon never gives an address two holders: in every run of the whole daemon,
  with packets, requests on any listener, purges and advertisements interleaved at every database
  call, over every database that keeps the contract for the number of steps, the active leases of
  an address belong to one client at every moment, in the middle of a packet too.
\<close>

theorem daemon_owners:
  assumes "admin_store D subnets ranges statics leases valid"
    and "daemon_run D cfg verify hash_order (idle now db) tr s"
    and "valid (length tr) db" and "owners_ok now (leases db)"
  shows "valid 0 (dm_db s) \<and> owners_ok (dm_now s) (leases (dm_db s))"
  using assms(2-4) by (rule admin_store.daemon_run_owners [OF assms(1)])

theorem daemon_owners_witness:
  "\<exists>tr s. daemon_run memory_database lab_config (token_verify Some (=)) id (idle 0 lab_daemon_db) tr s \<and>
     m_subnets (dm_db s) = [] \<and> map l_ip_address (m_leases (dm_db s)) = [0xC0A80164] \<and>
     owners_ok 10 (set (m_leases (dm_db s)))"
proof (rule lab_daemon_run)
  fix tr s
  assume run: "daemon_run memory_database lab_config (token_verify Some (=)) id (idle 0 lab_daemon_db) tr s"
    and l: "length tr = 13" and s: "dm_now s = 10" "m_subnets (dm_db s) = []" "map l_ip_address (m_leases (dm_db s)) = [0xC0A80164]"
  have "mem_inv (length tr) lab_daemon_db"
    unfolding l by (simp add: mem_inv_def lab_daemon_db_def lab_db_def mem_new_def lab_subnet_def lab_range_def table_ok_def i64_max_def)
  moreover have "owners_ok 0 (set (m_leases lab_daemon_db))"
    by (simp add: owners_ok_def lab_daemon_db_def lab_db_def mem_new_def)
  ultimately have "owners_ok (dm_now s) (set (m_leases (dm_db s)))"
    by (intro conjunct2 [OF daemon_owners [OF mem_admin.admin_store_axioms run]])
  then have own: "owners_ok 10 (set (m_leases (dm_db s)))" unfolding s(1) .
  show ?thesis by (intro exI conjI) (rule run, rule s(2), rule s(3), rule own)
qed





end
