(* ===== verification/Daemon_Liveness.thy ===== *)
theory Daemon_Liveness
  imports Daemon
begin

text \<open>
  The running daemon answers. An execution is an infinite sequence of steps with the choices of
  the scheduler; it is fair when a packet in progress gets a turn again and again, and when the
  oldest request in flight does. Under that fairness every packet that is taken is finished and
  every request that is accepted is answered, however long other tasks change the database in
  between: no handler waits for another one and none runs forever.
\<close>

section \<open>Executions\<close>

definition execution ::
  "'db database \<Rightarrow> config \<Rightarrow> (string \<Rightarrow> string \<Rightarrow> string + bool) \<Rightarrow> (ipv6 list \<Rightarrow> ipv6 list) \<Rightarrow>
   (nat \<Rightarrow> daemon_command) \<Rightarrow> (nat \<Rightarrow> event) \<Rightarrow> (nat \<Rightarrow> 'db daemon) \<Rightarrow> bool" where
  "execution D cfg verify hash_order c e s \<longleftrightarrow>
     (\<forall>n. perform D cfg verify hash_order (c n) (s n) = Some (e n, s (Suc n)))"

fun packet_turn :: "daemon_command \<Rightarrow> bool" where
  "packet_turn Handle \<longleftrightarrow> True"
| "packet_turn (Reply mac) \<longleftrightarrow> True"
| "packet_turn _ \<longleftrightarrow> False"

definition oldest_turn :: "daemon_command \<Rightarrow> bool" where
  "oldest_turn x \<longleftrightarrow> x = Serve 0 \<or> x = Answer 0"

definition fair :: "(nat \<Rightarrow> daemon_command) \<Rightarrow> (nat \<Rightarrow> 'db daemon) \<Rightarrow> bool" where
  "fair c s \<longleftrightarrow>
     (\<forall>n. (dm_dhcp (s n) \<noteq> None \<longrightarrow> (\<exists>m\<ge>n. packet_turn (c m))) \<and>
          (dm_calls (s n) \<noteq> [] \<longrightarrow> (\<exists>m\<ge>n. oldest_turn (c m))))"

lemma executionD: "execution D cfg verify hash_order c e s \<Longrightarrow> perform D cfg verify hash_order (c n) (s n) = Some (e n, s (Suc n))"
  by (simp add: execution_def)

text \<open>What holds until a turn holds at the turn.\<close>

lemma holds_until:
  assumes "P n" and "\<And>i. P i \<Longrightarrow> \<not> turn i \<Longrightarrow> P (Suc i)" and "n \<le> m" and "turn m"
  shows "\<exists>i\<ge>n. turn i \<and> P i"
  using assms(3,1,4)
proof (induction rule: inc_induct)
  case (step i)
  show ?case
  proof (cases "turn i")
    case False
    with step assms(2) obtain j where "j \<ge> Suc i" "turn j" "P j" by blast
    then show ?thesis by (meson Suc_leD)
  qed (use step.prems in blast)
qed blast

section \<open>The packet in progress\<close>

lemma packet_stays:
  assumes "perform D cfg verify hash_order x s = Some (e, s')" and "dm_dhcp s \<noteq> None" and "\<not> packet_turn x"
  shows "dm_dhcp s' = dm_dhcp s"
  using assms by (cases x) (auto split: option.splits if_splits list.splits prog.splits prod.splits)

lemma packet_gets_turn:
  assumes ex: "execution D cfg verify hash_order c e s" and "fair c s" and here: "dm_dhcp (s n) = Some (j, p)"
  obtains m where "n \<le> m" and "packet_turn (c m)" and "dm_dhcp (s m) = Some (j, p)"
proof -
  from assms(2) here obtain m where "n \<le> m" "packet_turn (c m)" unfolding fair_def by blast
  with holds_until [of "\<lambda>i. dm_dhcp (s i) = Some (j, p)" n "\<lambda>i. packet_turn (c i)"] here
    packet_stays [OF executionD [OF ex]] show thesis using that by force
qed

lemma packet_finished:
  assumes ex: "execution D cfg verify hash_order c e s" and "fair c s" and "dm_dhcp (s n) = Some (j, p)"
  shows "\<exists>m\<ge>n. \<exists>resp action. e m = Replied j resp action"
  using assms(3)
proof (induction p arbitrary: n)
  case (Return r)
  with packet_gets_turn [OF ex assms(2)] obtain m where m: "n \<le> m" "packet_turn (c m)"
    and "dm_dhcp (s m) = Some (j, Return r)" by metis
  then have "\<exists>resp action. e m = Replied j resp action" using executionD [OF ex, of m] by (cases "c m") (auto dest: sym)
  with m(1) show ?case by blast
next
  case (Await k)
  with packet_gets_turn [OF ex assms(2)] obtain m where m: "n \<le> m" "packet_turn (c m)"
    and here: "dm_dhcp (s m) = Some (j, Await k)" by metis
  obtain q d where k: "k (dm_db (s m)) = (q, d)" by fastforce
  with m here executionD [OF ex, of m] have "dm_dhcp (s (Suc m)) = Some (j, q)"
    by (cases "c m") (auto dest!: sym [of _ "s (Suc m)"])
  moreover have "q \<in> Basic_BNFs.fsts (k (dm_db (s m)))" by (simp add: k)
  ultimately obtain i where "Suc m \<le> i" "\<exists>resp action. e i = Replied j resp action" using Await.IH [OF rangeI] by blast
  with m(1) show ?case by (meson Suc_leD le_trans)
qed

section \<open>The requests in flight\<close>

text \<open>The request \<open>a\<close> is the \<open>k\<close>-th one in flight, with the program \<open>p\<close> left.\<close>

definition in_flight :: "'db daemon \<Rightarrow> nat \<Rightarrow> api_call \<Rightarrow> ('db, api_answer) prog \<Rightarrow> bool" where
  "in_flight s k a p \<longleftrightarrow> k < length (dm_calls s) \<and> dm_calls s ! k = (a, p)"

lemma in_flight_0: "in_flight s 0 a p \<longleftrightarrow> (\<exists>ys. dm_calls s = (a, p) # ys)"
  by (cases "dm_calls s") (auto simp: in_flight_def)

lemma drop_split:
  assumes "drop i xs = x # ys"
  shows "i < length xs" and "xs ! i = x" and "ys = drop (Suc i) xs" and "take i xs @ y # ys = xs[i := y]"
proof -
  show i: "i < length xs" using assms by (metis drop_all linorder_not_le list.distinct(1))
  with assms show "xs ! i = x" "ys = drop (Suc i) xs" by (simp_all add: Cons_nth_drop_Suc [symmetric])
  with i show "take i xs @ y # ys = xs[i := y]" by (simp add: upd_conv_take_nth_drop)
qed

lemma nth_remove:
  assumes "drop i xs = x # ys" and "k < length xs" and "k \<noteq> i"
  defines "k' \<equiv> if k < i then k else k - 1"
  shows "k' < length (take i xs @ ys)" and "(take i xs @ ys) ! k' = xs ! k"
  using assms(2,3) drop_split(1,3) [OF assms(1)] by (auto simp: k'_def nth_append)

text \<open>A step either answers the request or leaves it in flight, never further back.\<close>

lemma call_moves:
  assumes "perform D cfg verify hash_order x s = Some (e, s')" and "in_flight s k a p"
  shows "(x = Answer k \<and> (\<exists>r. e = Answered a r)) \<or>
    (\<exists>k' p'. in_flight s' k' a p' \<and> k' \<le> k \<and> (x = Answer 0 \<longrightarrow> k' < k) \<and> (x \<noteq> Serve k \<longrightarrow> p' = p) \<and>
       (k = 0 \<longrightarrow> x \<noteq> Answer 0))"
proof (cases x)
  case (Serve i)
  with assms(1) obtain b f ys q where d: "drop i (dm_calls s) = (b, Await f) # ys"
    and s': "dm_calls s' = take i (dm_calls s) @ (b, q) # ys"
    by (auto split: list.splits prog.splits prod.splits)
  have "dm_calls s' = (dm_calls s)[i := (b, q)]" and "dm_calls s ! i = (b, Await f)"
    using drop_split [OF d] unfolding s' by simp_all
  with assms(2) Serve show ?thesis by (cases "i = k") (auto simp: in_flight_def)
next
  case (Answer i)
  with assms(1) obtain b r ys where d: "drop i (dm_calls s) = (b, Return r) # ys"
    and s': "dm_calls s' = take i (dm_calls s) @ ys" "e = Answered b r"
    by (auto split: list.splits prog.splits)
  show ?thesis
  proof (cases "i = k")
    case True
    with drop_split(2) [OF d] assms(2) have "b = a" by (simp add: in_flight_def)
    with True Answer s' show ?thesis by blast
  next
    case False
    with nth_remove [OF d, of k] assms(2) s'(1) Answer show ?thesis
      by (intro disjI2 exI [of _ "if k < i then k else k - 1"] exI [of _ p]) (auto simp: in_flight_def)
  qed
next
  case (Connect b)
  with assms show ?thesis by (auto simp: in_flight_def nth_append split: if_splits)
qed (use assms in \<open>auto simp: in_flight_def Let_def split: option.splits if_splits sum.splits prog.splits prod.splits\<close>)

text \<open>The oldest request is answered.\<close>

lemma oldest_gets_turn:
  assumes ex: "execution D cfg verify hash_order c e s" and "fair c s" and here: "in_flight (s n) 0 a p"
  obtains m where "n \<le> m" and "oldest_turn (c m)" and "in_flight (s m) 0 a p"
proof -
  from here have "dm_calls (s n) \<noteq> []" by (auto simp: in_flight_0)
  with assms(2) obtain m where "n \<le> m" "oldest_turn (c m)" unfolding fair_def by blast
  moreover have "in_flight (s (Suc i)) 0 a p" if "in_flight (s i) 0 a p" "\<not> oldest_turn (c i)" for i
    using call_moves [OF executionD [OF ex] that(1)] that(2) by (auto simp: oldest_turn_def)
  ultimately show thesis
    using holds_until [of "\<lambda>i. in_flight (s i) 0 a p" n "\<lambda>i. oldest_turn (c i)" m] here that by blast
qed

lemma oldest_answered:
  assumes ex: "execution D cfg verify hash_order c e s" and "fair c s" and "in_flight (s n) 0 a p"
  shows "\<exists>m\<ge>n. c m = Answer 0"
  using assms(3)
proof (induction p arbitrary: n)
  case (Return r)
  with oldest_gets_turn [OF ex assms(2)] obtain m where m: "n \<le> m" "oldest_turn (c m)"
    and "in_flight (s m) 0 a (Return r)" by metis
  then have "c m \<noteq> Serve 0" using executionD [OF ex, of m] by (auto simp: in_flight_0)
  with m show ?case by (auto simp: oldest_turn_def)
next
  case (Await k)
  with oldest_gets_turn [OF ex assms(2)] obtain m where m: "n \<le> m" "oldest_turn (c m)"
    and here: "in_flight (s m) 0 a (Await k)" by metis
  obtain q d where k: "k (dm_db (s m)) = (q, d)" by fastforce
  with m here executionD [OF ex, of m] have "in_flight (s (Suc m)) 0 a q"
    by (auto simp: in_flight_0 oldest_turn_def dest!: sym [of _ "s (Suc m)"])
  moreover have "q \<in> Basic_BNFs.fsts (k (dm_db (s m)))" by (simp add: k)
  ultimately obtain i where "Suc m \<le> i" "c i = Answer 0" using Await.IH [OF rangeI] by blast
  with m(1) show ?case by (meson Suc_leD le_trans)
qed

text \<open>A request stays in flight until it is answered, and never falls back.\<close>

lemma call_tracked:
  assumes ex: "execution D cfg verify hash_order c e s" and "in_flight (s n) k a p" and "n \<le> m"
  shows "(\<exists>i\<ge>n. \<exists>r. e i = Answered a r) \<or> (\<exists>k' p'. k' \<le> k \<and> in_flight (s m) k' a p')"
  using assms(3)
proof (induction rule: dec_induct)
  case base
  with assms(2) show ?case by blast
next
  case (step i)
  then show ?case using call_moves [OF executionD [OF ex], of i] by (metis le_trans)
qed

lemma call_answered:
  assumes ex: "execution D cfg verify hash_order c e s" and fr: "fair c s" and "in_flight (s n) k a p"
  shows "\<exists>m\<ge>n. \<exists>r. e m = Answered a r"
  using assms(3)
proof (induction k arbitrary: n p rule: less_induct)
  case (less k)
  then obtain b q where "in_flight (s n) 0 b q"
    by (cases "dm_calls (s n)") (auto simp: in_flight_def)
  with oldest_answered [OF ex fr] obtain m where m: "n \<le> m" "c m = Answer 0" by blast
  from call_tracked [OF ex less.prems m(1)] show ?case
  proof
    assume "\<exists>k' p'. k' \<le> k \<and> in_flight (s m) k' a p'"
    then obtain k' p' where k': "k' \<le> k" "in_flight (s m) k' a p'" by blast
    from call_moves [OF executionD [OF ex] k'(2)] m(2)
    consider r where "e m = Answered a r" | i p'' where "in_flight (s (Suc m)) i a p''" "i < k'" by blast
    then show ?thesis
    proof cases
      case 2
      with less.IH [of i "Suc m"] k'(1) obtain j r where "Suc m \<le> j" "e j = Answered a r" by (meson order_less_le_trans)
      with m(1) show ?thesis by (meson Suc_leD le_trans)
    qed (use m(1) in blast)
  qed
qed

section \<open>Finite runs\<close>

text \<open>A finite run that leaves nothing in progress goes on as a fair execution.\<close>

lemma quiet_purges:
  fixes s :: "'db daemon" and D :: "'db database"
  defines "f \<equiv> \<lambda>s. s\<lparr> dm_db := cleanup_step D 0 (dm_db s) \<rparr>"
  assumes "dm_dhcp s = None" and "dm_calls s = []"
  shows "execution D cfg verify hash_order (\<lambda>_. Purge 0) (\<lambda>_. Purged 0) (\<lambda>n. (f ^^ n) s)"
    and "dm_dhcp ((f ^^ n) s) = None \<and> dm_calls ((f ^^ n) s) = []"
proof -
  show "execution D cfg verify hash_order (\<lambda>_. Purge 0) (\<lambda>_. Purged 0) (\<lambda>n. (f ^^ n) s)"
    by (simp add: execution_def f_def)
  show "dm_dhcp ((f ^^ n) s) = None \<and> dm_calls ((f ^^ n) s) = []"
    using assms by (induction n) simp_all
qed

lemma run_extends:
  assumes "run_commands D cfg verify hash_order xs s0 = Some (tr, s')" and "dm_dhcp s' = None" and "dm_calls s' = []"
  shows "\<exists>c e s. execution D cfg verify hash_order c e s \<and> s 0 = s0 \<and> (\<forall>n < length xs. c n = xs ! n) \<and>
    (\<forall>n \<ge> length xs. dm_dhcp (s n) = None \<and> dm_calls (s n) = [])"
  using assms(1)
proof (induction xs arbitrary: s0 tr)
  case Nil
  then have "s0 = s'" by simp
  with quiet_purges [OF assms(2,3)] show ?case by (intro exI conjI allI impI) (assumption, simp_all)
next
  case (Cons x xs)
  then obtain e0 s1 tr' where p: "perform D cfg verify hash_order x s0 = Some (e0, s1)"
    and "run_commands D cfg verify hash_order xs s1 = Some (tr', s')"
    by (auto split: option.splits)
  with Cons.IH obtain c e s where ex: "execution D cfg verify hash_order c e s" and s: "s 0 = s1"
    and c: "\<forall>n < length xs. c n = xs ! n" and quiet: "\<forall>n \<ge> length xs. dm_dhcp (s n) = None \<and> dm_calls (s n) = []"
    by blast
  have "execution D cfg verify hash_order (case_nat x c) (case_nat e0 e) (case_nat s0 s)"
    using ex p s by (auto simp: execution_def split: nat.split)
  moreover have "\<forall>n < length (x # xs). case_nat x c n = (x # xs) ! n" using c by (auto simp: less_Suc_eq_0_disj)
  moreover have "\<forall>n \<ge> length (x # xs). dm_dhcp (case_nat s0 s n) = None \<and> dm_calls (case_nat s0 s n) = []"
  proof (intro allI impI)
    fix n assume "length (x # xs) \<le> n"
    then obtain m where "n = Suc m" "length xs \<le> m" by (cases n) auto
    with quiet show "dm_dhcp (case_nat s0 s n) = None \<and> dm_calls (case_nat s0 s n) = []" by simp
  qed
  ultimately show ?case by (intro exI conjI) (assumption, simp, assumption, assumption)
qed

lemma quiet_fair:
  assumes ex: "execution D cfg verify hash_order c e s"
    and quiet: "\<And>n. l \<le> n \<Longrightarrow> dm_dhcp (s n) = None \<and> dm_calls (s n) = []"
  shows "fair c s"
  unfolding fair_def
proof (intro allI conjI impI)
  fix n assume busy: "dm_dhcp (s n) \<noteq> None"
  have "dm_dhcp (s m) \<noteq> None" if "n \<le> m" "\<forall>i\<ge>n. \<not> packet_turn (c i)" for m
    using that(1)
  proof (induction rule: dec_induct)
    case (step i)
    with packet_stays [OF executionD [OF ex]] that(2) show ?case by (metis le_SucI)
  qed (rule busy)
  with quiet [of "max l n"] show "\<exists>m\<ge>n. packet_turn (c m)" by (metis max.cobounded1 max.cobounded2)
next
  fix n assume "dm_calls (s n) \<noteq> []"
  then obtain a p where busy: "in_flight (s n) 0 a p" by (cases "dm_calls (s n)") (auto simp: in_flight_0)
  have "in_flight (s m) 0 a p" if "n \<le> m" "\<forall>i\<ge>n. \<not> oldest_turn (c i)" for m
    using that(1)
  proof (induction rule: dec_induct)
    case (step i)
    with call_moves [OF executionD [OF ex], of i 0 a p] that(2) show ?case by (auto simp: oldest_turn_def)
  qed (rule busy)
  with quiet [of "max l n"] show "\<exists>m\<ge>n. oldest_turn (c m)"
    by (metis in_flight_0 list.distinct(1) max.cobounded1 max.cobounded2)
qed

lemma lab_execution_quiet:
  "case lab_execution of None \<Rightarrow> False | Some (tr, s) \<Rightarrow> Option.is_none (dm_dhcp s) \<and> dm_calls s = []"
  by code_simp

section \<open>Properties\<close>



end
