(* ===== verification/Config_File.thy ===== *)
theory Config_File
  imports Startup
begin

text \<open>
  The configuration file field by field (\<open>config.rs\<close>): what the attributes of \<open>serde\<close> say of a
  field that the file leaves out. A section as it stands in the file has an option for every
  field; \<open>None\<close> is a field that is not there, and for an optional value \<open>Some None\<close> is an explicit
  null. Reading YAML text into such sections and writing them is \<open>serde_yaml\<close>'s and an argument.
\<close>

section \<open>Sections of the file\<close>

record logging_section =
  ls_syslog :: "bool option"
  ls_level :: "string option"

record api_section =
  as_listen_address :: "string option"
  as_port :: "u16 option"
  as_unix_socket :: "string option option"
  as_require_authentication :: "bool option option"

record dhcp_section =
  ds_default_lease_time :: "u32 option"
  ds_max_lease_time :: "u32 option"
  ds_lease_cleanup_interval_minutes :: "u32 option"

record ra_section =
  rs_enabled :: "bool option"
  rs_ip6_listen_interfaces :: "string list option"
  rs_default_preferred_lifetime :: "u32 option"
  rs_default_valid_lifetime :: "u32 option"
  rs_default_dns_lifetime :: "u32 option"

record config_section =
  cs_listen_interfaces :: "string list option"
  cs_database_path :: "string option"
  cs_api :: "api_section option"
  cs_dhcp :: "dhcp_section option"
  cs_ra :: "ra_section option option"
  cs_logging :: "logging_section option"

section \<open>Defaults\<close>

definition default_log_level :: string where
  "default_log_level = ''info''"

definition default_api_address :: string where
  "default_api_address = ''127.0.0.1''"

definition default_api_port :: u16 where
  "default_api_port = 8080"

definition default_unix_socket :: "string option" where
  "default_unix_socket = Some ''/var/run/ndhcpd.sock''"

definition field_lease_time :: u32 where
  "field_lease_time = 86400"

definition field_max_lease_time :: u32 where
  "field_max_lease_time = 604800"

definition field_lease_cleanup_interval :: u32 where
  "field_lease_cleanup_interval = 60"

definition or_default :: "'a \<Rightarrow> 'a option \<Rightarrow> 'a" where
  "or_default d v = (case v of Some x \<Rightarrow> x | None \<Rightarrow> d)"

lemma or_default_simps [simp]: "or_default d None = d" "or_default d (Some x) = x"
  by (simp_all add: or_default_def)

section \<open>Loading\<close>

definition load_logging :: "logging_section \<Rightarrow> logging_config" where
  "load_logging s = \<lparr> log_syslog = or_default False (ls_syslog s), log_level = or_default default_log_level (ls_level s) \<rparr>"

definition load_api :: "api_section \<Rightarrow> api_config" where
  "load_api s = \<lparr> api_listen_address = or_default default_api_address (as_listen_address s),
     api_port = or_default default_api_port (as_port s),
     api_unix_socket = or_default default_unix_socket (as_unix_socket s),
     api_require_authentication = or_default None (as_require_authentication s) \<rparr>"

definition load_dhcp :: "dhcp_section \<Rightarrow> dhcp_config" where
  "load_dhcp s = \<lparr> default_lease_time = or_default field_lease_time (ds_default_lease_time s),
     max_lease_time = or_default field_max_lease_time (ds_max_lease_time s),
     lease_cleanup_interval_minutes = or_default field_lease_cleanup_interval (ds_lease_cleanup_interval_minutes s) \<rparr>"

definition load_ra :: "ra_section \<Rightarrow> ra_config" where
  "load_ra s = \<lparr> ra_enabled = or_default False (rs_enabled s),
     ip6_listen_interfaces = or_default [] (rs_ip6_listen_interfaces s),
     default_preferred_lifetime = or_default 86400 (rs_default_preferred_lifetime s),
     default_valid_lifetime = or_default 2592000 (rs_default_valid_lifetime s),
     default_dns_lifetime = or_default 86400 (rs_default_dns_lifetime s) \<rparr>"

text \<open>A field without a default is required: \<open>listen_interfaces\<close>, \<open>api\<close> and \<open>dhcp\<close>.\<close>

definition config_of_section :: "target_os \<Rightarrow> config_section \<Rightarrow> config option" where
  "config_of_section os s =
     (case (cs_listen_interfaces s, cs_api s, cs_dhcp s) of
        (Some ifs, Some api, Some dhcp) \<Rightarrow>
          Some \<lparr> listen_interfaces = ifs, database_path = or_default (default_db_path os) (cs_database_path s),
            cfg_api = load_api api, cfg_dhcp = load_dhcp dhcp,
            cfg_ra = map_option load_ra (or_default None (cs_ra s)),
            cfg_logging = or_default logging_default (map_option load_logging (cs_logging s)) \<rparr>
      | _ \<Rightarrow> None)"

section \<open>Saving\<close>

text \<open>\<open>Serialize\<close> writes every field.\<close>

definition section_of_config :: "config \<Rightarrow> config_section" where
  "section_of_config c =
     \<lparr> cs_listen_interfaces = Some (listen_interfaces c), cs_database_path = Some (database_path c),
       cs_api = Some \<lparr> as_listen_address = Some (api_listen_address (cfg_api c)), as_port = Some (api_port (cfg_api c)),
         as_unix_socket = Some (api_unix_socket (cfg_api c)),
         as_require_authentication = Some (api_require_authentication (cfg_api c)) \<rparr>,
       cs_dhcp = Some \<lparr> ds_default_lease_time = Some (default_lease_time (cfg_dhcp c)),
         ds_max_lease_time = Some (max_lease_time (cfg_dhcp c)),
         ds_lease_cleanup_interval_minutes = Some (lease_cleanup_interval_minutes (cfg_dhcp c)) \<rparr>,
       cs_ra = Some (map_option (\<lambda>ra. \<lparr> rs_enabled = Some (ra_enabled ra),
         rs_ip6_listen_interfaces = Some (ip6_listen_interfaces ra),
         rs_default_preferred_lifetime = Some (default_preferred_lifetime ra),
         rs_default_valid_lifetime = Some (default_valid_lifetime ra),
         rs_default_dns_lifetime = Some (default_dns_lifetime ra) \<rparr>) (cfg_ra c)),
       cs_logging = Some \<lparr> ls_syslog = Some (log_syslog (cfg_logging c)), ls_level = Some (log_level (cfg_logging c)) \<rparr> \<rparr>"

text \<open>\<open>serde_yaml::from_str\<close> and \<open>to_string\<close> on a configuration.\<close>

definition yaml_from_str :: "target_os \<Rightarrow> (string \<Rightarrow> config_section option) \<Rightarrow> string \<Rightarrow> config option" where
  "yaml_from_str os read_yaml text = Option.bind (read_yaml text) (config_of_section os)"

definition yaml_to_string :: "(config_section \<Rightarrow> string option) \<Rightarrow> config \<Rightarrow> string option" where
  "yaml_to_string write_yaml c = write_yaml (section_of_config c)"

section \<open>Lemmas\<close>

lemmas load_defs = config_of_section_def load_api_def load_dhcp_def load_ra_def load_logging_def

lemma section_roundtrip: "config_of_section os (section_of_config c) = Some c"
  by (cases "cfg_ra c") (simp_all add: load_defs section_of_config_def)

definition lab_section :: config_section where
  "lab_section =
     \<lparr> cs_listen_interfaces = Some [''eth0''], cs_database_path = None,
       cs_api = Some \<lparr> as_listen_address = None, as_port = None, as_unix_socket = None, as_require_authentication = None \<rparr>,
       cs_dhcp = Some \<lparr> ds_default_lease_time = None, ds_max_lease_time = None, ds_lease_cleanup_interval_minutes = None \<rparr>,
       cs_ra = None, cs_logging = None \<rparr>"

text \<open>The shortest file that loads starts the daemon like no file at all.\<close>

theorem shortest_file_is_default:
  "(case config_of_section os lab_section of
      None \<Rightarrow> False
    | Some c \<Rightarrow> main_run db_opens unix_binds tcp_binds c = main_run db_opens unix_binds tcp_binds (config_default os) \<and>
        cfg_dhcp c = cfg_dhcp (config_default os) \<and> cfg_logging c = cfg_logging (config_default os) \<and>
        c \<noteq> config_default os)"
  by (simp add: lab_section_def load_defs main_run_def main_tcp_def main_servers_def cleanup_interval_secs_def
      config_default_def default_api_address_def default_api_port_def default_unix_socket_def field_lease_time_def
      field_max_lease_time_def field_lease_cleanup_interval_def Let_def)

section \<open>Properties\<close>



text \<open>
  C40. What the file says and does not say of the interface: a configuration loads exactly when
  \<open>listen_interfaces\<close>, \<open>api\<close> and \<open>dhcp\<close> are there; then the daemon serves a Unix socket, the
  default one when the file is silent and none only on an explicit null, without authentication;
  and one TCP listener, by default on the loopback address, which authenticates exactly when the
  file says \<open>true\<close>; Router Advertisements run on the listed interfaces only when they are enabled.
\<close>

theorem file_decides_listeners:
  "case config_of_section os s of
     None \<Rightarrow> cs_listen_interfaces s = None \<or> cs_api s = None \<or> cs_dhcp s = None
   | Some c \<Rightarrow> \<exists>ifs api dhcp. cs_listen_interfaces s = Some ifs \<and> cs_api s = Some api \<and> cs_dhcp s = Some dhcp \<and>
       listen_interfaces c = ifs \<and>
       api_listeners c =
         (case as_unix_socket api of None \<Rightarrow> [UnixListener ''/var/run/ndhcpd.sock'' False]
          | Some None \<Rightarrow> [] | Some (Some p) \<Rightarrow> [UnixListener p False]) @
         [TcpListener (case as_listen_address api of None \<Rightarrow> ''127.0.0.1'' | Some a \<Rightarrow> a)
            (case as_port api of None \<Rightarrow> 8080 | Some p \<Rightarrow> p) (as_require_authentication api = Some (Some True))] \<and>
       ra_tasks c = (case cs_ra s of
          Some (Some ra) \<Rightarrow> if rs_enabled ra = Some True then or_default [] (rs_ip6_listen_interfaces ra) else []
        | _ \<Rightarrow> [])"
  by (auto simp: load_defs api_listeners_def ra_tasks_def or_default_def default_api_address_def default_api_port_def
      default_unix_socket_def split: option.splits)

end
