(* ===== verification/Ipv6_Text.thy ===== *)
theory Ipv6_Text
  imports Models
begin

text \<open>
  IPv6 addresses as text, after \<open>core::net\<close>: the formatter with its compression of the longest
  run of zero groups and its form for mapped IPv4 addresses, and the recursive-descent parser.
  The parser's steps take the remaining text and return a value with what remains; \<open>None\<close> is a
  failed step, after which the caller goes on with the text it had. With them, the column of DNS
  servers of an IPv6 prefix (\<open>crates/ndhcpd/src/models.rs\<close>).
\<close>

section \<open>Formatting\<close>

definition segments :: "ipv6 \<Rightarrow> u16 list" where
  "segments w = map (\<lambda>i. ucast (drop_bit (16 * (7 - i)) w)) [0..<8]"

definition of_segments :: "u16 list \<Rightarrow> ipv6" where
  "of_segments ss = foldl (\<lambda>w s. push_bit 16 w OR ucast s) 0 ss"

text \<open>The format \<open>{:x}\<close> of a group.\<close>

definition hex16 :: "u16 \<Rightarrow> string" where
  "hex16 s =
     (let n = unat s in
      if n < 16 then [hex_digit n]
      else if n < 256 then [hex_digit (n div 16), hex_digit (n mod 16)]
      else if n < 4096 then [hex_digit (n div 256), hex_digit (n div 16 mod 16), hex_digit (n mod 16)]
      else [hex_digit (n div 4096), hex_digit (n div 256 mod 16), hex_digit (n div 16 mod 16),
        hex_digit (n mod 16)])"

text \<open>The loop for the longest run of zero groups: position, current and longest run.\<close>

fun longest_zeros :: "u16 list \<Rightarrow> nat \<Rightarrow> nat \<times> nat \<Rightarrow> nat \<times> nat \<Rightarrow> nat \<times> nat" where
  "longest_zeros [] i cur longest = longest"
| "longest_zeros (s # ss) i cur longest =
     (if s = 0 then
        (let cur' = (if snd cur = 0 then i else fst cur, snd cur + 1) in
         longest_zeros ss (i + 1) cur' (if snd longest < snd cur' then cur' else longest))
      else longest_zeros ss (i + 1) (0, 0) longest)"

definition fmt_subslice :: "u16 list \<Rightarrow> string" where
  "fmt_subslice ss = join '':'' (map hex16 ss)"

definition ipv6_to_string :: "ipv6 \<Rightarrow> string" where
  "ipv6_to_string w =
     (let ss = segments w in
      if take 6 ss = [0, 0, 0, 0, 0, 0xffff] then ''::ffff:'' @ ipv4_to_string (ucast w)
      else (case longest_zeros ss 0 (0, 0) (0, 0) of
         (start, len) \<Rightarrow>
           if 1 < len then fmt_subslice (take start ss) @ ''::'' @ fmt_subslice (drop (start + len) ss)
           else fmt_subslice ss))"

section \<open>Parsing\<close>

fun read_given_char :: "char \<Rightarrow> string \<Rightarrow> string option" where
  "read_given_char c [] = None"
| "read_given_char c (d # ds) = (if d = c then Some ds else None)"

text \<open>The loop of \<open>read_number\<close>: value and number of digits so far.\<close>

fun read_digits :: "nat \<Rightarrow> nat \<Rightarrow> nat \<Rightarrow> nat \<Rightarrow> string \<Rightarrow> ((nat \<times> nat) \<times> string) option" where
  "read_digits radix max_digits acc n [] = Some ((acc, n), [])"
| "read_digits radix max_digits acc n (c # cs) =
     (case to_digit radix c of
        None \<Rightarrow> Some ((acc, n), c # cs)
      | Some d \<Rightarrow>
          if max_digits < n + 1 then None
          else read_digits radix max_digits (acc * radix + d) (n + 1) cs)"

definition read_number :: "nat \<Rightarrow> nat \<Rightarrow> bool \<Rightarrow> nat \<Rightarrow> string \<Rightarrow> (nat \<times> string) option" where
  "read_number radix max_digits allow_zero_prefix limit s =
     (case read_digits radix max_digits 0 0 s of
        None \<Rightarrow> None
      | Some ((v, n), rest) \<Rightarrow>
          if n = 0 then None
          else if \<not> allow_zero_prefix \<and> take 1 s = ''0'' \<and> 1 < n then None
          else if v < limit then Some (v, rest) else None)"

definition read_separator :: "char \<Rightarrow> nat \<Rightarrow> (string \<Rightarrow> ('a \<times> string) option) \<Rightarrow> string \<Rightarrow> ('a \<times> string) option" where
  "read_separator sep i inner s =
     (if 0 < i then Option.bind (read_given_char sep s) inner else inner s)"

definition read_ipv4_addr :: "string \<Rightarrow> ((u8 \<times> u8 \<times> u8 \<times> u8) \<times> string) option" where
  "read_ipv4_addr s =
     do { (a, s) \<leftarrow> read_number 10 3 False 256 s;
          (b, s) \<leftarrow> read_separator CHR ''.'' 1 (read_number 10 3 False 256) s;
          (c, s) \<leftarrow> read_separator CHR ''.'' 2 (read_number 10 3 False 256) s;
          (d, s) \<leftarrow> read_separator CHR ''.'' 3 (read_number 10 3 False 256) s;
          Some ((of_nat a, of_nat b, of_nat c, of_nat d), s) }"

text \<open>\<open>read_groups\<close> from group \<open>i\<close> of \<open>limit\<close>: the groups, whether an IPv4 address ended them, and the rest.\<close>

function read_groups :: "nat \<Rightarrow> nat \<Rightarrow> string \<Rightarrow> u16 list \<times> bool \<times> string" where
  "read_groups limit i s =
     (if limit \<le> i then ([], False, s)
      else case (if i + 1 < limit then read_separator CHR '':'' i read_ipv4_addr s else None) of
        Some ((a, b, c, d), s') \<Rightarrow> ([of_be16 a b, of_be16 c d], True, s')
      | None \<Rightarrow>
          (case read_separator CHR '':'' i (read_number 16 4 True 65536) s of
             None \<Rightarrow> ([], False, s)
           | Some (g, s') \<Rightarrow>
               (case read_groups limit (i + 1) s' of (gs, v4, s'') \<Rightarrow> (of_nat g # gs, v4, s''))))"
  by pat_completeness auto
termination by (relation "measure (\<lambda>(limit, i, s). limit - i)") auto

declare read_groups.simps [simp del]

definition read_ipv6_addr :: "string \<Rightarrow> (ipv6 \<times> string) option" where
  "read_ipv6_addr s =
     (case read_groups 8 0 s of
        (head, head_ipv4, s) \<Rightarrow>
          if length head = 8 then Some (of_segments head, s)
          else if head_ipv4 then None
          else do { s \<leftarrow> read_given_char CHR '':'' s;
                    s \<leftarrow> read_given_char CHR '':'' s;
                    case read_groups (8 - (length head + 1)) 0 s of
                      (tail, _, s) \<Rightarrow>
                        Some (of_segments (head @ replicate (8 - length head - length tail) 0 @ tail), s) })"

definition ipv6_parse :: "string \<Rightarrow> ipv6 option" where
  "ipv6_parse s = (case read_ipv6_addr s of Some (w, []) \<Rightarrow> Some w | _ \<Rightarrow> None)"

section \<open>The DNS servers of a prefix\<close>

definition ia_dns_servers_to_string :: "ia_prefix \<Rightarrow> string" where
  "ia_dns_servers_to_string p = join '','' (map ipv6_to_string (p_dns_servers p))"

definition ia_dns_servers_from_string :: "string \<Rightarrow> ipv6 list" where
  "ia_dns_servers_from_string s = List.map_filter (\<lambda>ip. ipv6_parse (trim ip)) (split_on CHR '','' s)"

section \<open>Lemmas\<close>

lemma length_segments [simp]: "length (segments w) = 8"
  by (simp add: segments_def)

lemma low_group_or: "push_bit 16 (drop_bit 16 w) OR ucast (ucast w :: u16) = w" for w :: ipv6
  by (rule bit_eqI) (auto simp: bit_simps)

lemma of_segments_segments [simp]: "of_segments (segments w) = w"
proof -
  have "foldl (\<lambda>w s. push_bit 16 w OR ucast s) 0 (map (\<lambda>i. ucast (drop_bit (16 * (7 - i)) w) :: u16) [0..<k]) =
      drop_bit (16 * (8 - k)) w" if "k \<le> 8" for k
    using that
  proof (induction k)
    case 0
    show ?case by (simp add: bit_eq_iff bit_simps)
  next
    case (Suc k)
    let ?x = "drop_bit (16 * (7 - k)) w"
    have "drop_bit (16 * (8 - k)) w = drop_bit 16 ?x"
      using Suc.prems by (simp add: Suc_diff_le algebra_simps)
    with Suc show ?case using low_group_or [of ?x] by simp
  qed
  from this [of 8] show ?thesis by (simp add: of_segments_def segments_def)
qed

subsection \<open>Numbers\<close>

lemma unat_u16_lt: "unat (s :: u16) < 65536"
  using unsigned_less [of s] by simp

definition ends_number :: "nat \<Rightarrow> string \<Rightarrow> bool" where
  "ends_number radix rest \<longleftrightarrow> (case rest of [] \<Rightarrow> True | c # _ \<Rightarrow> to_digit radix c = None)"

lemma read_digits_end: "ends_number radix rest \<Longrightarrow> read_digits radix m acc n rest = Some ((acc, n), rest)"
  by (cases rest) (simp_all add: ends_number_def)

lemma read_number_hex16:
  assumes "ends_number 16 rest"
  shows "read_number 16 4 True 65536 (hex16 s @ rest) = Some (unat s, rest)"
proof -
  let ?n = "unat s"
  have n: "?n < 65536" by (rule unat_u16_lt)
  have d: "?n div 16 div 16 = ?n div 256" "?n div 256 div 16 = ?n div 4096" by (simp_all add: div_mult2_eq)
  have 2: "?n div 16 * 16 + ?n mod 16 = ?n" by simp
  have 3: "(?n div 256 * 16 + ?n div 16 mod 16) * 16 + ?n mod 16 = ?n"
    using d(1) by (metis div_mult_mod_eq)
  have 4: "((?n div 4096 * 16 + ?n div 256 mod 16) * 16 + ?n div 16 mod 16) * 16 + ?n mod 16 = ?n"
    using d by (metis div_mult_mod_eq)
  show ?thesis
    using n 2 3 4 read_digits_end [OF assms]
    by (auto simp: read_number_def hex16_def Let_def to_digit_hex_digit)
qed

lemma read_number_dec_u8:
  assumes "ends_number 10 rest"
  shows "read_number 10 3 False 256 (dec_u8 b @ rest) = Some (unat b, rest)"
  using read_digits_end [OF assms] unat_u8_lt [of b]
  by (cases b rule: dec_u8_cases) (auto simp: read_number_def to_digit_hex_digit hex_digit_eq_zero)

lemma read_digits_rest: "read_digits radix m acc n s = Some (r, rest) \<Longrightarrow> set rest \<subseteq> set s"
  by (induction radix m acc n s rule: read_digits.induct) (auto split: option.splits if_splits)

lemma read_number_rest: "read_number radix m z limit s = Some (v, rest) \<Longrightarrow> set rest \<subseteq> set s"
  by (auto simp: read_number_def split: option.splits if_splits prod.splits dest: read_digits_rest)

text \<open>Without a dot there is no IPv4 address.\<close>

lemma read_given_char_None: "c \<notin> set s \<Longrightarrow> read_given_char c s = None"
  by (cases s) auto

lemma read_ipv4_addr_None: "CHR ''.'' \<notin> set s \<Longrightarrow> read_ipv4_addr s = None"
proof (cases "read_number 10 3 False 256 s")
  case (Some r)
  assume "CHR ''.'' \<notin> set s"
  with read_number_rest [of 10 3 False 256 s "fst r" "snd r"] Some
  have "read_given_char CHR ''.'' (snd r) = None" by (intro read_given_char_None) auto
  with Some show ?thesis by (cases r) (simp add: read_ipv4_addr_def read_separator_def)
qed (simp add: read_ipv4_addr_def)

lemma hex16_chars: "c \<in> set (hex16 s) \<Longrightarrow> \<exists>n<16. c = hex_digit n"
proof -
  have digit: "\<exists>n<16. hex_digit m = hex_digit n" if "m < 16" for m using that by blast
  have "unat s div 4096 < 16" using unat_u16_lt [of s] by simp
  then show "c \<in> set (hex16 s) \<Longrightarrow> \<exists>n<16. c = hex_digit n"
    by (auto simp: hex16_def Let_def split: if_splits intro!: digit)
qed

lemma hex16_notin: "CHR ''.'' \<notin> set (hex16 s)" "CHR '','' \<notin> set (hex16 s)"
  by (auto dest!: hex16_chars simp: hex_digit_neq dest: sym)

lemma fmt_subslice_chars: "CHR ''.'' \<notin> set (fmt_subslice ss)" "CHR '','' \<notin> set (fmt_subslice ss)"
  unfolding fmt_subslice_def by (induction ss rule: induct_list012) (auto simp: hex16_notin)

subsection \<open>Groups\<close>

text \<open>The text after the groups: nothing or the double colon.\<close>

definition ends_groups :: "string \<Rightarrow> bool" where
  "ends_groups rest \<longleftrightarrow> rest = [] \<or> (\<exists>r. rest = ''::'' @ r)"

lemma ends_groups_number: "ends_groups rest \<Longrightarrow> ends_number 16 rest"
  by (auto simp: ends_groups_def ends_number_def to_digit_def)

lemma read_number_colon: "read_number 16 4 True 65536 (CHR '':'' # r) = None" "read_number 16 4 True 65536 [] = None"
  by (simp_all add: read_number_def to_digit_def)

lemma read_groups_none:
  "ends_groups rest \<Longrightarrow> CHR ''.'' \<notin> set rest \<Longrightarrow> read_groups limit i rest = ([], False, rest)"
  by (subst read_groups.simps)
    (auto simp: ends_groups_def read_separator_def read_ipv4_addr_None read_number_colon split: option.split)

lemma read_groups_step:
  assumes "i < limit" and "CHR ''.'' \<notin> set s"
    and "read_separator CHR '':'' i (read_number 16 4 True 65536) s = Some (unat g, s')"
  shows "read_groups limit i s = (case read_groups limit (i + 1) s' of (gs, v4, s'') \<Rightarrow> (g # gs, v4, s''))"
proof -
  have "read_separator CHR '':'' i read_ipv4_addr s = None"
    using assms(2) by (cases s) (auto simp: read_separator_def read_ipv4_addr_None)
  with assms show ?thesis by (subst read_groups.simps) simp
qed

lemma read_groups_more:
  "ends_groups rest \<Longrightarrow> CHR ''.'' \<notin> set rest \<Longrightarrow> 0 < i \<Longrightarrow> i + length ss \<le> limit \<Longrightarrow>
   read_groups limit i (concat (map (\<lambda>s. CHR '':'' # hex16 s) ss) @ rest) = (ss, False, rest)"
proof (induction ss arbitrary: i)
  case (Cons s ss)
  let ?rest = "concat (map (\<lambda>s. CHR '':'' # hex16 s) ss) @ rest"
  have "ends_number 16 ?rest"
    using ends_groups_number [OF Cons.prems(1)] by (cases ss) (simp_all add: ends_number_def to_digit_def)
  then have "read_separator CHR '':'' i (read_number 16 4 True 65536) (CHR '':'' # hex16 s @ ?rest) = Some (unat s, ?rest)"
    using Cons.prems(3) by (simp add: read_separator_def read_number_hex16)
  moreover have "CHR ''.'' \<notin> set (CHR '':'' # hex16 s @ ?rest)"
    using Cons.prems(2) by (auto simp: hex16_notin)
  ultimately show ?case
    using read_groups_step [of i limit "CHR '':'' # hex16 s @ ?rest" s ?rest] Cons by simp
qed (simp add: read_groups_none)

lemma fmt_subslice_Cons: "fmt_subslice (s # ss) = hex16 s @ concat (map (\<lambda>s. CHR '':'' # hex16 s) ss)"
  unfolding fmt_subslice_def by (induction ss arbitrary: s) simp_all

lemma read_groups_fmt:
  assumes "ends_groups rest" and "CHR ''.'' \<notin> set rest" and "length ss \<le> limit"
  shows "read_groups limit 0 (fmt_subslice ss @ rest) = (ss, False, rest)"
proof (cases ss)
  case Nil
  then show ?thesis using assms by (simp add: fmt_subslice_def read_groups_none)
next
  case (Cons s ss')
  let ?rest = "concat (map (\<lambda>s. CHR '':'' # hex16 s) ss') @ rest"
  have "ends_number 16 ?rest"
    using ends_groups_number [OF assms(1)] by (cases ss') (simp_all add: ends_number_def to_digit_def)
  then have "read_separator CHR '':'' 0 (read_number 16 4 True 65536) (hex16 s @ ?rest) = Some (unat s, ?rest)"
    by (simp add: read_separator_def read_number_hex16)
  moreover have "CHR ''.'' \<notin> set (hex16 s @ ?rest)"
    using assms(2) by (auto simp: hex16_notin)
  ultimately show ?thesis
    using read_groups_step [of 0 limit "hex16 s @ ?rest" s ?rest] read_groups_more [OF assms(1,2), of 1 ss' limit]
      assms(3) Cons by (simp add: fmt_subslice_Cons)
qed

subsection \<open>The compressed run\<close>

definition zero_run :: "u16 list \<Rightarrow> nat \<times> nat \<Rightarrow> bool" where
  "zero_run ss run \<longleftrightarrow> fst run + snd run \<le> length ss \<and> (\<forall>k < snd run. ss ! (fst run + k) = 0)"

lemma longest_zeros_run:
  assumes "zero_run (pre @ ss) longest" and "zero_run (pre @ ss) cur"
    and "snd cur \<noteq> 0 \<longrightarrow> fst cur + snd cur = length pre"
  shows "zero_run (pre @ ss) (longest_zeros ss (length pre) cur longest)"
  using assms
proof (induction ss arbitrary: pre cur longest)
  case (Cons s ss)
  have split: "pre @ s # ss = (pre @ [s]) @ ss" by simp
  show ?case
  proof (cases "s = 0")
    case False
    have "zero_run ((pre @ [s]) @ ss) (longest_zeros ss (length (pre @ [s])) (0, 0) longest)"
      using Cons.prems by (intro Cons.IH) (auto simp: zero_run_def)
    with False show ?thesis by simp
  next
    case True
    let ?cur = "(if snd cur = 0 then length pre else fst cur, snd cur + 1)"
    have cur: "zero_run (pre @ s # ss) ?cur"
    proof (cases "snd cur = 0")
      case True
      with \<open>s = 0\<close> show ?thesis by (auto simp: zero_run_def)
    next
      case False
      with Cons.prems(2,3) \<open>s = 0\<close> show ?thesis
        by (auto simp: zero_run_def less_Suc_eq)
    qed
    have "zero_run ((pre @ [s]) @ ss) (longest_zeros ss (length (pre @ [s])) ?cur
        (if snd longest < snd ?cur then ?cur else longest))"
      using Cons.prems cur by (intro Cons.IH) (auto simp: zero_run_def)
    with True show ?thesis by (auto simp: Let_def split: if_splits)
  qed
qed simp

lemma zero_run_split:
  assumes "zero_run ss (start, len)"
  shows "take start ss @ replicate len 0 @ drop (start + len) ss = ss"
proof (rule nth_equalityI)
  have len: "start + len \<le> length ss" using assms by (simp add: zero_run_def)
  then show "length (take start ss @ replicate len 0 @ drop (start + len) ss) = length ss" by simp
  fix i assume "i < length (take start ss @ replicate len 0 @ drop (start + len) ss)"
  with assms len show "(take start ss @ replicate len 0 @ drop (start + len) ss) ! i = ss ! i"
    by (auto simp: zero_run_def nth_append min_def not_less)
qed

subsection \<open>Round trip\<close>

lemma ipv6_parse_plain: "ipv6_parse (fmt_subslice (segments w)) = Some w"
  using read_groups_fmt [of "[]" "segments w" 8]
  by (simp add: ipv6_parse_def read_ipv6_addr_def ends_groups_def)

lemma ipv6_parse_compressed:
  assumes run: "zero_run (segments w) (start, len)" and "1 < len"
  shows "ipv6_parse (fmt_subslice (take start (segments w)) @ ''::'' @ fmt_subslice (drop (start + len) (segments w))) = Some w"
proof -
  let ?ss = "segments w" and ?tail = "fmt_subslice (drop (start + len) (segments w))"
  have len: "start + len \<le> 8" using run by (simp add: zero_run_def)
  have "read_groups 8 0 (fmt_subslice (take start ?ss) @ ''::'' @ ?tail) = (take start ?ss, False, ''::'' @ ?tail)"
    by (rule read_groups_fmt) (auto simp: ends_groups_def fmt_subslice_chars)
  moreover have "read_groups (7 - start) 0 (?tail @ []) = (drop (start + len) ?ss, False, [])"
    using assms(2) len by (intro read_groups_fmt) (auto simp: ends_groups_def)
  moreover have "8 - start - (8 - (start + len)) = len" using len by simp
  ultimately show ?thesis
    using zero_run_split [OF run] len assms(2)
    by (simp add: ipv6_parse_def read_ipv6_addr_def min_def del: append_Cons) simp
qed

lemma read_ipv4_addr_to_string:
  "read_ipv4_addr (ipv4_to_string ip) =
     Some ((ucast (drop_bit 24 ip), ucast (drop_bit 16 ip), ucast (drop_bit 8 ip), ucast ip), [])"
proof -
  have dot: "ends_number 10 (CHR ''.'' # r)" "ends_number 10 []" for r
    by (simp_all add: ends_number_def to_digit_def)
  have dec: "read_number 10 3 False 256 (dec_u8 b @ rest) = Some (unat b, rest)"
    if "ends_number 10 rest" for b rest using that by (rule read_number_dec_u8)
  have dec0: "read_number 10 3 False 256 (dec_u8 b) = Some (unat b, [])" for b
    using dec [OF dot(2)] by simp
  show ?thesis
    by (simp add: read_ipv4_addr_def ipv4_to_string_def be32_def read_separator_def dec [OF dot(1)] dec0)
qed

lemma mapped_groups:
  assumes "take 6 (segments w) = [0, 0, 0, 0, 0, 0xffff]"
  shows "of_segments [0, 0, 0, 0, 0, 0xffff,
      of_be16 (ucast (drop_bit 24 (ucast w :: u32))) (ucast (drop_bit 16 (ucast w :: u32))),
      of_be16 (ucast (drop_bit 8 (ucast w :: u32))) (ucast (ucast w :: u32))] = w"
proof -
  have "segments w = take 6 (segments w) @ drop 6 (segments w)" by simp
  also have "drop 6 (segments w) = [ucast (drop_bit 16 w), ucast w]"
    by (simp add: segments_def upt_rec)
  finally have s: "segments w = [0, 0, 0, 0, 0, 0xffff, ucast (drop_bit 16 w), ucast w]"
    using assms by simp
  have b: "(ucast (ucast w :: u16) :: u8) = ucast w" "(ucast (drop_bit 8 (ucast w :: u16)) :: u8) = ucast (drop_bit 8 w)" for w :: ipv6
    by (auto simp: bit_eq_iff bit_simps)
  have c: "(ucast (drop_bit 24 (ucast w :: u32)) :: u8) = ucast (drop_bit 24 w)"
    "(ucast (drop_bit 16 (ucast w :: u32)) :: u8) = ucast (drop_bit 16 w)"
    "(ucast (drop_bit 8 (ucast w :: u32)) :: u8) = ucast (drop_bit 8 w)" "(ucast (ucast w :: u32) :: u8) = ucast w"
    by (auto simp: bit_eq_iff bit_simps)
  have "of_be16 (ucast (drop_bit 8 w)) (ucast w) = (ucast w :: u16)" for w :: ipv6
    using of_be16_be16 [of "ucast w"] by (simp add: b)
  from this [of w] this [of "drop_bit 16 w"]
  have "of_be16 (ucast (drop_bit 24 w)) (ucast (drop_bit 16 w)) = (ucast (drop_bit 16 w) :: u16)"
    "of_be16 (ucast (drop_bit 8 w)) (ucast w) = (ucast w :: u16)" by simp_all
  then show ?thesis using of_segments_segments [of w] by (simp add: c s)
qed

lemma ipv6_parse_mapped:
  assumes "take 6 (segments w) = [0, 0, 0, 0, 0, 0xffff]"
  shows "ipv6_parse (''::ffff:'' @ ipv4_to_string (ucast w)) = Some w"
proof -
  let ?v4 = "ipv4_to_string (ucast w)"
  let ?g = "[of_be16 (ucast (drop_bit 24 (ucast w :: u32))) (ucast (drop_bit 16 (ucast w :: u32))),
      of_be16 (ucast (drop_bit 8 (ucast w :: u32))) (ucast (ucast w :: u32))]"
  have "read_groups 8 0 (''::ffff:'' @ ?v4) = ([], False, ''::ffff:'' @ ?v4)"
    by (subst read_groups.simps)
      (simp add: read_separator_def read_ipv4_addr_def read_number_def to_digit_def)
  moreover have "read_groups 7 1 (CHR '':'' # ?v4) = (?g, True, [])"
    by (subst read_groups.simps) (simp add: read_separator_def read_ipv4_addr_to_string)
  moreover have "read_groups 7 0 (''ffff:'' @ ?v4) =
      (case read_groups 7 1 (CHR '':'' # ?v4) of (gs, v4, s'') \<Rightarrow> (0xffff # gs, v4, s''))"
    by (subst read_groups.simps)
      (simp add: read_separator_def read_ipv4_addr_def read_number_def to_digit_def)
  ultimately show ?thesis
    using mapped_groups [OF assms] by (simp add: ipv6_parse_def read_ipv6_addr_def numeral_eq_Suc)
qed

lemma ipv6_parse_to_string [simp]: "ipv6_parse (ipv6_to_string w) = Some w"
proof -
  obtain start len where l: "longest_zeros (segments w) 0 (0, 0) (0, 0) = (start, len)" by fastforce
  have "zero_run (segments w) (start, len)"
    using longest_zeros_run [of "[]" "segments w" "(0, 0)" "(0, 0)"] l by (simp add: zero_run_def)
  then show ?thesis
    using l ipv6_parse_mapped [of w] ipv6_parse_plain [of w] ipv6_parse_compressed [of w start len]
    by (simp add: ipv6_to_string_def Let_def)
qed

lemma ipv6_to_string_inj: "ipv6_to_string a = ipv6_to_string b \<longleftrightarrow> a = b"
  by (metis ipv6_parse_to_string option.inject)

subsection \<open>The DNS column of a prefix\<close>

lemma ipv6_parse_Nil: "ipv6_parse [] = None"
  by (simp add: ipv6_parse_def read_ipv6_addr_def read_groups.simps read_separator_def
      read_ipv4_addr_def read_number_def)

lemma fmt_subslice_char: "c \<in> set (fmt_subslice ss) \<Longrightarrow> c = CHR '':'' \<or> (\<exists>n<16. c = hex_digit n)"
  unfolding fmt_subslice_def by (induction ss rule: induct_list012) (auto dest: hex16_chars)

lemma ipv6_to_string_chars:
  assumes "c \<in> set (ipv6_to_string w)"
  shows "c = CHR '':'' \<or> c = CHR ''.'' \<or> (\<exists>n<16. c = hex_digit n)"
proof -
  have f: "hex_digit 15 = CHR ''f''" by code_simp
  have "\<exists>n<16. CHR ''f'' = hex_digit n" by (rule exI [of _ 15]) (simp add: f)
  moreover have "\<exists>n<16. c = hex_digit n" if "\<exists>n<10. c = hex_digit n" using that by force
  ultimately show ?thesis
    using assms by (auto simp: ipv6_to_string_def Let_def split: if_splits prod.splits
        dest: fmt_subslice_char ipv4_to_string_chars)
qed

lemma ipv6_to_string_nonempty [simp]: "ipv6_to_string w \<noteq> []"
proof
  assume "ipv6_to_string w = []"
  with ipv6_parse_to_string [of w] have "ipv6_parse [] = Some w" by simp
  then show False by (simp add: ipv6_parse_Nil)
qed

lemma ipv6_char_not_ws: "c \<in> set (ipv6_to_string w) \<Longrightarrow> \<not> ws_code (of_char c)"
  by (auto dest!: ipv6_to_string_chars simp: ws_code_def hex_digit_of_char split: if_splits)

lemma trim_ipv6_to_string [simp]: "trim (ipv6_to_string w) = ipv6_to_string w"
  using ipv6_char_not_ws [of "hd (ipv6_to_string w)" w] ipv6_char_not_ws [of "last (ipv6_to_string w)" w]
  by (simp add: trim_def trim_start_id trim_end_id)

lemma comma_notin_ipv6: "CHR '','' \<notin> set (ipv6_to_string w)"
  by (auto dest!: ipv6_to_string_chars simp: hex_digit_neq dest: sym)

lemma ia_dns_servers_roundtrip [simp]:
  "ia_dns_servers_from_string (ia_dns_servers_to_string p) = p_dns_servers p"
  unfolding ia_dns_servers_from_string_def ia_dns_servers_to_string_def
  by (rule comma_column_roundtrip) (simp_all add: comma_notin_ipv6 ipv6_parse_Nil)

end
