(* ===== verification/Sqlite_Db.thy ===== *)
theory Sqlite_Db
  imports Ipv6_Text Memory_Db "HOL-Library.Multiset"
begin

text \<open>
  The SQLite database (\<open>crates/ndhcpd/src/db/sqlite.rs\<close> over the tables that
  \<open>crates/ndhcpd/migrations\<close> leave): every statement as a step on tables of stored rows, in
  which addresses and lists of addresses are text and every number is an SQL integer. Columns
  that no statement reads (\<open>created_at\<close> but in \<open>api_tokens\<close>) are left out.

  What the code relies on of sqlx and SQLite is a parameter, the record \<open>sqlite_env\<close>: whether a
  statement fails for a reason of its own (pool, lock, disk), whether foreign keys are enforced,
  and the order in which rows without \<open>ORDER BY\<close> come. A statement is atomic. Of SQL the model
  has what the statements use: \<open>AUTOINCREMENT\<close> (one more than the largest identifier the table
  ever had, an error once that is the largest \<open>i64\<close>), \<open>UNIQUE\<close> and \<open>PRIMARY KEY\<close>, foreign keys
  with \<open>ON DELETE CASCADE\<close>, and \<open>LOWER\<close>, which folds ASCII letters only.

  \<open>.parse().unwrap()\<close> on a stored address is \<open>the\<close>: where it would panic the model has no
  particular value, and the invariant of the tables says that it never does.
\<close>

section \<open>Tables\<close>

record subnet_row =
  sr_id :: i64
  sr_network :: string
  sr_netmask :: i64
  sr_gateway :: string
  sr_dns_servers :: string
  sr_domain_name :: "string option"

record range_row =
  rr_id :: i64
  rr_subnet_id :: i64
  rr_range_start :: string
  rr_range_end :: string
  rr_enabled :: i64

record static_row =
  xr_ip_address :: string
  xr_subnet_id :: i64
  xr_mac_address :: string
  xr_hostname :: "string option"

record lease_row =
  lr_id :: i64
  lr_subnet_id :: i64
  lr_mac_address :: string
  lr_ip_address :: string
  lr_lease_start :: i64
  lr_lease_end :: i64
  lr_hostname :: "string option"

record prefix_row =
  pr_id :: i64
  pr_interface :: string
  pr_prefix :: string
  pr_prefix_len :: i64
  pr_preferred_lifetime :: i64
  pr_valid_lifetime :: i64
  pr_dns_servers :: string
  pr_dns_lifetime :: i64

record token_row =
  tr_id :: i64
  tr_name :: string
  tr_token_hash :: string
  tr_salt :: string
  tr_created_at :: i64
  tr_last_used_at :: "i64 option"
  tr_enabled :: i64

text \<open>The tables, and for each table with generated identifiers its entry of \<open>sqlite_sequence\<close>.\<close>

record sqlite_db =
  q_subnets :: "subnet_row list"
  q_ranges :: "range_row list"
  q_static_ips :: "static_row list"
  q_leases :: "lease_row list"
  q_ia_prefixes :: "prefix_row list"
  q_tokens :: "token_row list"
  seq_subnets :: i64
  seq_ranges :: i64
  seq_leases :: i64
  seq_ia_prefixes :: i64
  seq_tokens :: i64

text \<open>The tables after the migrations on a new file.\<close>

definition sqlite_new :: sqlite_db where
  "sqlite_new = \<lparr> q_subnets = [], q_ranges = [], q_static_ips = [], q_leases = [],
     q_ia_prefixes = [], q_tokens = [], seq_subnets = 0, seq_ranges = 0, seq_leases = 0,
     seq_ia_prefixes = 0, seq_tokens = 0 \<rparr>"

record sqlite_env =
  env_fault :: "string \<Rightarrow> i64 option \<Rightarrow> sqlite_db \<Rightarrow> db_error option"
    \<comment> \<open>by method and bound identifier: an error that is not a constraint's\<close>
  env_foreign_keys :: bool
  env_subnets :: "string \<Rightarrow> subnet_row list \<Rightarrow> subnet_row list"
  env_ranges :: "string \<Rightarrow> range_row list \<Rightarrow> range_row list"
  env_static_ips :: "string \<Rightarrow> static_row list \<Rightarrow> static_row list"
  env_leases :: "string \<Rightarrow> lease_row list \<Rightarrow> lease_row list"
  env_ia_prefixes :: "string \<Rightarrow> prefix_row list \<Rightarrow> prefix_row list"
  env_tokens :: "string \<Rightarrow> token_row list \<Rightarrow> token_row list"

section \<open>Statements\<close>

definition execute :: "sqlite_env \<Rightarrow> string \<Rightarrow> i64 option \<Rightarrow> (sqlite_db, 'a) db_write \<Rightarrow> (sqlite_db, 'a) db_write" where
  "execute E q i stmt db = (case env_fault E q i db of Some e \<Rightarrow> (Inl e, db) | None \<Rightarrow> stmt db)"

definition fetch :: "sqlite_env \<Rightarrow> string \<Rightarrow> i64 option \<Rightarrow> (sqlite_db \<Rightarrow> 'a) \<Rightarrow> (sqlite_db, 'a) db_read" where
  "fetch E q i stmt db = (case env_fault E q i db of Some e \<Rightarrow> Inl e | None \<Rightarrow> Inr (stmt db))"

text \<open>\<open>fetch_optional\<close>: the first row, if any.\<close>

definition first_row :: "'row list \<Rightarrow> 'row option" where
  "first_row rs = (case rs of [] \<Rightarrow> None | r # _ \<Rightarrow> Some r)"

text \<open>\<open>ORDER BY k DESC\<close>.\<close>

definition order_desc :: "('row \<Rightarrow> i64) \<Rightarrow> 'row list \<Rightarrow> 'row list" where
  "order_desc k rs = sort_key (\<lambda>r. - k r) rs"

text \<open>The largest identifier is never given out twice: \<open>SQLITE_FULL\<close>.\<close>

definition new_rowid :: "i64 \<Rightarrow> i64 option" where
  "new_rowid seq = (if seq < i64_max then Some (seq + 1) else None)"

definition unique_violation :: "db_error" where
  "unique_violation = SqlxDatabase True"

definition other_violation :: "db_error" where
  "other_violation = SqlxDatabase False"

definition has_subnet :: "i64 \<Rightarrow> sqlite_db \<Rightarrow> bool" where
  "has_subnet i db \<longleftrightarrow> i \<in> sr_id ` set (q_subnets db)"

subsection \<open>Subnets\<close>

definition subnet_to_row :: "i64 \<Rightarrow> subnet \<Rightarrow> subnet_row" where
  "subnet_to_row i s = \<lparr> sr_id = i, sr_network = ipv4_to_string (s_network s),
     sr_netmask = uint (s_netmask s), sr_gateway = ipv4_to_string (s_gateway s),
     sr_dns_servers = dns_servers_to_string s, sr_domain_name = s_domain_name s \<rparr>"

definition row_to_subnet :: "subnet_row \<Rightarrow> subnet" where
  "row_to_subnet r = \<lparr> s_id = Some (sr_id r), s_network = the (ipv4_parse (sr_network r)),
     s_netmask = word_of_int (sr_netmask r), s_gateway = the (ipv4_parse (sr_gateway r)),
     s_dns_servers = dns_servers_from_string (sr_dns_servers r), s_domain_name = sr_domain_name r \<rparr>"

definition subnet_key :: "subnet_row \<Rightarrow> string \<times> i64" where
  "subnet_key r = (sr_network r, sr_netmask r)"

definition sql_create_subnet :: "sqlite_env \<Rightarrow> subnet \<Rightarrow> (sqlite_db, i64) db_write" where
  "sql_create_subnet E s = execute E ''create_subnet'' None (\<lambda>db.
     case new_rowid (seq_subnets db) of
       None \<Rightarrow> (Inl other_violation, db)
     | Some i \<Rightarrow>
         if subnet_key (subnet_to_row i s) \<in> subnet_key ` set (q_subnets db) then (Inl unique_violation, db)
         else (Inr i, db\<lparr> q_subnets := q_subnets db @ [subnet_to_row i s], seq_subnets := i \<rparr>))"

definition sql_get_subnet :: "sqlite_env \<Rightarrow> i64 \<Rightarrow> (sqlite_db, subnet option) db_read" where
  "sql_get_subnet E i = fetch E ''get_subnet'' (Some i) (\<lambda>db.
     map_option row_to_subnet
       (first_row (env_subnets E ''get_subnet'' (filter (\<lambda>r. sr_id r = i) (q_subnets db)))))"

definition sql_list_subnets :: "sqlite_env \<Rightarrow> (sqlite_db, subnet list) db_read" where
  "sql_list_subnets E = fetch E ''list_subnets'' None (\<lambda>db.
     map row_to_subnet (env_subnets E ''list_subnets'' (q_subnets db)))"

definition sql_update_subnet :: "sqlite_env \<Rightarrow> i64 \<Rightarrow> subnet \<Rightarrow> (sqlite_db, unit) db_write" where
  "sql_update_subnet E i s = execute E ''update_subnet'' (Some i) (\<lambda>db.
     if has_subnet i db \<and>
        subnet_key (subnet_to_row i s) \<in> subnet_key ` set (filter (\<lambda>r. sr_id r \<noteq> i) (q_subnets db))
     then (Inl unique_violation, db)
     else (Inr (), db\<lparr> q_subnets :=
       map (\<lambda>r. if sr_id r = i then subnet_to_row i s else r) (q_subnets db) \<rparr>))"

text \<open>The rows of the other tables that refer to the subnet go with it.\<close>

definition cascade_subnet :: "i64 \<Rightarrow> sqlite_db \<Rightarrow> sqlite_db" where
  "cascade_subnet i db = db\<lparr>
     q_ranges := filter (\<lambda>r. rr_subnet_id r \<noteq> i) (q_ranges db),
     q_static_ips := filter (\<lambda>r. xr_subnet_id r \<noteq> i) (q_static_ips db),
     q_leases := filter (\<lambda>r. lr_subnet_id r \<noteq> i) (q_leases db) \<rparr>"

definition sql_delete_subnet :: "sqlite_env \<Rightarrow> i64 \<Rightarrow> (sqlite_db, unit) db_write" where
  "sql_delete_subnet E i = execute E ''delete_subnet'' (Some i) (\<lambda>db.
     let db' = db\<lparr> q_subnets := filter (\<lambda>r. sr_id r \<noteq> i) (q_subnets db) \<rparr> in
     (Inr (), if env_foreign_keys E \<and> has_subnet i db then cascade_subnet i db' else db'))"

subsection \<open>Dynamic ranges\<close>

definition range_to_row :: "i64 \<Rightarrow> dynamic_range \<Rightarrow> range_row" where
  "range_to_row i r = \<lparr> rr_id = i, rr_subnet_id = r_subnet_id r,
     rr_range_start = ipv4_to_string (r_range_start r), rr_range_end = ipv4_to_string (r_range_end r),
     rr_enabled = (if r_enabled r then 1 else 0) \<rparr>"

definition row_to_range :: "range_row \<Rightarrow> dynamic_range" where
  "row_to_range r = \<lparr> r_id = Some (rr_id r), r_subnet_id = rr_subnet_id r,
     r_range_start = the (ipv4_parse (rr_range_start r)), r_range_end = the (ipv4_parse (rr_range_end r)),
     r_enabled = (rr_enabled r \<noteq> 0) \<rparr>"

definition sql_create_range :: "sqlite_env \<Rightarrow> dynamic_range \<Rightarrow> (sqlite_db, i64) db_write" where
  "sql_create_range E rg = execute E ''create_range'' None (\<lambda>db.
     case new_rowid (seq_ranges db) of
       None \<Rightarrow> (Inl other_violation, db)
     | Some i \<Rightarrow>
         if env_foreign_keys E \<and> \<not> has_subnet (r_subnet_id rg) db then (Inl other_violation, db)
         else (Inr i, db\<lparr> q_ranges := q_ranges db @ [range_to_row i rg], seq_ranges := i \<rparr>))"

definition sql_list_ranges :: "sqlite_env \<Rightarrow> i64 option \<Rightarrow> (sqlite_db, dynamic_range list) db_read" where
  "sql_list_ranges E subnet_id =
     (case subnet_id of
        Some sid \<Rightarrow> fetch E ''list_ranges'' (Some sid) (\<lambda>db. map row_to_range
          (env_ranges E ''list_ranges of'' (filter (\<lambda>r. rr_subnet_id r = sid) (q_ranges db))))
      | None \<Rightarrow> fetch E ''list_ranges'' None (\<lambda>db. map row_to_range
          (env_ranges E ''list_ranges'' (q_ranges db))))"

definition sql_delete_range :: "sqlite_env \<Rightarrow> i64 \<Rightarrow> (sqlite_db, unit) db_write" where
  "sql_delete_range E i = execute E ''delete_range'' (Some i) (\<lambda>db.
     (Inr (), db\<lparr> q_ranges := filter (\<lambda>r. rr_id r \<noteq> i) (q_ranges db) \<rparr>))"

subsection \<open>Static assignments\<close>

definition static_to_row :: "static_ip \<Rightarrow> static_row" where
  "static_to_row st = \<lparr> xr_ip_address = ipv4_to_string (st_ip_address st),
     xr_subnet_id = st_subnet_id st, xr_mac_address = st_mac_address st, xr_hostname = st_hostname st \<rparr>"

definition row_to_static :: "static_row \<Rightarrow> static_ip" where
  "row_to_static r = \<lparr> st_subnet_id = xr_subnet_id r, st_mac_address = xr_mac_address r,
     st_ip_address = the (ipv4_parse (xr_ip_address r)), st_hostname = xr_hostname r \<rparr>"

definition sql_create_static_ip :: "sqlite_env \<Rightarrow> static_ip \<Rightarrow> (sqlite_db, unit) db_write" where
  "sql_create_static_ip E st = execute E ''create_static_ip'' None (\<lambda>db.
     if ipv4_to_string (st_ip_address st) \<in> xr_ip_address ` set (q_static_ips db) \<or>
        st_mac_address st \<in> xr_mac_address ` set (q_static_ips db) then (Inl unique_violation, db)
     else if env_foreign_keys E \<and> \<not> has_subnet (st_subnet_id st) db then (Inl other_violation, db)
     else (Inr (), db\<lparr> q_static_ips := q_static_ips db @ [static_to_row st] \<rparr>))"

definition sql_list_static_ips :: "sqlite_env \<Rightarrow> i64 option \<Rightarrow> (sqlite_db, static_ip list) db_read" where
  "sql_list_static_ips E subnet_id =
     (case subnet_id of
        Some sid \<Rightarrow> fetch E ''list_static_ips'' (Some sid) (\<lambda>db. map row_to_static
          (env_static_ips E ''list_static_ips of'' (filter (\<lambda>r. xr_subnet_id r = sid) (q_static_ips db))))
      | None \<Rightarrow> fetch E ''list_static_ips'' None (\<lambda>db. map row_to_static
          (env_static_ips E ''list_static_ips'' (q_static_ips db))))"

definition sql_get_static_ip_by_mac :: "sqlite_env \<Rightarrow> string \<Rightarrow> (sqlite_db, static_ip option) db_read" where
  "sql_get_static_ip_by_mac E mac = fetch E ''get_static_ip_by_mac'' None (\<lambda>db.
     map_option row_to_static (first_row (env_static_ips E ''get_static_ip_by_mac''
       (filter (\<lambda>r. to_lowercase (xr_mac_address r) = to_lowercase mac) (q_static_ips db)))))"

definition sql_update_static_ip_hostname ::
  "sqlite_env \<Rightarrow> string \<Rightarrow> string option \<Rightarrow> (sqlite_db, unit) db_write" where
  "sql_update_static_ip_hostname E ip hostname = execute E ''update_static_ip_hostname'' None (\<lambda>db.
     (Inr (), db\<lparr> q_static_ips :=
       map (\<lambda>r. if xr_ip_address r = ip then r\<lparr> xr_hostname := hostname \<rparr> else r) (q_static_ips db) \<rparr>))"

definition sql_delete_static_ip :: "sqlite_env \<Rightarrow> string \<Rightarrow> (sqlite_db, unit) db_write" where
  "sql_delete_static_ip E ip = execute E ''delete_static_ip'' None (\<lambda>db.
     (Inr (), db\<lparr> q_static_ips := filter (\<lambda>r. xr_ip_address r \<noteq> ip) (q_static_ips db) \<rparr>))"

subsection \<open>Leases\<close>

definition lease_to_row :: "i64 \<Rightarrow> lease \<Rightarrow> lease_row" where
  "lease_to_row i l = \<lparr> lr_id = i, lr_subnet_id = l_subnet_id l, lr_mac_address = l_mac_address l,
     lr_ip_address = ipv4_to_string (l_ip_address l), lr_lease_start = l_lease_start l,
     lr_lease_end = l_lease_end l, lr_hostname = l_hostname l \<rparr>"

definition row_to_lease :: "lease_row \<Rightarrow> lease" where
  "row_to_lease r = \<lparr> l_id = Some (lr_id r), l_subnet_id = lr_subnet_id r,
     l_mac_address = lr_mac_address r, l_ip_address = the (ipv4_parse (lr_ip_address r)),
     l_lease_start = lr_lease_start r, l_lease_end = lr_lease_end r, l_hostname = lr_hostname r \<rparr>"

definition sql_create_lease :: "sqlite_env \<Rightarrow> lease \<Rightarrow> (sqlite_db, i64) db_write" where
  "sql_create_lease E l = execute E ''create_lease'' None (\<lambda>db.
     case new_rowid (seq_leases db) of
       None \<Rightarrow> (Inl other_violation, db)
     | Some i \<Rightarrow>
         if env_foreign_keys E \<and> \<not> has_subnet (l_subnet_id l) db then (Inl other_violation, db)
         else (Inr i, db\<lparr> q_leases := q_leases db @ [lease_to_row i l], seq_leases := i \<rparr>))"

definition sql_get_active_lease :: "sqlite_env \<Rightarrow> i64 \<Rightarrow> string \<Rightarrow> (sqlite_db, lease option) db_read" where
  "sql_get_active_lease E now mac = fetch E ''get_active_lease'' None (\<lambda>db.
     map_option row_to_lease (first_row (order_desc lr_lease_end (env_leases E ''get_active_lease''
       (filter (\<lambda>r. to_lowercase (lr_mac_address r) = to_lowercase mac \<and> now < lr_lease_end r)
         (q_leases db))))))"

definition sql_list_active_leases :: "sqlite_env \<Rightarrow> i64 \<Rightarrow> (sqlite_db, lease list) db_read" where
  "sql_list_active_leases E now = fetch E ''list_active_leases'' None (\<lambda>db.
     map row_to_lease (env_leases E ''list_active_leases''
       (filter (\<lambda>r. now < lr_lease_end r) (q_leases db))))"

definition sql_expire_lease :: "sqlite_env \<Rightarrow> i64 \<Rightarrow> (sqlite_db, unit) db_write" where
  "sql_expire_lease E i = execute E ''expire_lease'' (Some i) (\<lambda>db.
     (Inr (), db\<lparr> q_leases := filter (\<lambda>r. lr_id r \<noteq> i) (q_leases db) \<rparr>))"

definition sql_delete_expired_leases :: "sqlite_env \<Rightarrow> i64 \<Rightarrow> (sqlite_db, nat) db_write" where
  "sql_delete_expired_leases E now = execute E ''delete_expired_leases'' None (\<lambda>db.
     (Inr (length (filter (\<lambda>r. lr_lease_end r < now) (q_leases db))),
      db\<lparr> q_leases := filter (\<lambda>r. \<not> lr_lease_end r < now) (q_leases db) \<rparr>))"

subsection \<open>IPv6 prefixes\<close>

definition prefix_to_row :: "i64 \<Rightarrow> ia_prefix \<Rightarrow> prefix_row" where
  "prefix_to_row i p = \<lparr> pr_id = i, pr_interface = p_interface p, pr_prefix = ipv6_to_string (p_prefix p),
     pr_prefix_len = uint (p_prefix_len p), pr_preferred_lifetime = uint (p_preferred_lifetime p),
     pr_valid_lifetime = uint (p_valid_lifetime p), pr_dns_servers = ia_dns_servers_to_string p,
     pr_dns_lifetime = uint (p_dns_lifetime p) \<rparr>"

definition row_to_prefix :: "prefix_row \<Rightarrow> ia_prefix" where
  "row_to_prefix r = \<lparr> p_id = Some (pr_id r), p_interface = pr_interface r,
     p_prefix = the (ipv6_parse (pr_prefix r)), p_prefix_len = word_of_int (pr_prefix_len r),
     p_preferred_lifetime = word_of_int (pr_preferred_lifetime r),
     p_valid_lifetime = word_of_int (pr_valid_lifetime r),
     p_dns_servers = ia_dns_servers_from_string (pr_dns_servers r),
     p_dns_lifetime = word_of_int (pr_dns_lifetime r) \<rparr>"

definition sql_create_ia_prefix :: "sqlite_env \<Rightarrow> ia_prefix \<Rightarrow> (sqlite_db, i64) db_write" where
  "sql_create_ia_prefix E p = execute E ''create_ia_prefix'' None (\<lambda>db.
     case new_rowid (seq_ia_prefixes db) of
       None \<Rightarrow> (Inl other_violation, db)
     | Some i \<Rightarrow> (Inr i, db\<lparr> q_ia_prefixes := q_ia_prefixes db @ [prefix_to_row i p],
         seq_ia_prefixes := i \<rparr>))"

definition sql_get_ia_prefix :: "sqlite_env \<Rightarrow> i64 \<Rightarrow> (sqlite_db, ia_prefix option) db_read" where
  "sql_get_ia_prefix E i = fetch E ''get_ia_prefix'' (Some i) (\<lambda>db.
     map_option row_to_prefix
       (first_row (env_ia_prefixes E ''get_ia_prefix'' (filter (\<lambda>r. pr_id r = i) (q_ia_prefixes db)))))"

definition sql_list_ia_prefixes :: "sqlite_env \<Rightarrow> string option \<Rightarrow> (sqlite_db, ia_prefix list) db_read" where
  "sql_list_ia_prefixes E iface =
     (case iface of
        Some i \<Rightarrow> fetch E ''list_ia_prefixes of'' None (\<lambda>db. map row_to_prefix
          (env_ia_prefixes E ''list_ia_prefixes of'' (filter (\<lambda>r. pr_interface r = i) (q_ia_prefixes db))))
      | None \<Rightarrow> fetch E ''list_ia_prefixes'' None (\<lambda>db. map row_to_prefix
          (env_ia_prefixes E ''list_ia_prefixes'' (q_ia_prefixes db))))"

definition sql_update_ia_prefix :: "sqlite_env \<Rightarrow> i64 \<Rightarrow> ia_prefix \<Rightarrow> (sqlite_db, unit) db_write" where
  "sql_update_ia_prefix E i p = execute E ''update_ia_prefix'' (Some i) (\<lambda>db.
     (Inr (), db\<lparr> q_ia_prefixes :=
       map (\<lambda>r. if pr_id r = i then prefix_to_row i p else r) (q_ia_prefixes db) \<rparr>))"

definition sql_delete_ia_prefix :: "sqlite_env \<Rightarrow> i64 \<Rightarrow> (sqlite_db, unit) db_write" where
  "sql_delete_ia_prefix E i = execute E ''delete_ia_prefix'' (Some i) (\<lambda>db.
     (Inr (), db\<lparr> q_ia_prefixes := filter (\<lambda>r. pr_id r \<noteq> i) (q_ia_prefixes db) \<rparr>))"

subsection \<open>Tokens\<close>

definition sql_list_tokens :: "sqlite_env \<Rightarrow> (sqlite_db, (string \<times> i64) list) db_read" where
  "sql_list_tokens E = fetch E ''list_tokens'' None (\<lambda>db. map (\<lambda>r. (tr_token_hash r, tr_enabled r))
     (env_tokens E ''list_tokens'' (filter (\<lambda>r. tr_enabled r = 1) (q_tokens db))))"

definition row_to_token :: "token_row \<Rightarrow> api_token" where
  "row_to_token r = \<lparr> tk_id = Some (tr_id r), tk_name = tr_name r, tk_token_hash = None,
     tk_salt = None, tk_created_at = Some (tr_created_at r), tk_last_used_at = tr_last_used_at r,
     tk_enabled = (tr_enabled r \<noteq> 0), tk_token = None \<rparr>"

definition sql_list_api_tokens :: "sqlite_env \<Rightarrow> (sqlite_db, api_token list) db_read" where
  "sql_list_api_tokens E = fetch E ''list_api_tokens'' None (\<lambda>db. map row_to_token
     (order_desc tr_created_at (env_tokens E ''list_api_tokens'' (q_tokens db))))"

text \<open>\<open>now\<close> is \<open>strftime('%s', 'now')\<close>.\<close>

definition sql_create_token ::
  "sqlite_env \<Rightarrow> i64 \<Rightarrow> string \<Rightarrow> string \<Rightarrow> string \<Rightarrow> (sqlite_db, i64) db_write" where
  "sql_create_token E now name token_hash salt = execute E ''create_token'' None (\<lambda>db.
     case new_rowid (seq_tokens db) of
       None \<Rightarrow> (Inl other_violation, db)
     | Some i \<Rightarrow>
         if name \<in> tr_name ` set (q_tokens db) then (Inl unique_violation, db)
         else (Inr i, db\<lparr> q_tokens := q_tokens db @ [\<lparr> tr_id = i, tr_name = name,
           tr_token_hash = token_hash, tr_salt = salt, tr_created_at = now, tr_last_used_at = None,
           tr_enabled = 1 \<rparr>], seq_tokens := i \<rparr>))"

definition sql_delete_token :: "sqlite_env \<Rightarrow> i64 \<Rightarrow> (sqlite_db, unit) db_write" where
  "sql_delete_token E i = execute E ''delete_token'' (Some i) (\<lambda>db.
     (Inr (), db\<lparr> q_tokens := filter (\<lambda>r. tr_id r \<noteq> i) (q_tokens db) \<rparr>))"

definition sql_toggle_token :: "sqlite_env \<Rightarrow> i64 \<Rightarrow> bool \<Rightarrow> (sqlite_db, unit) db_write" where
  "sql_toggle_token E i enabled = execute E ''toggle_token'' (Some i) (\<lambda>db.
     (Inr (), db\<lparr> q_tokens := map (\<lambda>r. if tr_id r = i
        then r\<lparr> tr_enabled := (if enabled then 1 else 0) \<rparr> else r) (q_tokens db) \<rparr>))"

definition sql_update_token_last_used :: "sqlite_env \<Rightarrow> i64 \<Rightarrow> string \<Rightarrow> (sqlite_db, unit) db_write" where
  "sql_update_token_last_used E now token_hash = execute E ''update_token_last_used'' None (\<lambda>db.
     (Inr (), db\<lparr> q_tokens := map (\<lambda>r. if tr_token_hash r = token_hash
        then r\<lparr> tr_last_used_at := Some now \<rparr> else r) (q_tokens db) \<rparr>))"

text \<open>\<open>impl Database for SqliteDatabase\<close>.\<close>

definition sqlite_database :: "sqlite_env \<Rightarrow> sqlite_db database" where
  "sqlite_database E = \<lparr>
     db_create_subnet = sql_create_subnet E, db_get_subnet = sql_get_subnet E,
     db_list_subnets = sql_list_subnets E, db_update_subnet = sql_update_subnet E,
     db_delete_subnet = sql_delete_subnet E,
     db_create_range = sql_create_range E, db_list_ranges = sql_list_ranges E,
     db_delete_range = sql_delete_range E,
     db_create_static_ip = sql_create_static_ip E, db_list_static_ips = sql_list_static_ips E,
     db_get_static_ip_by_mac = sql_get_static_ip_by_mac E,
     db_update_static_ip_hostname = sql_update_static_ip_hostname E,
     db_delete_static_ip = sql_delete_static_ip E,
     db_create_lease = sql_create_lease E, db_get_active_lease = sql_get_active_lease E,
     db_list_active_leases = sql_list_active_leases E, db_expire_lease = sql_expire_lease E,
     db_delete_expired_leases = sql_delete_expired_leases E,
     db_create_ia_prefix = sql_create_ia_prefix E, db_get_ia_prefix = sql_get_ia_prefix E,
     db_list_ia_prefixes = sql_list_ia_prefixes E, db_update_ia_prefix = sql_update_ia_prefix E,
     db_delete_ia_prefix = sql_delete_ia_prefix E,
     db_list_tokens = sql_list_tokens E, db_list_api_tokens = sql_list_api_tokens E,
     db_create_token = sql_create_token E, db_delete_token = sql_delete_token E,
     db_toggle_token = sql_toggle_token E,
     db_update_token_last_used = sql_update_token_last_used E \<rparr>"

end
