(* ===== verification/Sqlite_Store.thy ===== *)
theory Sqlite_Store
  imports Sqlite_Db
begin

text \<open>
  The SQLite database meets the contracts of \<open>Database\<close>. The invariant of its tables: stored
  rows are what the code writes (so that reading them back never panics), identifiers are unique
  and were given out, the \<open>UNIQUE\<close> columns are unique, and every reference to a subnet resolves.
  The contracts are proved over every environment that keeps the documented behaviour of sqlx and
  SQLite, as sublocales of \<open>sqlite_backend\<close>.
\<close>

section \<open>Rows and values\<close>

lemma row_to_subnet_to_row [simp]: "row_to_subnet (subnet_to_row i s) = s\<lparr> s_id := Some i \<rparr>"
  by (simp add: row_to_subnet_def subnet_to_row_def)

lemma row_to_range_to_row [simp]: "row_to_range (range_to_row i r) = r\<lparr> r_id := Some i \<rparr>"
  by (simp add: row_to_range_def range_to_row_def)

lemma row_to_static_to_row [simp]: "row_to_static (static_to_row st) = st"
  by (simp add: row_to_static_def static_to_row_def)

lemma row_to_lease_to_row [simp]: "row_to_lease (lease_to_row i l) = l\<lparr> l_id := Some i \<rparr>"
  by (simp add: row_to_lease_def lease_to_row_def)

lemma row_to_prefix_to_row [simp]: "row_to_prefix (prefix_to_row i p) = p\<lparr> p_id := Some i \<rparr>"
  by (simp add: row_to_prefix_def prefix_to_row_def)

lemma dns_column_id [simp]:
  "dns_servers_to_string (s\<lparr> s_id := x \<rparr>) = dns_servers_to_string s"
  "ia_dns_servers_to_string (p\<lparr> p_id := x \<rparr>) = ia_dns_servers_to_string p"
  by (simp_all add: dns_servers_to_string_def ia_dns_servers_to_string_def)

lemma to_row_id [simp]:
  "subnet_to_row i (s\<lparr> s_id := x \<rparr>) = subnet_to_row i s" "range_to_row i (r\<lparr> r_id := x \<rparr>) = range_to_row i r"
  "lease_to_row i (l\<lparr> l_id := x \<rparr>) = lease_to_row i l" "prefix_to_row i (p\<lparr> p_id := x \<rparr>) = prefix_to_row i p"
  by (simp_all add: subnet_to_row_def range_to_row_def lease_to_row_def prefix_to_row_def)

lemma row_fields [simp]:
  "sr_id (subnet_to_row i s) = i" "rr_id (range_to_row i r) = i" "lr_id (lease_to_row i l) = i"
  "pr_id (prefix_to_row i p) = i" "rr_subnet_id (range_to_row i r) = r_subnet_id r"
  "xr_subnet_id (static_to_row st) = st_subnet_id st" "lr_subnet_id (lease_to_row i l) = l_subnet_id l"
  "xr_ip_address (static_to_row st) = ipv4_to_string (st_ip_address st)"
  "xr_mac_address (static_to_row st) = st_mac_address st"
  by (simp_all add: subnet_to_row_def range_to_row_def lease_to_row_def prefix_to_row_def static_to_row_def)

lemma value_fields [simp]:
  "s_id (row_to_subnet r) = Some (sr_id r)" "r_id (row_to_range r') = Some (rr_id r')"
  "l_id (row_to_lease l) = Some (lr_id l)" "p_id (row_to_prefix p) = Some (pr_id p)"
  "r_subnet_id (row_to_range r') = rr_subnet_id r'" "st_mac_address (row_to_static x) = xr_mac_address x"
  "l_mac_address (row_to_lease l) = lr_mac_address l" "l_lease_end (row_to_lease l) = lr_lease_end l"
  "l_subnet_id (row_to_lease l) = lr_subnet_id l" "st_subnet_id (row_to_static x) = xr_subnet_id x"
  by (simp_all add: row_to_subnet_def row_to_range_def row_to_lease_def row_to_prefix_def row_to_static_def)

section \<open>Invariant\<close>

text \<open>A row is as the code writes it when writing what is read from it gives it back.\<close>

definition sql_typed :: "sqlite_db \<Rightarrow> bool" where
  "sql_typed db \<longleftrightarrow>
     (\<forall>r\<in>set (q_subnets db). subnet_to_row (sr_id r) (row_to_subnet r) = r) \<and>
     (\<forall>r\<in>set (q_ranges db). range_to_row (rr_id r) (row_to_range r) = r) \<and>
     (\<forall>r\<in>set (q_static_ips db). static_to_row (row_to_static r) = r) \<and>
     (\<forall>r\<in>set (q_leases db). lease_to_row (lr_id r) (row_to_lease r) = r) \<and>
     (\<forall>r\<in>set (q_ia_prefixes db). prefix_to_row (pr_id r) (row_to_prefix r) = r) \<and>
     (\<forall>r\<in>set (q_tokens db). tr_enabled r = 0 \<or> tr_enabled r = 1)"

definition sql_ids :: "nat \<Rightarrow> sqlite_db \<Rightarrow> bool" where
  "sql_ids n db \<longleftrightarrow>
     table_ok (\<lambda>r. Some (sr_id r)) n (q_subnets db) (seq_subnets db + 1) \<and>
     table_ok (\<lambda>r. Some (rr_id r)) n (q_ranges db) (seq_ranges db + 1) \<and>
     table_ok (\<lambda>r. Some (lr_id r)) n (q_leases db) (seq_leases db + 1) \<and>
     table_ok (\<lambda>r. Some (pr_id r)) n (q_ia_prefixes db) (seq_ia_prefixes db + 1) \<and>
     table_ok (\<lambda>r. Some (tr_id r)) n (q_tokens db) (seq_tokens db + 1)"

definition sql_unique :: "sqlite_db \<Rightarrow> bool" where
  "sql_unique db \<longleftrightarrow>
     distinct (map subnet_key (q_subnets db)) \<and>
     distinct (map xr_ip_address (q_static_ips db)) \<and>
     distinct (map xr_mac_address (q_static_ips db)) \<and>
     distinct (map tr_name (q_tokens db))"

definition sql_refs :: "sqlite_db \<Rightarrow> bool" where
  "sql_refs db \<longleftrightarrow>
     rr_subnet_id ` set (q_ranges db) \<subseteq> sr_id ` set (q_subnets db) \<and>
     xr_subnet_id ` set (q_static_ips db) \<subseteq> sr_id ` set (q_subnets db) \<and>
     lr_subnet_id ` set (q_leases db) \<subseteq> sr_id ` set (q_subnets db)"

definition sql_inv :: "nat \<Rightarrow> sqlite_db \<Rightarrow> bool" where
  "sql_inv n db \<longleftrightarrow> sql_ids n db \<and> sql_typed db \<and> sql_unique db \<and> sql_refs db"

lemmas sql_inv_defs = sql_inv_def sql_ids_def sql_typed_def sql_unique_def sql_refs_def

text \<open>No \<open>unwrap\<close> of a stored address fails.\<close>

definition unwraps :: "sqlite_db \<Rightarrow> bool" where
  "unwraps db \<longleftrightarrow>
     (\<forall>r\<in>set (q_subnets db). ipv4_parse (sr_network r) \<noteq> None \<and> ipv4_parse (sr_gateway r) \<noteq> None) \<and>
     (\<forall>r\<in>set (q_ranges db). ipv4_parse (rr_range_start r) \<noteq> None \<and> ipv4_parse (rr_range_end r) \<noteq> None) \<and>
     (\<forall>r\<in>set (q_static_ips db). ipv4_parse (xr_ip_address r) \<noteq> None) \<and>
     (\<forall>r\<in>set (q_leases db). ipv4_parse (lr_ip_address r) \<noteq> None) \<and>
     (\<forall>r\<in>set (q_ia_prefixes db). ipv6_parse (pr_prefix r) \<noteq> None)"

lemma written_address:
  "subnet_to_row i s = r \<Longrightarrow> ipv4_parse (sr_network r) \<noteq> None \<and> ipv4_parse (sr_gateway r) \<noteq> None"
  "range_to_row i rg = r' \<Longrightarrow> ipv4_parse (rr_range_start r') \<noteq> None \<and> ipv4_parse (rr_range_end r') \<noteq> None"
  "static_to_row st = x \<Longrightarrow> ipv4_parse (xr_ip_address x) \<noteq> None"
  "lease_to_row i l = y \<Longrightarrow> ipv4_parse (lr_ip_address y) \<noteq> None"
  "prefix_to_row i p = z \<Longrightarrow> ipv6_parse (pr_prefix z) \<noteq> None"
  by (auto simp: subnet_to_row_def range_to_row_def static_to_row_def lease_to_row_def prefix_to_row_def)

lemma sql_inv_unwraps: "sql_inv n db \<Longrightarrow> unwraps db"
  unfolding sql_inv_def sql_typed_def unwraps_def
  by (elim conjE, intro conjI ballI; (drule (1) bspec, drule written_address, simp))

lemma sql_inv_new: "int n + 1 \<le> i64_max \<Longrightarrow> sql_inv n sqlite_new"
  by (simp add: sql_inv_defs sqlite_new_def table_ok_empty)

lemma sql_inv_mono: "sql_inv n db \<Longrightarrow> m \<le> n \<Longrightarrow> sql_inv m db"
  unfolding sql_inv_def sql_ids_def by (blast intro: table_ok_mono)

section \<open>Every statement keeps the invariant\<close>

lemma execute_inv:
  "sql_inv n db \<Longrightarrow> sql_inv n (snd (stmt db)) \<Longrightarrow> sql_inv n (snd (execute E q i stmt db))"
  by (simp add: execute_def split: option.split)

lemma table_ok_room: "table_ok f n rs (seq + 1) \<Longrightarrow> new_rowid seq = Some (seq + 1)"
  by (simp add: table_ok_def new_rowid_def)

lemma table_ok_insert:
  "table_ok f (Suc n) rs (seq + 1) \<Longrightarrow> f r = Some (seq + 1) \<Longrightarrow> table_ok f n (rs @ [r]) (seq + 1 + 1)"
  using table_ok_snoc [of f n rs "seq + 1" r] table_ok_next [of f n rs "seq + 1"] by simp

lemma table_ok_map: "(\<And>r. f (g r) = f r) \<Longrightarrow> table_ok f n (map g rs) nxt = table_ok f n rs nxt"
  by (simp add: table_ok_def list_all_iff comp_def)

lemma distinct_map_filter: "distinct (map f rs) \<Longrightarrow> distinct (map f (filter p rs))"
  by (simp add: distinct_map_filter)

text \<open>The row with the given identifier, replaced: unique keys stay unique when no other row has the
  new key.\<close>

lemma distinct_keys_update:
  assumes "distinct (map key rs)" and "distinct (map ident rs)" and "ident row = i"
    and "key row \<notin> key ` set (filter (\<lambda>r. ident r \<noteq> i) rs)"
  shows "distinct (map key (map (\<lambda>r. if ident r = i then row else r) rs))"
proof -
  let ?upd = "\<lambda>r. if ident r = i then row else r"
  have "key (?upd (rs ! a)) \<noteq> key (?upd (rs ! b))" if ab: "a < length rs" "b < length rs" "a \<noteq> b" for a b
  proof -
    have "ident (rs ! a) \<noteq> ident (rs ! b)" "key (rs ! a) \<noteq> key (rs ! b)"
      using assms(1,2) ab by (simp_all add: distinct_conv_nth)
    moreover have "key row \<noteq> key (rs ! c)" if "c < length rs" "ident (rs ! c) \<noteq> i" for c
      using assms(4) that by force
    ultimately show ?thesis using ab by (cases "ident (rs ! a) = i"; cases "ident (rs ! b) = i") fastforce+
  qed
  then show ?thesis by (simp add: distinct_conv_nth)
qed

lemma sql_inv_refs: "sql_inv n db \<Longrightarrow> sql_refs db"
  by (simp add: sql_inv_def)

lemma sql_inv_create_subnet:
  assumes "sql_inv (Suc n) db"
  shows "sql_inv n (snd (sql_create_subnet E s db))"
proof -
  have "table_ok (\<lambda>r. Some (sr_id r)) (Suc n) (q_subnets db) (seq_subnets db + 1)"
    using assms by (simp add: sql_inv_def sql_ids_def)
  note ok = table_ok_room [OF this] table_ok_insert [OF this, of "subnet_to_row (seq_subnets db + 1) s"]
  have "sql_inv n db" using assms by (rule sql_inv_mono) simp
  moreover have "sql_inv n (db\<lparr> q_subnets := q_subnets db @ [subnet_to_row (seq_subnets db + 1) s],
      seq_subnets := seq_subnets db + 1 \<rparr>)"
    if "subnet_key (subnet_to_row (seq_subnets db + 1) s) \<notin> subnet_key ` set (q_subnets db)"
    unfolding sql_inv_def
  proof (intro conjI)
    show "sql_unique (db\<lparr> q_subnets := q_subnets db @ [subnet_to_row (seq_subnets db + 1) s],
        seq_subnets := seq_subnets db + 1 \<rparr>)"
      using assms that by (simp add: sql_inv_def sql_unique_def)
  qed (use \<open>sql_inv n db\<close> ok(2) in \<open>simp_all add: sql_inv_def sql_ids_def sql_typed_def sql_refs_def subset_insertI2\<close>)
  ultimately show ?thesis
    using ok(1) unfolding sql_create_subnet_def by (intro execute_inv) simp_all
qed

lemma sql_inv_update_subnet:
  assumes inv: "sql_inv n db"
  shows "sql_inv n (snd (sql_update_subnet E i s db))"
proof (cases "has_subnet i db \<and>
    subnet_key (subnet_to_row i s) \<in> subnet_key ` set (filter (\<lambda>r. sr_id r \<noteq> i) (q_subnets db))")
  case True
  with inv show ?thesis unfolding sql_update_subnet_def by (intro execute_inv) simp_all
next
  case False
  let ?upd = "\<lambda>r. if sr_id r = i then subnet_to_row i s else r"
  let ?db' = "db\<lparr> q_subnets := map ?upd (q_subnets db) \<rparr>"
  have "map sr_id (map ?upd (q_subnets db)) = map sr_id (q_subnets db)" by simp
  then have ids: "sr_id ` set (map ?upd (q_subnets db)) = sr_id ` set (q_subnets db)"
    by (metis list.set_map)
  have "distinct (map subnet_key (map ?upd (q_subnets db)))"
  proof (cases "has_subnet i db")
    case True
    with False inv show ?thesis
      by (intro distinct_keys_update [where ident = sr_id])
        (auto simp: sql_inv_defs table_ok_def distinct_map inj_on_def)
  next
    case False
    then have "map ?upd (q_subnets db) = q_subnets db"
      by (intro map_idI) (auto simp: has_subnet_def)
    with inv show ?thesis by (simp add: sql_inv_def sql_unique_def)
  qed
  moreover have "\<forall>r\<in>set (map ?upd (q_subnets db)). subnet_to_row (sr_id r) (row_to_subnet r) = r"
    using inv by (auto simp: sql_inv_def sql_typed_def)
  ultimately have "sql_inv n ?db'"
    using inv ids
    by (simp add: sql_inv_def sql_ids_def sql_typed_def sql_unique_def sql_refs_def table_ok_map del: set_map)
  with False inv show ?thesis
    unfolding sql_update_subnet_def by (intro execute_inv) simp_all
qed

lemma sql_inv_delete_subnet:
  assumes "sql_inv n db" and "env_foreign_keys E"
  shows "sql_inv n (snd (sql_delete_subnet E i db))"
proof -
  have refs: "x \<in> sr_id ` set (filter (\<lambda>r. sr_id r \<noteq> i) (q_subnets db))"
    if "x \<in> sr_id ` set (q_subnets db)" "x \<noteq> i" for x
    using that by auto
  have "rr_subnet_id ` set (filter (\<lambda>r. rr_subnet_id r \<noteq> i) (q_ranges db)) \<subseteq>
      sr_id ` set (filter (\<lambda>r. sr_id r \<noteq> i) (q_subnets db))"
    "xr_subnet_id ` set (filter (\<lambda>r. xr_subnet_id r \<noteq> i) (q_static_ips db)) \<subseteq>
      sr_id ` set (filter (\<lambda>r. sr_id r \<noteq> i) (q_subnets db))"
    "lr_subnet_id ` set (filter (\<lambda>r. lr_subnet_id r \<noteq> i) (q_leases db)) \<subseteq>
      sr_id ` set (filter (\<lambda>r. sr_id r \<noteq> i) (q_subnets db))"
    using sql_inv_refs [OF assms(1)] refs unfolding sql_refs_def by (simp_all add: subset_iff image_iff) blast+
  moreover have "filter (\<lambda>r. sr_id r \<noteq> i) (q_subnets db) = q_subnets db" if "\<not> has_subnet i db"
    using that by (intro filter_True) (auto simp: has_subnet_def)
  moreover have "sql_inv n (cascade_subnet i (db\<lparr> q_subnets := filter (\<lambda>r. sr_id r \<noteq> i) (q_subnets db) \<rparr>))"
    using assms(1) calculation(1-3)
    by (simp add: sql_inv_def sql_ids_def sql_typed_def sql_unique_def sql_refs_def cascade_subnet_def
        table_ok_filter distinct_map_filter)
  ultimately show ?thesis
    using assms unfolding sql_delete_subnet_def by (intro execute_inv) (simp_all add: Let_def)
qed

lemma sql_inv_create_range:
  assumes "sql_inv (Suc n) db" and "env_foreign_keys E"
  shows "sql_inv n (snd (sql_create_range E rg db))"
proof -
  have "table_ok (\<lambda>r. Some (rr_id r)) (Suc n) (q_ranges db) (seq_ranges db + 1)"
    using assms by (simp add: sql_inv_def sql_ids_def)
  note ok = table_ok_room [OF this] table_ok_insert [OF this, of "range_to_row (seq_ranges db + 1) rg"]
  have inv: "sql_inv n db" using assms(1) by (rule sql_inv_mono) simp
  with ok(2) have "sql_inv n (db\<lparr> q_ranges := q_ranges db @ [range_to_row (seq_ranges db + 1) rg],
      seq_ranges := seq_ranges db + 1 \<rparr>)" if "has_subnet (r_subnet_id rg) db"
    using that by (simp add: sql_inv_def sql_ids_def sql_typed_def sql_unique_def sql_refs_def has_subnet_def)
  with ok(1) inv assms(2) show ?thesis
    unfolding sql_create_range_def by (intro execute_inv) simp_all
qed

lemma sql_inv_create_lease:
  assumes "sql_inv (Suc n) db" and "env_foreign_keys E"
  shows "sql_inv n (snd (sql_create_lease E l db))"
proof -
  have "table_ok (\<lambda>r. Some (lr_id r)) (Suc n) (q_leases db) (seq_leases db + 1)"
    using assms by (simp add: sql_inv_def sql_ids_def)
  note ok = table_ok_room [OF this] table_ok_insert [OF this, of "lease_to_row (seq_leases db + 1) l"]
  have inv: "sql_inv n db" using assms(1) by (rule sql_inv_mono) simp
  with ok(2) have "sql_inv n (db\<lparr> q_leases := q_leases db @ [lease_to_row (seq_leases db + 1) l],
      seq_leases := seq_leases db + 1 \<rparr>)" if "has_subnet (l_subnet_id l) db"
    using that by (simp add: sql_inv_def sql_ids_def sql_typed_def sql_unique_def sql_refs_def has_subnet_def)
  with ok(1) inv assms(2) show ?thesis
    unfolding sql_create_lease_def by (intro execute_inv) simp_all
qed

lemma sql_inv_create_ia_prefix:
  assumes "sql_inv (Suc n) db"
  shows "sql_inv n (snd (sql_create_ia_prefix E p db))"
proof -
  have "table_ok (\<lambda>r. Some (pr_id r)) (Suc n) (q_ia_prefixes db) (seq_ia_prefixes db + 1)"
    using assms by (simp add: sql_inv_def sql_ids_def)
  note ok = table_ok_room [OF this] table_ok_insert [OF this, of "prefix_to_row (seq_ia_prefixes db + 1) p"]
  have inv: "sql_inv n db" using assms(1) by (rule sql_inv_mono) simp
  with ok show ?thesis
    unfolding sql_create_ia_prefix_def
    by (intro execute_inv) (simp_all add: sql_inv_def sql_ids_def sql_typed_def sql_unique_def sql_refs_def)
qed

lemma sql_inv_create_token:
  assumes "sql_inv (Suc n) db"
  shows "sql_inv n (snd (sql_create_token E now name h salt db))"
proof -
  have tab: "table_ok (\<lambda>r. Some (tr_id r)) (Suc n) (q_tokens db) (seq_tokens db + 1)"
    using assms by (simp add: sql_inv_def sql_ids_def)
  have inv: "sql_inv n db" using assms(1) by (rule sql_inv_mono) simp
  with table_ok_insert [OF tab] have "sql_inv n (db\<lparr> q_tokens := q_tokens db @
      [\<lparr> tr_id = seq_tokens db + 1, tr_name = name, tr_token_hash = h, tr_salt = salt,
         tr_created_at = now, tr_last_used_at = None, tr_enabled = 1 \<rparr>], seq_tokens := seq_tokens db + 1 \<rparr>)"
    if "name \<notin> tr_name ` set (q_tokens db)"
    using that by (simp add: sql_inv_def sql_ids_def sql_typed_def sql_unique_def sql_refs_def)
  with table_ok_room [OF tab] inv show ?thesis
    unfolding sql_create_token_def by (intro execute_inv) simp_all
qed

lemma sql_inv_create_static_ip:
  assumes inv: "sql_inv n db" and "env_foreign_keys E"
  shows "sql_inv n (snd (sql_create_static_ip E st db))"
proof -
  have "sql_inv n (db\<lparr> q_static_ips := q_static_ips db @ [static_to_row st] \<rparr>)"
    if "ipv4_to_string (st_ip_address st) \<notin> xr_ip_address ` set (q_static_ips db)"
      "st_mac_address st \<notin> xr_mac_address ` set (q_static_ips db)" "has_subnet (st_subnet_id st) db"
    using inv that
    by (simp add: sql_inv_def sql_ids_def sql_typed_def sql_unique_def sql_refs_def has_subnet_def)
  with inv assms(2) show ?thesis
    unfolding sql_create_static_ip_def by (intro execute_inv) simp_all
qed

text \<open>Deleting rows, and changing columns that no constraint is about.\<close>

lemma sql_inv_filter:
  assumes "sql_inv n db"
  shows "sql_inv n (db\<lparr> q_ranges := filter p1 (q_ranges db) \<rparr>)"
    "sql_inv n (db\<lparr> q_static_ips := filter p2 (q_static_ips db) \<rparr>)"
    "sql_inv n (db\<lparr> q_leases := filter p3 (q_leases db) \<rparr>)"
    "sql_inv n (db\<lparr> q_ia_prefixes := filter p4 (q_ia_prefixes db) \<rparr>)"
    "sql_inv n (db\<lparr> q_tokens := filter p5 (q_tokens db) \<rparr>)"
proof -
  have sub: "f ` {x \<in> set rs. p x} \<subseteq> A" if "f ` set rs \<subseteq> A" for f p A and rs :: "'x list" using that by blast
  show "sql_inv n (db\<lparr> q_ranges := filter p1 (q_ranges db) \<rparr>)"
    "sql_inv n (db\<lparr> q_static_ips := filter p2 (q_static_ips db) \<rparr>)"
    "sql_inv n (db\<lparr> q_leases := filter p3 (q_leases db) \<rparr>)"
    "sql_inv n (db\<lparr> q_ia_prefixes := filter p4 (q_ia_prefixes db) \<rparr>)"
    "sql_inv n (db\<lparr> q_tokens := filter p5 (q_tokens db) \<rparr>)"
    using assms
    by (simp_all add: sql_inv_def sql_ids_def sql_typed_def sql_unique_def sql_refs_def
        table_ok_filter distinct_map_filter sub)
qed

lemma sql_inv_update_static_ip_hostname:
  assumes "sql_inv n db"
  shows "sql_inv n (snd (sql_update_static_ip_hostname E ip h db))"
proof -
  let ?upd = "\<lambda>r. if xr_ip_address r = ip then r\<lparr> xr_hostname := h \<rparr> else r"
  have same: "map f (map ?upd rs) = map f rs" if "\<And>r. f (r\<lparr> xr_hostname := h \<rparr>) = f r" for f :: "static_row \<Rightarrow> 'x" and rs
    using that by simp
  have ref: "xr_subnet_id ` set (map ?upd rs) = xr_subnet_id ` set rs" for rs :: "static_row list"
  proof -
    have "map xr_subnet_id (map ?upd rs) = map xr_subnet_id rs" by simp
    then show ?thesis by (metis list.set_map)
  qed
  have "static_to_row (row_to_static (r\<lparr> xr_hostname := h \<rparr>)) = r\<lparr> xr_hostname := h \<rparr>"
    if "static_to_row (row_to_static r) = r" for r
    using that by (cases r) (simp add: static_to_row_def row_to_static_def)
  then have "\<forall>r\<in>set (map ?upd (q_static_ips db)). static_to_row (row_to_static r) = r"
    using assms by (auto simp: sql_inv_def sql_typed_def)
  with assms have "sql_inv n (db\<lparr> q_static_ips := map ?upd (q_static_ips db) \<rparr>)"
    using same [of xr_ip_address] same [of xr_mac_address] ref
    by (simp add: sql_inv_def sql_ids_def sql_typed_def sql_unique_def sql_refs_def del: set_map map_map)
  with assms show ?thesis
    unfolding sql_update_static_ip_hostname_def by (intro execute_inv) simp_all
qed

lemma sql_inv_update_ia_prefix:
  assumes "sql_inv n db"
  shows "sql_inv n (snd (sql_update_ia_prefix E i p db))"
proof -
  let ?upd = "\<lambda>r. if pr_id r = i then prefix_to_row i p else r"
  have "\<forall>r\<in>set (map ?upd (q_ia_prefixes db)). prefix_to_row (pr_id r) (row_to_prefix r) = r"
    using assms by (auto simp: sql_inv_def sql_typed_def)
  with assms have "sql_inv n (db\<lparr> q_ia_prefixes := map ?upd (q_ia_prefixes db) \<rparr>)"
    by (simp add: sql_inv_def sql_ids_def sql_typed_def sql_unique_def sql_refs_def table_ok_map del: set_map)
  with assms show ?thesis
    unfolding sql_update_ia_prefix_def by (intro execute_inv) simp_all
qed

lemma sql_inv_map_tokens:
  assumes "sql_inv n db" and "\<And>r. tr_id (g r) = tr_id r \<and> tr_name (g r) = tr_name r"
    and "\<And>r. tr_enabled r = 0 \<or> tr_enabled r = 1 \<Longrightarrow> tr_enabled (g r) = 0 \<or> tr_enabled (g r) = 1"
  shows "sql_inv n (db\<lparr> q_tokens := map g (q_tokens db) \<rparr>)"
  using assms
  by (simp add: sql_inv_def sql_ids_def sql_typed_def sql_unique_def sql_refs_def table_ok_map comp_def)

lemma sql_inv_toggle_token: "sql_inv n db \<Longrightarrow> sql_inv n (snd (sql_toggle_token E i e db))"
  unfolding sql_toggle_token_def by (intro execute_inv) (simp_all add: sql_inv_map_tokens)

lemma sql_inv_update_token_last_used: "sql_inv n db \<Longrightarrow> sql_inv n (snd (sql_update_token_last_used E now h db))"
  unfolding sql_update_token_last_used_def by (intro execute_inv) (simp_all add: sql_inv_map_tokens)

lemma sql_inv_delete:
  assumes "sql_inv n db"
  shows "sql_inv n (snd (sql_delete_range E i db))" "sql_inv n (snd (sql_delete_static_ip E ip db))"
    "sql_inv n (snd (sql_expire_lease E i db))" "sql_inv n (snd (sql_delete_expired_leases E now db))"
    "sql_inv n (snd (sql_delete_ia_prefix E i db))" "sql_inv n (snd (sql_delete_token E i db))"
  unfolding sql_delete_range_def sql_delete_static_ip_def sql_expire_lease_def
    sql_delete_expired_leases_def sql_delete_ia_prefix_def sql_delete_token_def
  using assms by (auto intro!: execute_inv simp: sql_inv_filter simp del: not_less)

section \<open>The contracts\<close>

lemma sqlite_method_simps [simp]:
  "db_create_subnet (sqlite_database E) = sql_create_subnet E"
  "db_get_subnet (sqlite_database E) = sql_get_subnet E"
  "db_list_subnets (sqlite_database E) = sql_list_subnets E"
  "db_update_subnet (sqlite_database E) = sql_update_subnet E"
  "db_delete_subnet (sqlite_database E) = sql_delete_subnet E"
  "db_create_range (sqlite_database E) = sql_create_range E"
  "db_list_ranges (sqlite_database E) = sql_list_ranges E"
  "db_delete_range (sqlite_database E) = sql_delete_range E"
  "db_create_static_ip (sqlite_database E) = sql_create_static_ip E"
  "db_list_static_ips (sqlite_database E) = sql_list_static_ips E"
  "db_get_static_ip_by_mac (sqlite_database E) = sql_get_static_ip_by_mac E"
  "db_update_static_ip_hostname (sqlite_database E) = sql_update_static_ip_hostname E"
  "db_delete_static_ip (sqlite_database E) = sql_delete_static_ip E"
  "db_create_lease (sqlite_database E) = sql_create_lease E"
  "db_get_active_lease (sqlite_database E) = sql_get_active_lease E"
  "db_list_active_leases (sqlite_database E) = sql_list_active_leases E"
  "db_expire_lease (sqlite_database E) = sql_expire_lease E"
  "db_delete_expired_leases (sqlite_database E) = sql_delete_expired_leases E"
  "db_create_ia_prefix (sqlite_database E) = sql_create_ia_prefix E"
  "db_get_ia_prefix (sqlite_database E) = sql_get_ia_prefix E"
  "db_list_ia_prefixes (sqlite_database E) = sql_list_ia_prefixes E"
  "db_update_ia_prefix (sqlite_database E) = sql_update_ia_prefix E"
  "db_delete_ia_prefix (sqlite_database E) = sql_delete_ia_prefix E"
  "db_list_tokens (sqlite_database E) = sql_list_tokens E"
  "db_list_api_tokens (sqlite_database E) = sql_list_api_tokens E"
  "db_create_token (sqlite_database E) = sql_create_token E"
  "db_delete_token (sqlite_database E) = sql_delete_token E"
  "db_toggle_token (sqlite_database E) = sql_toggle_token E"
  "db_update_token_last_used (sqlite_database E) = sql_update_token_last_used E"
  by (simp_all add: sqlite_database_def)

lemma sql_admin_inv:
  assumes "sql_inv (Suc n) db" and "env_foreign_keys E"
  shows "sql_inv n (admin_apply (sqlite_database E) x db)"
proof -
  have "sql_inv n db" using assms(1) by (rule sql_inv_mono) simp
  with assms show ?thesis
    by (cases x) (simp_all add: sql_inv_create_subnet sql_inv_update_subnet sql_inv_delete_subnet
        sql_inv_create_range sql_inv_create_static_ip sql_inv_update_static_ip_hostname
        sql_inv_create_ia_prefix sql_inv_update_ia_prefix sql_inv_create_token sql_inv_toggle_token
        sql_inv_update_token_last_used sql_inv_delete)
qed

lemma execute_leases:
  "set (q_leases (snd (stmt db))) \<subseteq> set (q_leases db) \<Longrightarrow>
   set (q_leases (snd (execute E q i stmt db))) \<subseteq> set (q_leases db)"
  by (simp add: execute_def split: option.split)

lemma sql_admin_leases: "set (q_leases (admin_apply (sqlite_database E) x db)) \<subseteq> set (q_leases db)"
  by (cases x; simp only: admin_apply.simps sqlite_method_simps sql_create_subnet_def sql_update_subnet_def
      sql_delete_subnet_def sql_create_range_def sql_delete_range_def sql_create_static_ip_def
      sql_update_static_ip_hostname_def sql_delete_static_ip_def sql_create_ia_prefix_def
      sql_update_ia_prefix_def sql_delete_ia_prefix_def sql_create_token_def sql_delete_token_def
      sql_toggle_token_def sql_update_token_last_used_def;
      rule execute_leases; simp add: cascade_subnet_def Let_def split: option.split)

lemma fetch_Inr: "fetch E q i stmt db = Inr x \<longleftrightarrow> env_fault E q i db = None \<and> stmt db = x"
  by (auto simp: fetch_def split: option.splits)

lemma execute_eq:
  "execute E q i stmt db = (res, db') \<longleftrightarrow>
   (case env_fault E q i db of Some e \<Rightarrow> res = Inl e \<and> db' = db | None \<Rightarrow> stmt db = (res, db'))"
  by (auto simp: execute_def split: option.splits)

lemma first_row_Some: "first_row rs = Some r \<Longrightarrow> r \<in> set rs"
  by (auto simp: first_row_def split: list.splits)

lemma first_row_None [simp]: "first_row rs = None \<longleftrightarrow> rs = []"
  by (auto simp: first_row_def split: list.splits)

lemma order_desc_Nil [simp]: "order_desc k rs = [] \<longleftrightarrow> rs = []"
  by (metis length_0_conv length_sort order_desc_def)

lemma set_order_desc [simp]: "set (order_desc k rs) = set rs"
  by (simp add: order_desc_def)

locale sqlite_backend =
  fixes E :: sqlite_env
  assumes foreign_keys: "env_foreign_keys E"
    and subnet_rows: "mset (env_subnets E q ss) = mset ss"
    and range_rows: "mset (env_ranges E q rs) = mset rs"
    and static_rows: "mset (env_static_ips E q xs) = mset xs"
    and lease_rows: "mset (env_leases E q ls) = mset ls"
    and prefix_rows: "mset (env_ia_prefixes E q ps) = mset ps"
    and token_rows: "mset (env_tokens E q ts) = mset ts"
    and not_constraint: "env_fault E q i db \<noteq> Some (SqlxDatabase True)"
begin

lemma set_rows [simp]:
  "set (env_subnets E q ss) = set ss" "set (env_ranges E q rs) = set rs"
  "set (env_static_ips E q xs) = set xs" "set (env_leases E q ls) = set ls"
  "set (env_ia_prefixes E q ps) = set ps" "set (env_tokens E q ts) = set ts"
  by (metis set_mset_mset subnet_rows range_rows static_rows lease_rows prefix_rows token_rows)+

lemma no_rows [simp]:
  "env_subnets E q ss = [] \<longleftrightarrow> ss = []" "env_static_ips E q xs = [] \<longleftrightarrow> xs = []"
  "env_leases E q ls = [] \<longleftrightarrow> ls = []" "env_ia_prefixes E q ps = [] \<longleftrightarrow> ps = []"
  by (metis set_empty set_rows)+

end

sublocale sqlite_backend \<subseteq> config_store "sqlite_database E" "\<lambda>db. row_to_subnet ` set (q_subnets db)"
  "\<lambda>db. row_to_range ` set (q_ranges db)" "\<lambda>db. row_to_static ` set (q_static_ips db)"
  by unfold_locales
    (auto simp: sql_get_subnet_def sql_list_subnets_def sql_list_ranges_def sql_get_static_ip_by_mac_def
      fetch_Inr filter_empty_conv dest!: first_row_Some)

sublocale sqlite_backend \<subseteq> lease_store "sqlite_database E" "\<lambda>db. row_to_lease ` set (q_leases db)" sql_inv
proof (unfold_locales, goal_cases)
  case (4 n db l i db')
  have "table_ok (\<lambda>r. Some (lr_id r)) (Suc n) (q_leases db) (seq_leases db + 1)"
    using 4(1) by (simp add: sql_inv_def sql_ids_def)
  from table_ok_fresh [OF this] table_ok_room [OF this] 4(2)
  have "row_to_lease ` set (q_leases db') = insert (l\<lparr> l_id := Some i \<rparr>) (row_to_lease ` set (q_leases db)) \<and>
      (\<forall>x\<in>row_to_lease ` set (q_leases db). l_id x \<noteq> Some i)"
    by (auto simp: sql_create_lease_def execute_eq split: option.splits if_splits)
  moreover have "sql_inv n db'"
    using sql_inv_create_lease [OF 4(1) foreign_keys, of l] 4(2) by simp
  ultimately show ?case by blast
next
  case (5 n db l e db')
  then have "q_leases db' = q_leases db"
    by (auto simp: sql_create_lease_def execute_eq split: option.splits if_splits)
  with sql_inv_create_lease [OF 5(1) foreign_keys, of l] 5(2) show ?case by simp
next
  case (6 n db i u db')
  then have "q_leases db' = filter (\<lambda>r. lr_id r \<noteq> i) (q_leases db)"
    by (auto simp: sql_expire_lease_def execute_eq split: option.splits)
  with sql_inv_delete(3) [OF 6(1), of E i] 6(2) show ?case by auto
next
  case (7 n db i e db')
  then have "q_leases db' = q_leases db"
    by (auto simp: sql_expire_lease_def execute_eq split: option.splits)
  with sql_inv_delete(3) [OF 7(1), of E i] 7(2) show ?case by simp
next
  case (8 n db now c db')
  then have "q_leases db' = filter (\<lambda>r. \<not> lr_lease_end r < now) (q_leases db)"
    by (auto simp: sql_delete_expired_leases_def execute_eq split: option.splits)
  with sql_inv_delete(4) [OF 8(1), of E now] 8(2) show ?case by (auto simp: not_less)
next
  case (9 n db now e db')
  then have "q_leases db' = q_leases db"
    by (auto simp: sql_delete_expired_leases_def execute_eq split: option.splits)
  with sql_inv_delete(4) [OF 9(1), of E now] 9(2) show ?case by simp
next
  case (11 n db)
  then show ?case
    by (auto simp: sql_inv_def sql_ids_def table_ok_def inj_on_def distinct_map)
qed (auto simp: sql_get_active_lease_def sql_list_active_leases_def fetch_Inr active_def
      filter_empty_conv dest!: first_row_Some intro: sql_inv_mono)

lemma execute_frame:
  assumes "execute E q i stmt db = (res, db')" and "f (snd (stmt db)) = f db"
  shows "f db' = f db"
  using assms by (auto simp: execute_def split: option.splits)

lemma lease_statements_frame:
  "sql_create_lease E l db = (res, db') \<Longrightarrow>
     q_subnets db' = q_subnets db \<and> q_ranges db' = q_ranges db \<and> q_static_ips db' = q_static_ips db"
  "sql_expire_lease E i db = (u, db') \<Longrightarrow>
     q_subnets db' = q_subnets db \<and> q_ranges db' = q_ranges db \<and> q_static_ips db' = q_static_ips db"
  "sql_delete_expired_leases E now db = (c, db') \<Longrightarrow>
     q_subnets db' = q_subnets db \<and> q_ranges db' = q_ranges db \<and> q_static_ips db' = q_static_ips db"
  unfolding sql_create_lease_def sql_expire_lease_def sql_delete_expired_leases_def
  by (intro conjI; erule execute_frame; simp split: option.split)+

sublocale sqlite_backend \<subseteq> dhcp_store "sqlite_database E" "\<lambda>db. row_to_subnet ` set (q_subnets db)"
  "\<lambda>db. row_to_range ` set (q_ranges db)" "\<lambda>db. row_to_static ` set (q_static_ips db)"
  "\<lambda>db. row_to_lease ` set (q_leases db)" sql_inv
proof (unfold_locales, goal_cases)
  case (1 n db)
  then show ?case by (auto simp: sql_inv_def sql_ids_def table_ok_def inj_on_def distinct_map)
qed (auto dest: lease_statements_frame)

sublocale sqlite_backend \<subseteq> admin_store "sqlite_database E" "\<lambda>db. row_to_subnet ` set (q_subnets db)"
  "\<lambda>db. row_to_range ` set (q_ranges db)" "\<lambda>db. row_to_static ` set (q_static_ips db)"
  "\<lambda>db. row_to_lease ` set (q_leases db)" sql_inv
  by unfold_locales (use sql_admin_inv foreign_keys sql_admin_leases image_mono in blast)+

context sqlite_backend
begin

lemmas axioms_admin = admin_store_axioms

end

text \<open>Without failures of its own, SQLite is a reliable database.\<close>

locale sqlite_reliable = sqlite_backend +
  assumes no_fault: "env_fault E q i db = None"

sublocale sqlite_reliable \<subseteq> reliable_store "sqlite_database E" "\<lambda>db. row_to_subnet ` set (q_subnets db)"
  "\<lambda>db. row_to_range ` set (q_ranges db)" "\<lambda>db. row_to_static ` set (q_static_ips db)"
  "\<lambda>db. row_to_lease ` set (q_leases db)" sql_inv
proof (unfold_locales, goal_cases)
  case (7 n db s l)
  have "table_ok (\<lambda>r. Some (lr_id r)) (Suc n) (q_leases db) (seq_leases db + 1)"
    using 7(1) by (simp add: sql_inv_def sql_ids_def)
  moreover have "has_subnet (l_subnet_id l) db" using 7(2,3) by (force simp: has_subnet_def)
  ultimately show ?case by (simp add: sql_create_lease_def execute_def no_fault table_ok_room)
qed (auto simp: sql_get_subnet_def sql_list_subnets_def sql_list_ranges_def sql_get_static_ip_by_mac_def
    sql_get_active_lease_def sql_list_active_leases_def sql_expire_lease_def fetch_def execute_def no_fault
    split: option.split)

text \<open>Rows in the order of their insertion, as SQLite scans a table, and no failures.\<close>

definition plain_env :: sqlite_env where
  "plain_env = \<lparr> env_fault = (\<lambda>_ _ _. None), env_foreign_keys = True,
     env_subnets = (\<lambda>_ rs. rs), env_ranges = (\<lambda>_ rs. rs), env_static_ips = (\<lambda>_ rs. rs),
     env_leases = (\<lambda>_ rs. rs), env_ia_prefixes = (\<lambda>_ rs. rs), env_tokens = (\<lambda>_ rs. rs) \<rparr>"

interpretation plain: sqlite_reliable plain_env
  by unfold_locales (simp_all add: plain_env_def)

end
