(* ===== verification/Api_Secrecy.thy ===== *)
theory Api_Secrecy
  imports Api_Server Sqlite_Store
begin

text \<open>
  The stored hashes and salts of the tokens stay in the database. Two databases that differ in
  nothing else cannot be told apart through the interface, not even without authentication: every
  sequence of requests gets the same answers from both. What a method has to promise for that is
  the contract \<open>secret_store\<close>, which both databases keep.
\<close>

section \<open>The contract\<close>

text \<open>A method that gives the same result on states that look the same, and keeps them so.\<close>

definition blind_read :: "('db \<Rightarrow> 'db \<Rightarrow> bool) \<Rightarrow> ('db, 'a) db_read \<Rightarrow> bool" where
  "blind_read same r \<longleftrightarrow> (\<forall>a b. same a b \<longrightarrow> r a = r b)"

definition blind_write :: "('db \<Rightarrow> 'db \<Rightarrow> bool) \<Rightarrow> ('db, 'a) db_write \<Rightarrow> ('db, 'a) db_write \<Rightarrow> bool" where
  "blind_write same w w' \<longleftrightarrow> (\<forall>a b. same a b \<longrightarrow> fst (w a) = fst (w' b) \<and> same (snd (w a)) (snd (w' b)))"

locale secret_store =
  fixes D :: "'db database" and same :: "'db \<Rightarrow> 'db \<Rightarrow> bool"
  assumes blind_reads:
      "blind_read same (db_get_subnet D i)" "blind_read same (db_list_subnets D)"
      "blind_read same (db_list_ranges D sid)" "blind_read same (db_list_static_ips D sid)"
      "blind_read same (db_list_active_leases D now)" "blind_read same (db_get_ia_prefix D i)"
      "blind_read same (db_list_ia_prefixes D iface)" "blind_read same (db_list_api_tokens D)"
    and blind_writes:
      "blind_write same (db_create_subnet D s) (db_create_subnet D s)"
      "blind_write same (db_update_subnet D i s) (db_update_subnet D i s)"
      "blind_write same (db_delete_subnet D i) (db_delete_subnet D i)"
      "blind_write same (db_create_range D r) (db_create_range D r)"
      "blind_write same (db_delete_range D i) (db_delete_range D i)"
      "blind_write same (db_create_static_ip D st) (db_create_static_ip D st)"
      "blind_write same (db_update_static_ip_hostname D ip host) (db_update_static_ip_hostname D ip host)"
      "blind_write same (db_delete_static_ip D ip) (db_delete_static_ip D ip)"
      "blind_write same (db_create_ia_prefix D p) (db_create_ia_prefix D p)"
      "blind_write same (db_update_ia_prefix D i p) (db_update_ia_prefix D i p)"
      "blind_write same (db_delete_ia_prefix D i) (db_delete_ia_prefix D i)"
      "blind_write same (db_delete_token D i) (db_delete_token D i)"
      "blind_write same (db_toggle_token D i enabled) (db_toggle_token D i enabled)"
    and blind_create: "blind_write same (db_create_token D now name h salt) (db_create_token D now name h' salt')"

section \<open>Requests\<close>

text \<open>A request with what its handler takes from the clock, the generator and the hash.\<close>

record api_turn =
  t_now :: i64
  t_token :: string
  t_hashed :: "string + string \<times> string"
  t_request :: api_request

definition same_turn :: "api_turn \<Rightarrow> api_turn \<Rightarrow> bool" where
  "same_turn x y \<longleftrightarrow> t_now x = t_now y \<and> t_token x = t_token y \<and> t_request x = t_request y \<and>
     (isl (t_hashed x) \<longleftrightarrow> isl (t_hashed y))"

fun answers_of ::
  "'db database \<Rightarrow> ra_config \<Rightarrow> (string \<Rightarrow> string \<Rightarrow> string + bool) \<Rightarrow> api_turn list \<Rightarrow> 'db \<Rightarrow>
   (api_error + status_code \<times> api_body) list" where
  "answers_of D cfg verify [] db = []"
| "answers_of D cfg verify (x # xs) db =
     (case create_router_with_auth D cfg verify False (t_now x) (t_token x) (t_hashed x) None None (t_request x) db of
        (r, db') \<Rightarrow> r # answers_of D cfg verify xs db')"

context secret_store
begin

lemmas reads_same = blind_reads [unfolded blind_read_def, rule_format]
lemmas writes_same = blind_writes [unfolded blind_write_def, rule_format] blind_create [unfolded blind_write_def, rule_format]

lemma route_same:
  assumes s: "same a b" and "isl hashed \<longleftrightarrow> isl hashed'"
  shows "fst (route D cfg now tok hashed req a) = fst (route D cfg now tok hashed' req b) \<and>
    same (snd (route D cfg now tok hashed req a)) (snd (route D cfg now tok hashed' req b))"
proof (cases req)
  case (PostToken name)
  show ?thesis
  proof (cases hashed)
    case (Inr x)
    with assms(2) obtain y where "hashed' = Inr y" by (cases hashed') auto
    with Inr PostToken writes_same(14) [OF s, of now name "fst x" "snd x" "fst y" "snd y"] show ?thesis
      by (auto simp: create_token_def case_prod_unfold map_prod_def split: sum.splits)
  next
    case (Inl e)
    with assms(2) obtain e' where "hashed' = Inl e'" by (cases hashed') auto
    with Inl PostToken s show ?thesis by (simp add: create_token_def)
  qed
next
  case (PatchToggle i)
  with s show ?thesis
    by (auto simp: toggle_token_def case_prod_unfold map_prod_def reads_same [OF s] writes_same(13) [OF s]
        split: sum.split option.split)
next
  case (DelToken i)
  with s show ?thesis
    by (auto simp: delete_token_def case_prod_unfold map_prod_def writes_same(12) [OF s] split: sum.split)
qed (use s in \<open>simp_all add: handler_defs list_subnets_def get_subnet_def list_ranges_def list_static_ips_def
    list_leases_def list_tokens_def list_ia_prefixes_def get_ia_prefix_def case_prod_unfold map_prod_def
    reads_same [OF s] writes_same(1-11) [OF s] split: sum.split\<close>)

lemma answers_same:
  "list_all2 same_turn xs ys \<Longrightarrow> same a b \<Longrightarrow> answers_of D cfg verify xs a = answers_of D cfg verify ys b"
proof (induction xs ys arbitrary: a b rule: list_all2_induct)
  case (Cons x xs y ys)
  with route_same [OF Cons.prems, of "t_hashed x" "t_hashed y" cfg "t_now x" "t_token x" "t_request x"] show ?case
    by (simp add: create_router_with_auth_def same_turn_def case_prod_unfold)
qed simp

end

section \<open>Both databases keep it\<close>

definition mem_public :: "i64 \<times> string \<times> string \<times> i64 \<Rightarrow> i64 \<times> string \<times> i64" where
  "mem_public = (\<lambda>(i, name, h, e). (i, name, e))"

definition mem_same :: "memory_db \<Rightarrow> memory_db \<Rightarrow> bool" where
  "mem_same a b \<longleftrightarrow> a\<lparr> m_tokens := [] \<rparr> = b\<lparr> m_tokens := [] \<rparr> \<and>
     map mem_public (m_tokens a) = map mem_public (m_tokens b)"

definition sql_public :: "token_row \<Rightarrow> token_row" where
  "sql_public r = r\<lparr> tr_token_hash := [], tr_salt := [] \<rparr>"

definition sql_same :: "sqlite_db \<Rightarrow> sqlite_db \<Rightarrow> bool" where
  "sql_same a b \<longleftrightarrow> a\<lparr> q_tokens := [] \<rparr> = b\<lparr> q_tokens := [] \<rparr> \<and>
     map sql_public (q_tokens a) = map sql_public (q_tokens b)"

text \<open>
  SQLite does not read the two columns when it orders rows without \<open>ORDER BY\<close>, and a fault of its
  own does not depend on them.
\<close>

locale sqlite_blind =
  fixes E :: sqlite_env
  assumes blind_fault: "sql_same a b \<Longrightarrow> env_fault E q i a = env_fault E q i b"
    and blind_order: "map sql_public rs = map sql_public rs' \<Longrightarrow>
      map sql_public (env_tokens E q rs) = map sql_public (env_tokens E q rs')"

subsection \<open>In memory\<close>

lemma mem_public_simps [simp]: "mem_public (i, name, h, e) = (i, name, e)"
  by (simp add: mem_public_def)

lemma mem_blindI:
  "(\<And>a ts. map mem_public (m_tokens a) = map mem_public ts \<Longrightarrow> r a = r (a\<lparr> m_tokens := ts \<rparr>)) \<Longrightarrow> blind_read mem_same r"
  "(\<And>a ts. map mem_public (m_tokens a) = map mem_public ts \<Longrightarrow> fst (w a) = fst (w' (a\<lparr> m_tokens := ts \<rparr>)) \<and>
     mem_same (snd (w a)) (snd (w' (a\<lparr> m_tokens := ts \<rparr>)))) \<Longrightarrow> blind_write mem_same w w'"
proof -
  have same: "\<exists>ts. b = a\<lparr> m_tokens := ts \<rparr> \<and> map mem_public (m_tokens a) = map mem_public ts" if "mem_same a b" for a b
    using that unfolding mem_same_def by (cases a; cases b) auto
  show "blind_read mem_same r"
    if "\<And>a ts. map mem_public (m_tokens a) = map mem_public ts \<Longrightarrow> r a = r (a\<lparr> m_tokens := ts \<rparr>)"
    unfolding blind_read_def using that same by metis
  show "blind_write mem_same w w'"
    if "\<And>a ts. map mem_public (m_tokens a) = map mem_public ts \<Longrightarrow> fst (w a) = fst (w' (a\<lparr> m_tokens := ts \<rparr>)) \<and>
      mem_same (snd (w a)) (snd (w' (a\<lparr> m_tokens := ts \<rparr>)))"
    unfolding blind_write_def using that same by metis
qed

lemma mem_public_tokens:
  "map mem_public (filter (\<lambda>(tid, _, _, _). tid \<noteq> i) xs) = filter (\<lambda>(tid, _, _). tid \<noteq> i) (map mem_public xs)"
  "map mem_public (update_first (\<lambda>(tid, _, _, _). tid = i) (\<lambda>(tid, name, h, _). (tid, name, h, v)) xs) =
     update_first (\<lambda>(tid, _, _). tid = i) (\<lambda>(tid, name, _). (tid, name, v)) (map mem_public xs)"
  "map (\<lambda>(i, name, _, enabled). f i name enabled) xs = map (\<lambda>(i, name, enabled). f i name enabled) (map mem_public xs)"
  by (induction xs) auto

interpretation mem_secret: secret_store memory_database mem_same
proof (unfold_locales, goal_cases)
  case 8
  show ?case by (rule mem_blindI) (simp add: mem_read_defs mem_public_tokens(3) del: list.map_comp)
qed (rule mem_blindI, simp add: mem_same_def mem_write_defs mem_read_defs mem_public_tokens(1,2) Let_def split: option.split)+

subsection \<open>SQLite\<close>

lemma sql_public_simps [simp]:
  "tr_id (sql_public r) = tr_id r" "tr_name (sql_public r) = tr_name r" "tr_created_at (sql_public r) = tr_created_at r"
  "row_to_token (sql_public r) = row_to_token r"
  "sql_public (r\<lparr> tr_enabled := e \<rparr>) = (sql_public r)\<lparr> tr_enabled := e \<rparr>"
  by (simp_all add: sql_public_def row_to_token_def)

lemma sql_public_tokens:
  "map sql_public (filter (\<lambda>r. tr_id r \<noteq> i) rs) = filter (\<lambda>r. tr_id r \<noteq> i) (map sql_public rs)"
  "map sql_public (map (\<lambda>r. if tr_id r = i then r\<lparr> tr_enabled := v \<rparr> else r) rs) =
     map (\<lambda>r. if tr_id r = i then r\<lparr> tr_enabled := v \<rparr> else r) (map sql_public rs)"
  by (induction rs) auto

lemma sql_public_names:
  assumes "map sql_public rs = map sql_public rs'"
  shows "tr_name ` set rs = tr_name ` set rs'"
proof -
  have "tr_name ` set (map sql_public rs) = tr_name ` set (map sql_public rs')" by (simp only: assms)
  then show ?thesis by (simp add: image_image)
qed

lemma sql_public_listed:
  assumes "map sql_public rs = map sql_public rs'"
  shows "map row_to_token (order_desc tr_created_at rs) = map row_to_token (order_desc tr_created_at rs')"
proof -
  have "insort_key (\<lambda>r. - tr_created_at r) (sql_public x) (map sql_public ys) =
      map sql_public (insort_key (\<lambda>r. - tr_created_at r) x ys)" for x ys
    by (induction ys) simp_all
  then have "order_desc tr_created_at (map sql_public ts) = map sql_public (order_desc tr_created_at ts)" for ts
    unfolding order_desc_def by (induction ts) simp_all
  from this [of rs] this [of rs'] assms
  have "map row_to_token (map sql_public (order_desc tr_created_at rs)) =
      map row_to_token (map sql_public (order_desc tr_created_at rs'))" by simp
  then show ?thesis by (simp add: comp_def)
qed

context sqlite_blind
begin

lemma sql_blindI:
  "(\<And>a ts. map sql_public (q_tokens a) = map sql_public ts \<Longrightarrow> r a = r (a\<lparr> q_tokens := ts \<rparr>)) \<Longrightarrow>
   blind_read sql_same (fetch E q i r)"
  "(\<And>a ts. map sql_public (q_tokens a) = map sql_public ts \<Longrightarrow> fst (w a) = fst (w' (a\<lparr> q_tokens := ts \<rparr>)) \<and>
     sql_same (snd (w a)) (snd (w' (a\<lparr> q_tokens := ts \<rparr>)))) \<Longrightarrow>
   blind_write sql_same (execute E q i w) (execute E q i w')"
proof -
  have same: "\<exists>ts. b = a\<lparr> q_tokens := ts \<rparr> \<and> map sql_public (q_tokens a) = map sql_public ts" if "sql_same a b" for a b
    using that unfolding sql_same_def by (cases a; cases b) auto
  show "blind_read sql_same (fetch E q i r)"
    if "\<And>a ts. map sql_public (q_tokens a) = map sql_public ts \<Longrightarrow> r a = r (a\<lparr> q_tokens := ts \<rparr>)"
    unfolding blind_read_def fetch_def
  proof (intro allI impI)
    fix a b assume s: "sql_same a b"
    from same [OF s] that have "r a = r b" by metis
    with blind_fault [OF s] show "(case env_fault E q i a of Some e \<Rightarrow> Inl e | None \<Rightarrow> Inr (r a)) =
        (case env_fault E q i b of Some e \<Rightarrow> Inl e | None \<Rightarrow> Inr (r b))" by (simp split: option.split)
  qed
  show "blind_write sql_same (execute E q i w) (execute E q i w')"
    if "\<And>a ts. map sql_public (q_tokens a) = map sql_public ts \<Longrightarrow> fst (w a) = fst (w' (a\<lparr> q_tokens := ts \<rparr>)) \<and>
      sql_same (snd (w a)) (snd (w' (a\<lparr> q_tokens := ts \<rparr>)))"
    unfolding blind_write_def execute_def
  proof (intro allI impI)
    fix a b assume s: "sql_same a b"
    from same [OF s] that have "fst (w a) = fst (w' b) \<and> sql_same (snd (w a)) (snd (w' b))" by metis
    with s blind_fault [OF s] show "fst (case env_fault E q i a of Some e \<Rightarrow> (Inl e, a) | None \<Rightarrow> w a) =
        fst (case env_fault E q i b of Some e \<Rightarrow> (Inl e, b) | None \<Rightarrow> w' b) \<and>
        sql_same (snd (case env_fault E q i a of Some e \<Rightarrow> (Inl e, a) | None \<Rightarrow> w a))
          (snd (case env_fault E q i b of Some e \<Rightarrow> (Inl e, b) | None \<Rightarrow> w' b))"
      by (simp split: option.split)
  qed
qed

end

lemmas sql_api_defs = sqlite_database_def sql_get_subnet_def sql_list_subnets_def sql_list_ranges_def sql_list_static_ips_def
  sql_list_active_leases_def sql_get_ia_prefix_def sql_list_ia_prefixes_def sql_list_api_tokens_def sql_create_subnet_def
  sql_update_subnet_def sql_delete_subnet_def sql_create_range_def sql_delete_range_def sql_create_static_ip_def
  sql_update_static_ip_hostname_def sql_delete_static_ip_def sql_create_ia_prefix_def sql_update_ia_prefix_def
  sql_delete_ia_prefix_def sql_create_token_def sql_delete_token_def sql_toggle_token_def database.select_convs

sublocale sqlite_blind \<subseteq> secret_store "sqlite_database E" sql_same
proof (unfold_locales, goal_cases)
  case (3 sid)
  show ?case unfolding sql_api_defs by (cases sid) (simp_all, (rule sql_blindI, simp)+)
next
  case (4 sid)
  show ?case unfolding sql_api_defs by (cases sid) (simp_all, (rule sql_blindI, simp)+)
next
  case (7 iface)
  show ?case unfolding sql_api_defs by (cases iface) (simp_all, (rule sql_blindI, simp)+)
next
  case 8
  show ?case unfolding sql_api_defs 
    by (rule sql_blindI, rule sql_public_listed, rule blind_order) simp
next
  case (22 now name h salt h' salt')
  let ?w = "\<lambda>h salt (db :: sqlite_db). case new_rowid (seq_tokens db) of
       None \<Rightarrow> (Inl other_violation, db)
     | Some i \<Rightarrow>
         if name \<in> tr_name ` set (q_tokens db) then (Inl unique_violation, db)
         else (Inr i, db\<lparr> q_tokens := q_tokens db @ [\<lparr> tr_id = i, tr_name = name,
           tr_token_hash = h, tr_salt = salt, tr_created_at = now, tr_last_used_at = None,
           tr_enabled = 1 \<rparr>], seq_tokens := i \<rparr>)"
  show ?case
    unfolding sql_api_defs
  proof (rule sql_blindI)
    fix a :: sqlite_db and ts assume m: "map sql_public (q_tokens a) = map sql_public ts"
    note row = sql_public_def [of "\<lparr> tr_id = i, tr_name = name, tr_token_hash = x, tr_salt = y, tr_created_at = now,
      tr_last_used_at = None, tr_enabled = 1 \<rparr>" for i x y]
    show "fst (?w h salt a) = fst (?w h' salt' (a\<lparr> q_tokens := ts \<rparr>)) \<and>
        sql_same (snd (?w h salt a)) (snd (?w h' salt' (a\<lparr> q_tokens := ts \<rparr>)))"
      using m sql_public_names [OF m] by (simp add: sql_same_def row split: option.split)
  qed
qed (unfold sql_api_defs, (rule sql_blindI, auto simp: sql_same_def sql_public_tokens has_subnet_def cascade_subnet_def Let_def
      split: option.split simp del: map_map; fail)+)

context sqlite_blind
begin

lemmas axioms_secret = secret_store_axioms

end

interpretation plain_secret: sqlite_blind plain_env
  by unfold_locales (simp_all add: plain_env_def)

section \<open>Properties\<close>


text \<open>Two databases with one token each, listed and deleted.\<close>

definition secret_db :: "string \<Rightarrow> sqlite_db" where
  "secret_db h = sqlite_new\<lparr> q_tokens := [\<lparr> tr_id = 1, tr_name = ''admin'', tr_token_hash = h, tr_salt = h,
     tr_created_at = 5, tr_last_used_at = None, tr_enabled = 1 \<rparr>], seq_tokens := 1 \<rparr>"

definition secret_turns :: "string \<Rightarrow> api_turn list" where
  "secret_turns h =
     [\<lparr> t_now = 6, t_token = ''t'', t_hashed = Inr (h, h), t_request = PostToken ''second'' \<rparr>,
      \<lparr> t_now = 7, t_token = [], t_hashed = Inl [], t_request = ListTokens \<rparr>]"


end
