(* ===== verification/Ra_Receive.thy ===== *)
theory Ra_Receive
  imports Ra_Server
begin

text \<open>
  The receive loop of the Router Advertisement server as it is written (\<open>ra/server.rs\<close>):
  \<open>try_recv\<close> copies a datagram over the front of one buffer of 1500 bytes, which keeps what the
  datagram before left behind it, and the inner loop goes on until the call fails. What the
  kernel answers at the \<open>i\<close>-th call is the argument \<open>answers\<close>; the loop may run forever, so its
  result is an option. The advertisements for the \<open>i\<close>-th datagram are \<open>ra i\<close>, since the database
  may change between two of them.
\<close>

section \<open>Receiving\<close>

datatype recv_error = WouldBlock | RecvFailed

type_synonym recv_answer = "recv_error + bytes \<times> ipv6"

definition try_recv :: "recv_answer \<Rightarrow> bytes \<Rightarrow> (recv_error + nat \<times> ipv6) \<times> bytes" where
  "try_recv answer buf =
     (case answer of
        Inl e \<Rightarrow> (Inl e, buf)
      | Inr (d, src) \<Rightarrow> (Inr (min (length d) (length buf), src), take (length buf) d @ drop (length d) buf))"

partial_function (option) drain_loop ::
  "(nat \<Rightarrow> recv_answer) \<Rightarrow> (nat \<Rightarrow> bytes list) \<Rightarrow> nat \<Rightarrow> bytes \<Rightarrow> bytes list \<Rightarrow> (bytes list \<times> nat) option" where
  [code]: "drain_loop answers ra i recv_buf out =
     (case try_recv (answers i) recv_buf of
        (Inl e, buf) \<Rightarrow> Some (out, i)
      | (Inr (n, src), buf) \<Rightarrow>
          drain_loop answers ra (Suc i) buf (if 1 \<le> n \<and> buf ! 0 = ICMPV6_TYPE_RS then out @ ra i else out))"

section \<open>Lemmas\<close>

text \<open>A solicitation by its own first byte, whatever the buffer held before.\<close>

fun solicits :: "recv_answer \<Rightarrow> bool" where
  "solicits (Inr (t # d, src)) \<longleftrightarrow> t = ICMPV6_TYPE_RS"
| "solicits _ \<longleftrightarrow> False"

lemma try_recv_solicits:
  assumes "try_recv answer buf = (Inr (n, src), buf')" and "buf \<noteq> []"
  shows "(1 \<le> n \<and> buf' ! 0 = ICMPV6_TYPE_RS) = solicits answer" and "length buf' = length buf"
proof -
  from assms(1) obtain d where a: "answer = Inr (d, src)" and n: "n = min (length d) (length buf)"
    and b: "buf' = take (length buf) d @ drop (length d) buf"
    by (auto simp: try_recv_def split: sum.splits)
  show "(1 \<le> n \<and> buf' ! 0 = ICMPV6_TYPE_RS) = solicits answer"
    using assms(2) by (cases d; cases buf) (auto simp: a n b)
  show "length buf' = length buf" by (simp add: b)
qed

lemma drain_loop_end: "answers i = Inl e \<Longrightarrow> drain_loop answers ra i buf out = Some (out, i)"
  by (subst drain_loop.simps) (simp add: try_recv_def)

lemma drain_loop_step:
  assumes "answers i = Inr x" and "buf \<noteq> []"
  shows "\<exists>buf'. buf' \<noteq> [] \<and> length buf' = length buf \<and> drain_loop answers ra i buf out =
    drain_loop answers ra (Suc i) buf' (out @ (if solicits (answers i) then ra i else []))"
proof -
  obtain n src buf' where t: "try_recv (answers i) buf = (Inr (n, src), buf')"
    using assms(1) by (cases x) (simp add: try_recv_def)
  note s = try_recv_solicits [OF t assms(2)]
  have "drain_loop answers ra i buf out =
      drain_loop answers ra (Suc i) buf' (out @ (if solicits (answers i) then ra i else []))"
    by (subst drain_loop.simps) (simp add: t s(1) [symmetric])
  moreover have "buf' \<noteq> []" using s(2) assms(2) by auto
  ultimately show ?thesis using s(2) by blast
qed

text \<open>Up to the first failed call.\<close>

lemma drain_loop_result:
  assumes "i \<le> m" and "\<forall>k\<in>{i..<m}. \<not> isl (answers k)" and "isl (answers m)" and "buf \<noteq> []"
  shows "drain_loop answers ra i buf out =
    Some (out @ concat (map (\<lambda>k. if solicits (answers k) then ra k else []) [i..<m]), m)"
  using assms
proof (induction arbitrary: buf out rule: inc_induct)
  case base
  then obtain e where "answers m = Inl e" by (auto simp: isl_def)
  then show ?case by (simp add: drain_loop_end)
next
  case (step i)
  then have "\<not> isl (answers i)" by auto
  then obtain x where "answers i = Inr x" by (cases "answers i") auto
  from drain_loop_step [of answers, OF this step.prems(3)] obtain buf' where "buf' \<noteq> []"
    and s: "drain_loop answers ra i buf out =
      drain_loop answers ra (Suc i) buf' (out @ (if solicits (answers i) then ra i else []))" by blast
  with step show ?case by (simp add: upt_conv_Cons)
qed

text \<open>While datagrams keep coming, the loop does not end.\<close>

lemma drain_loop_returns:
  assumes "drain_loop answers ra i buf out = Some r"
  shows "i \<le> snd r \<and> isl (answers (snd r))"
proof (rule drain_loop.raw_induct [OF _ assms])
  fix f answers ra i buf out r
  assume IH: "\<And>answers ra i buf out r. f answers ra i buf out = Some r \<Longrightarrow> i \<le> snd r \<and> isl (answers (snd r))"
    and body: "(case try_recv (answers i) buf of
        (Inl e, buf) \<Rightarrow> Some (out, i)
      | (Inr (n, src), buf) \<Rightarrow>
          f answers ra (Suc i) buf (if 1 \<le> n \<and> buf ! 0 = ICMPV6_TYPE_RS then out @ ra i else out)) = Some r"
  show "i \<le> snd r \<and> isl (answers (snd r))"
  proof (cases "answers i")
    case (Inr x)
    with body obtain buf' out' where "f answers ra (Suc i) buf' out' = Some r"
      by (cases x) (auto simp: try_recv_def)
    from IH [OF this] show ?thesis by auto
  qed (use body in \<open>auto simp: try_recv_def\<close>)
qed

lemma drain_concat:
  "drain ra ds = concat (map (\<lambda>d. if d \<noteq> [] \<and> hd d = ICMPV6_TYPE_RS then ra else []) ds)"
  by (induction ds) (auto split: list.splits)

text \<open>Four datagrams, then nothing more: a solicitation, an empty one, one of our own and another.\<close>

definition lab_answers :: "nat \<Rightarrow> recv_answer" where
  "lab_answers i =
     (if i < 4 then Inr ([[133, 0], [], [134], [133]] ! i, 0xfe800000000000000000000000000002) else Inl WouldBlock)"

section \<open>Properties\<close>

text \<open>
  C37. The receive loop ends exactly when some call fails, and then at the first one that does: it
  has sent the advertisements for each datagram before it whose own first byte says that it is a
  Router Solicitation, in order and one each, and for no other; an empty datagram is never taken
  for the one before it, whose byte is still in the buffer.
\<close>

theorem drain_loop_terminates:
  assumes "buf \<noteq> []"
  shows "((\<exists>r. drain_loop answers ra i buf out = Some r) \<longleftrightarrow> (\<exists>m\<ge>i. isl (answers m))) \<and>
    (\<forall>m. i \<le> m \<longrightarrow> (\<forall>k\<in>{i..<m}. \<not> isl (answers k)) \<longrightarrow> isl (answers m) \<longrightarrow>
       drain_loop answers ra i buf out =
         Some (out @ concat (map (\<lambda>k. if solicits (answers k) then ra k else []) [i..<m]), m))"
proof (intro conjI allI impI iffI)
  assume "\<exists>r. drain_loop answers ra i buf out = Some r"
  then show "\<exists>m\<ge>i. isl (answers m)" using drain_loop_returns by blast
next
  assume ex: "\<exists>m\<ge>i. isl (answers m)"
  let ?m = "LEAST m. i \<le> m \<and> isl (answers m)"
  from LeastI_ex [OF ex] have "i \<le> ?m" "isl (answers ?m)" by simp_all
  moreover have "\<forall>k\<in>{i..<?m}. \<not> isl (answers k)" using not_less_Least by fastforce
  ultimately show "\<exists>r. drain_loop answers ra i buf out = Some r" using drain_loop_result assms by blast
qed (rule drain_loop_result, assumption+, rule assms)

theorem drain_loop_terminates_witness:
  "drain_loop lab_answers (\<lambda>i. [[of_nat i]]) 0 (replicate 1500 0) [] = Some ([[0], [3]], 4)"
proof -
  have "replicate 1500 (0 :: u8) \<noteq> []" by simp
  note end_here = conjunct2 [OF drain_loop_terminates [OF this, of lab_answers "\<lambda>i. [[of_nat i]]" 0 "[]"], rule_format, of 4]
  show ?thesis
    by (rule end_here [THEN trans]) (auto simp: lab_answers_def ICMPV6_TYPE_RS_def upt_rec numeral_eq_Suc less_Suc_eq)
qed

text \<open>
  So the abstract loop of \<open>Ra_Server\<close>, which takes the pending datagrams as a list, is what the code
  does on its buffer.
\<close>

theorem drain_loop_refines:
  assumes "\<forall>k < length ds. \<exists>src. answers k = Inr (ds ! k, src)" and "isl (answers (length ds))"
  shows "drain_loop answers (\<lambda>_. ra) 0 (replicate 1500 0) [] = Some (drain ra ds, length ds)"
proof -
  have "solicits (answers k) \<longleftrightarrow> ds ! k \<noteq> [] \<and> hd (ds ! k) = ICMPV6_TYPE_RS" if k: "k < length ds" for k
  proof -
    obtain src where a: "answers k = Inr (ds ! k, src)" using assms(1) k by blast
    show ?thesis by (cases "ds ! k") (simp_all add: a)
  qed
  then have "map (\<lambda>k. if solicits (answers k) then ra else []) [0..<length ds] =
      map (\<lambda>d. if d \<noteq> [] \<and> hd d = ICMPV6_TYPE_RS then ra else []) ds"
    by (intro nth_equalityI) auto
  moreover have "\<forall>k\<in>{0..<length ds}. \<not> isl (answers k)" using assms(1) by force
  ultimately show ?thesis
    using drain_loop_result [of 0 "length ds" answers "replicate 1500 0" "\<lambda>_. ra" "[]"] assms(2)
    by (simp add: drain_concat)
qed

text \<open>A peer that sends faster than the loop reads keeps it from the timer of the periodic advertisements.\<close>

theorem flood_never_drained:
  "drain_loop (\<lambda>_. Inr (d, src)) ra 0 (replicate 1500 0) [] = None"
  using drain_loop_returns [of "\<lambda>_. Inr (d, src)" ra 0 "replicate 1500 0" "[]"]
  by (cases "drain_loop (\<lambda>_. Inr (d, src)) ra 0 (replicate 1500 0) []") auto

end
