(* ===== verification/Api_Tokens.thy ===== *)
theory Api_Tokens
  imports Api_Server Sqlite_Store
begin

text \<open>
  The life of an API token (\<open>auth/token.rs\<close>, \<open>handlers/tokens.rs\<close>, \<open>auth/mod.rs\<close>): a token is
  generated and hashed, the hash is stored, a request with the token passes, and after its
  deletion the same request is refused. The random generator, base64 and Argon2 are arguments.
\<close>

section \<open>Generation and hashing\<close>

definition TOKEN_LENGTH :: nat where
  "TOKEN_LENGTH = 32"

definition token_generate :: "(nat \<Rightarrow> u8) \<Rightarrow> (bytes \<Rightarrow> string) \<Rightarrow> string" where
  "token_generate random encode = encode (map random [0..<TOKEN_LENGTH])"

text \<open>\<open>None\<close> of \<open>hash_password\<close> is its error.\<close>

definition token_hash :: "(string \<Rightarrow> string \<Rightarrow> string option) \<Rightarrow> string \<Rightarrow> string \<Rightarrow> string + string \<times> string" where
  "token_hash hash_password salt token =
     (case hash_password token salt of
        None \<Rightarrow> Inl ''Failed to hash token''
      | Some password_hash \<Rightarrow> Inr (password_hash, salt))"

section \<open>What the tokens of a database promise\<close>

text \<open>The table of tokens as a set of identifiers and hashes with their state.\<close>

locale token_store =
  fixes D :: "'db database" and tokens :: "'db \<Rightarrow> (i64 \<times> string \<times> bool) set"
  assumes listed: "db_list_tokens D db = Inr ts \<Longrightarrow> set ts = {(h, 1) | i h. (i, h, True) \<in> tokens db}"
    and created: "db_create_token D now name h salt db = (Inr i, db') \<Longrightarrow> tokens db' = insert (i, h, True) (tokens db)"
    and deleted: "db_delete_token D i db = (Inr (), db') \<Longrightarrow> tokens db' = {t \<in> tokens db. fst t \<noteq> i}"
    and used: "tokens (snd (db_update_token_last_used D now h db)) = tokens db"
begin

text \<open>A request with a token that verifies one enabled hash, all others being well formed, passes.\<close>

lemma passes:
  assumes ts: "db_list_tokens D db = Inr ts" and h: "(i, h, True) \<in> tokens db" "verify token h = Inr True"
    and others: "\<And>j h'. (j, h', True) \<in> tokens db \<Longrightarrow> verify token h' \<noteq> Inr True \<Longrightarrow> verify token h' = Inr False"
    and conn: "conn \<noteq> Some UnixSocket" and req: "req \<noteq> Health"
  shows "\<exists>h'. create_router_with_auth D cfg verify True now tok hashed conn (Some (''Bearer '' @ token)) req db =
    route D cfg now tok hashed req (snd (db_update_token_last_used D now h' db))"
proof -
  have set_ts: "set ts = {(h, 1) | i h. (i, h, True) \<in> tokens db}" using ts by (rule listed)
  from h have "(h, 1) \<in> set ts" "verify token (fst (h, 1 :: i64)) = Inr True" unfolding set_ts by auto
  then obtain pre y post where split: "ts = pre @ y # post" and y: "verify token (fst y) = Inr True"
    and pre: "\<forall>x\<in>set pre. verify token (fst x) \<noteq> Inr True"
    using split_list_first_prop [of ts "\<lambda>x. verify token (fst x) = Inr True"] by blast
  have skip: "verify token (fst x) = Inr False" if "x \<in> set pre" for x
  proof -
    from that split have "x \<in> set ts" by simp
    with set_ts obtain j h' where "x = (h', 1)" "(j, h', True) \<in> tokens db" by blast
    with others [of j h'] pre that show ?thesis by auto
  qed
  have "verify_token_in_db D verify now token db = (Inr True, snd (db_update_token_last_used D now (fst y) db))"
  proof -
    from split have "y \<in> set ts" by simp
    with set_ts have "y = (fst y, 1)" by auto
    then have "verify_tokens D verify now token ts db =
        verify_tokens D verify now token ((fst y, 1) # post) db"
      using split verify_tokens_skip [of pre verify token D now "y # post" db] skip by simp
    with ts y show ?thesis by (simp add: verify_token_in_db_def)
  qed
  moreover have "strip_prefix ''Bearer '' (''Bearer '' @ token) = Some token" by (simp only: strip_prefix_Some)
  ultimately have "create_router_with_auth D cfg verify True now tok hashed conn (Some (''Bearer '' @ token)) req db =
    route D cfg now tok hashed req (snd (db_update_token_last_used D now (fst y) db))"
    using conn req by (simp add: create_router_with_auth_def auth_middleware_def del: strip_prefix.simps append.simps)
  then show ?thesis by blast
qed

text \<open>One with a token that verifies no enabled hash is refused.\<close>

lemma refused:
  assumes none: "\<And>j h'. (j, h', True) \<in> tokens db \<Longrightarrow> verify token h' \<noteq> Inr True"
    and conn: "conn \<noteq> Some UnixSocket" and req: "req \<noteq> Health"
  shows "\<exists>msg. fst (create_router_with_auth D cfg verify True now tok hashed conn (Some (''Bearer '' @ token)) req db) =
    Inl (UNAUTHORIZED, msg)"
proof (rule ccontr)
  assume fail: "\<not> ?thesis"
  let ?run = "auth_middleware D verify now conn (Some (''Bearer '' @ token)) (route D cfg now tok hashed req) db"
  have "?run = (fst ?run, snd ?run)" by simp
  moreover have "fst ?run \<noteq> Inl (UNAUTHORIZED, msg)" for msg
    using fail req by (simp add: create_router_with_auth_def)
  ultimately obtain token' ts h where "Some (''Bearer '' @ token) = Some (''Bearer '' @ token')"
    and "db_list_tokens D db = Inr ts" "(h, 1) \<in> set ts" "verify token' h = Inr True"
    by (rule auth_middleware_passed) (use conn in auto)
  with listed none show False by force
qed

end

definition mem_token :: "i64 \<times> string \<times> string \<times> i64 \<Rightarrow> i64 \<times> string \<times> bool" where
  "mem_token = (\<lambda>(i, name, h, e). (i, h, e = 1))"

definition sql_token :: "token_row \<Rightarrow> i64 \<times> string \<times> bool" where
  "sql_token r = (tr_id r, tr_token_hash r, tr_enabled r = 1)"

lemma mem_token_enabled: "(i, h, True) \<in> mem_token ` set ts \<longleftrightarrow> (\<exists>name. (i, name, h, 1) \<in> set ts)"
proof
  assume "\<exists>name. (i, name, h, 1) \<in> set ts"
  then obtain name where "(i, name, h, 1) \<in> set ts" by blast
  moreover have "(i, h, True) = mem_token (i, name, h, 1)" by (simp add: mem_token_def)
  ultimately show "(i, h, True) \<in> mem_token ` set ts" by (rule rev_image_eqI)
qed (auto simp: mem_token_def)

interpretation mem_tokens: token_store memory_database "\<lambda>db. mem_token ` set (m_tokens db)"
proof (unfold_locales, goal_cases)
  case (1 db ts)
  then have "set ts = {(h, 1) | i name h. (i, name, h, 1) \<in> set (m_tokens db)}"
    by (auto simp: mem_list_tokens_def image_iff) blast
  then show ?case unfolding mem_token_enabled by blast
next
  case (3 i db db')
  have "fst (mem_token t) = fst t" for t by (simp add: mem_token_def case_prod_unfold)
  with 3 show ?case by (auto simp: mem_delete_token_def case_prod_unfold)
qed (auto simp: mem_create_token_def mem_update_token_last_used_def mem_token_def Let_def)

sublocale sqlite_backend \<subseteq> sqlite_tokens: token_store "sqlite_database E" "\<lambda>db. sql_token ` set (q_tokens db)"
proof (unfold_locales, goal_cases)
  case (1 db ts)
  then show ?case
    by (force simp: sqlite_database_def sql_list_tokens_def sql_token_def fetch_def image_iff split: option.splits)
next
  case (2 now name h salt db i db')
  then show ?case
    by (auto simp: sqlite_database_def sql_create_token_def sql_token_def execute_def split: option.splits if_splits)
next
  case (3 i db db')
  then show ?case
    by (auto simp: sqlite_database_def sql_delete_token_def sql_token_def execute_def image_iff split: option.splits)
next
  case (4 now h db)
  let ?use = "\<lambda>r. if tr_token_hash r = h then r\<lparr> tr_last_used_at := Some now \<rparr> else r"
  have "sql_token ` set (map ?use (q_tokens db)) = sql_token ` set (q_tokens db)"
    unfolding set_map image_image by (rule image_cong [OF refl]) (simp add: sql_token_def)
  then show ?case
    by (simp add: sqlite_database_def sql_update_token_last_used_def execute_def split: option.split del: set_map)
qed

context sqlite_backend
begin

lemmas axioms_tokens = sqlite_tokens.token_store_axioms

end

section \<open>Properties\<close>

text \<open>
  C25. A token that the interface has handed out is accepted: after a request to create a token
  was answered with 201, the answer carries the generated token, and a request over TCP with it as
  bearer token reaches its handler, provided that Argon2 verifies what it hashed and that the
  stored hashes are well formed. On both databases.
\<close>

theorem created_token_accepted:
  assumes "token_store D tokens"
    and "\<forall>token salt h. hash_password token salt = Some h \<longrightarrow> (\<exists>p. parse_hash h = Some p \<and> verify_password token p)"
    and "route D cfg now token (token_hash hash_password salt token) (PostToken name) db = (Inr (c, TokenBody answer), db')"
    and "\<forall>(i, h, e)\<in>tokens db. parse_hash h \<noteq> None"
    and "db_list_tokens D db' = Inr ts" and "req \<noteq> Health"
  shows "c = CREATED \<and> ctr_token answer = token \<and> ctr_name answer = name \<and>
    (\<exists>h. create_router_with_auth D cfg (token_verify parse_hash verify_password) True later tok hashed (Some Tcp)
         (Some (''Bearer '' @ ctr_token answer)) req db' =
       route D cfg later tok hashed req (snd (db_update_token_last_used D later h db')))"
proof -
  let ?verify = "token_verify parse_hash verify_password"
  from assms(3) obtain h i where hp: "hash_password token salt = Some h"
    and cr: "db_create_token D now name h salt db = (Inr i, db')" and c: "c = CREATED"
    and answer: "answer = \<lparr> ctr_id = i, ctr_name = name, ctr_token = token \<rparr>"
    by (auto simp: create_token_def token_hash_def split: option.splits prod.splits sum.splits if_splits)
  have stored: "tokens db' = insert (i, h, True) (tokens db)" by (rule token_store.created [OF assms(1) cr])
  obtain p where "parse_hash h = Some p" "verify_password token p" using assms(2) hp by blast
  then have ok: "?verify token h = Inr True" by (simp add: token_verify_def)
  have "?verify token h' = Inr False" if "(j, h', True) \<in> tokens db'" "?verify token h' \<noteq> Inr True" for j h'
  proof -
    from that stored ok have "(j, h', True) \<in> tokens db" by auto
    with assms(4) have "parse_hash h' \<noteq> None" by blast
    with that(2) show ?thesis by (auto simp: token_verify_def)
  qed
  then have "\<exists>h. create_router_with_auth D cfg ?verify True later tok hashed (Some Tcp) (Some (''Bearer '' @ token)) req db' =
      route D cfg later tok hashed req (snd (db_update_token_last_used D later h db'))"
    using stored assms(6) by (intro token_store.passes [OF assms(1,5), of i h]) (simp_all add: ok)
  with c answer show ?thesis by simp
qed

theorem created_token_accepted_witness:
  "\<exists>c answer db' h. route memory_database ra_default 5 ''secret'' (token_hash (\<lambda>t s. Some (s @ t)) ''salt'' ''secret'')
       (PostToken ''ci'') lab_token_db = (Inr (c, TokenBody answer), db') \<and>
     create_router_with_auth memory_database ra_default (token_verify Some (\<lambda>t h. h = ''salt'' @ t)) True 6 [] (Inl [])
       (Some Tcp) (Some (''Bearer '' @ ctr_token answer)) ListSubnets db' =
     route memory_database ra_default 6 [] (Inl []) ListSubnets (snd (db_update_token_last_used memory_database 6 h db'))"
proof -
  let ?db = "snd (mem_create_token 5 ''ci'' ''saltsecret'' ''salt'' lab_token_db)"
  let ?hash = "\<lambda>t s. if s = ''salt'' then Some (s @ t) else None"
  have r: "route memory_database ra_default 5 ''secret'' (token_hash ?hash ''salt'' ''secret'')
      (PostToken ''ci'') lab_token_db =
      (Inr (CREATED, TokenBody \<lparr> ctr_id = 2, ctr_name = ''ci'', ctr_token = ''secret'' \<rparr>), ?db)"
    by code_simp
  have same: "token_hash ?hash ''salt'' ''secret'' = token_hash (\<lambda>t s. Some (s @ t)) ''salt'' ''secret''"
    by (simp add: token_hash_def)
  have l: "db_list_tokens memory_database ?db = Inr [(''abc'', 1), (''saltsecret'', 1)]" by code_simp
  have wf: "\<forall>(i, h, e)\<in>mem_token ` set (m_tokens lab_token_db). Some h \<noteq> None" by simp
  have argon2: "\<forall>token salt h. ?hash token salt = Some h \<longrightarrow> (\<exists>p. Some h = Some p \<and> p = ''salt'' @ token)" by simp
  have "\<exists>h. create_router_with_auth memory_database ra_default (token_verify Some (\<lambda>t h. h = ''salt'' @ t)) True 6 [] (Inl [])
      (Some Tcp) (Some (''Bearer '' @ ''secret'')) ListSubnets ?db =
    route memory_database ra_default 6 [] (Inl []) ListSubnets (snd (db_update_token_last_used memory_database 6 h ?db))"
    using created_token_accepted [of memory_database "\<lambda>db. mem_token ` set (m_tokens db)" ?hash Some "\<lambda>t h. h = ''salt'' @ t",
        OF mem_tokens.token_store_axioms argon2 r wf l, of ListSubnets 6 "[]" "Inl []"]
    by (simp del: append.simps)
  then obtain h where h: "create_router_with_auth memory_database ra_default (token_verify Some (\<lambda>t h. h = ''salt'' @ t))
      True 6 [] (Inl []) (Some Tcp) (Some (''Bearer '' @ ''secret'')) ListSubnets ?db =
    route memory_database ra_default 6 [] (Inl []) ListSubnets (snd (db_update_token_last_used memory_database 6 h ?db))" ..
  show ?thesis by (intro exI conjI) (rule r [unfolded same], simp only: create_token_response.select_convs h)
qed



text \<open>The same laws hold on SQLite, whatever the order of its rows and the failures of statements.\<close>

lemma sqlite_token_store: "sqlite_backend E \<Longrightarrow> token_store (sqlite_database E) (\<lambda>db. sql_token ` set (q_tokens db))"
  by (rule sqlite_backend.axioms_tokens)

end
