(* ===== verification/Cli_Client.thy ===== *)
theory Cli_Client
  imports Api_Server Ipv6_Text
begin

text \<open>
  The HTTP client of the command line tool (\<open>crates/ndhcp-cli/src/client.rs\<close>). hyper, hyperlocal
  and serde\_json are the parameters of the model: the record \<open>http_stack\<close> says which texts are
  URIs, what a value is as JSON, and how the other side answers a request; the record
  \<open>json_decoders\<close> is \<open>serde_json::from_slice\<close> at the types the tool reads. A body is collected by
  a separate await, which may fail on its own.
\<close>

section \<open>Requests and responses\<close>

datatype http_method = GET | POST | PUT | PATCH | DELETE

datatype uri = UnixUri string string | HttpUri string

record http_request =
  rq_method :: http_method
  rq_uri :: uri
  rq_content_type :: "string option"
  rq_body :: bytes

record http_response =
  rs_status :: nat
  rs_body :: "string + bytes"

text \<open>The JSON bodies of requests; no command of the tool sends the one of a token.\<close>

datatype json_body =
    SubnetJson subnet | RangeJson dynamic_range | StaticIpJson static_ip | PrefixJson ia_prefix
  | HostnameJson "string option" | TokenJson string

record http_stack =
  hs_uri :: "string \<Rightarrow> bool"
  hs_unix :: "string \<Rightarrow> string \<Rightarrow> bool"
  hs_to_vec :: "json_body \<Rightarrow> string + bytes"
  hs_send :: "http_request \<Rightarrow> string + http_response"

record json_decoders =
  de_id :: "bytes \<Rightarrow> string + i64"
  de_unit :: "bytes \<Rightarrow> string + unit"
  de_subnet :: "bytes \<Rightarrow> string + subnet"
  de_subnets :: "bytes \<Rightarrow> string + subnet list"
  de_ranges :: "bytes \<Rightarrow> string + dynamic_range list"
  de_static_ips :: "bytes \<Rightarrow> string + static_ip list"
  de_leases :: "bytes \<Rightarrow> string + lease list"
  de_prefix :: "bytes \<Rightarrow> string + ia_prefix"
  de_prefixes :: "bytes \<Rightarrow> string + ia_prefix list"

text \<open>
  What ends a command: the panic of \<open>build_uri\<close>, an error of the stack, the conflict that the
  commands look for, a status that is not a success with the text of the body, an address that
  does not parse, or a message of the command.
\<close>

datatype cli_error =
    UriPanic
  | StackError string
  | AlreadyExistsError
  | RequestFailed nat string
  | HealthFailed nat string
  | BadAddress
  | Message string

type_synonym 'a cli_result = "cli_error + 'a"

section \<open>The client\<close>

datatype api_client = Unix string | Http string

definition new_unix :: "string \<Rightarrow> api_client" where
  "new_unix socket_path = Unix socket_path"

definition new_http :: "string \<Rightarrow> api_client" where
  "new_http base_url = Http base_url"

text \<open>\<open>hyperlocal::Uri::new\<close> and \<open>parse().unwrap()\<close> panic on a text that is no URI.\<close>

definition build_uri :: "http_stack \<Rightarrow> api_client \<Rightarrow> string \<Rightarrow> uri cli_result" where
  "build_uri S c path =
     (case c of
        Unix socket_path \<Rightarrow> if hs_unix S socket_path path then Inr (UnixUri socket_path path) else Inl UriPanic
      | Http base_url \<Rightarrow> if hs_uri S (base_url @ path) then Inr (HttpUri (base_url @ path)) else Inl UriPanic)"

definition is_success :: "nat \<Rightarrow> bool" where
  "is_success status \<longleftrightarrow> 200 \<le> status \<and> status < 300"

text \<open>A request without a body, and one with a JSON body.\<close>

definition send_empty :: "http_stack \<Rightarrow> api_client \<Rightarrow> http_method \<Rightarrow> string \<Rightarrow> http_response cli_result" where
  "send_empty S c meth path =
     (case build_uri S c path of
        Inl e \<Rightarrow> Inl e
      | Inr uri \<Rightarrow> map_sum StackError id (hs_send S
          \<lparr> rq_method = meth, rq_uri = uri, rq_content_type = None, rq_body = [] \<rparr>))"

definition send_json ::
  "http_stack \<Rightarrow> api_client \<Rightarrow> http_method \<Rightarrow> string \<Rightarrow> json_body \<Rightarrow> http_response cli_result" where
  "send_json S c meth path body =
     (case build_uri S c path of
        Inl e \<Rightarrow> Inl e
      | Inr uri \<Rightarrow>
          (case hs_to_vec S body of
             Inl e \<Rightarrow> Inl (StackError e)
           | Inr body_bytes \<Rightarrow> map_sum StackError id (hs_send S
               \<lparr> rq_method = meth, rq_uri = uri, rq_content_type = Some ''application/json'',
                 rq_body = body_bytes \<rparr>)))"

definition failed :: "(nat \<Rightarrow> string \<Rightarrow> cli_error) \<Rightarrow> http_response \<Rightarrow> 'a cli_result" where
  "failed err r =
     (case rs_body r of
        Inl e \<Rightarrow> Inl (StackError e)
      | Inr body \<Rightarrow> Inl (err (rs_status r) (from_utf8_lossy body)))"

definition client_get ::
  "http_stack \<Rightarrow> api_client \<Rightarrow> (bytes \<Rightarrow> string + 'a) \<Rightarrow> string \<Rightarrow> 'a cli_result" where
  "client_get S c from_slice path =
     (case send_empty S c GET path of
        Inl e \<Rightarrow> Inl e
      | Inr r \<Rightarrow>
          (case rs_body r of
             Inl e \<Rightarrow> Inl (StackError e)
           | Inr body \<Rightarrow>
               if rs_status r \<noteq> 200 then Inl (RequestFailed (rs_status r) (from_utf8_lossy body))
               else map_sum StackError id (from_slice body)))"

text \<open>The bytes of \<open>null\<close> stand for an empty body.\<close>

definition json_or_null :: "bytes \<Rightarrow> bytes" where
  "json_or_null body = (if body = [] then bytes_of ''null'' else body)"

definition client_post ::
  "http_stack \<Rightarrow> api_client \<Rightarrow> (bytes \<Rightarrow> string + 'a) \<Rightarrow> string \<Rightarrow> json_body \<Rightarrow> 'a cli_result" where
  "client_post S c from_slice path body =
     (case send_json S c POST path body of
        Inl e \<Rightarrow> Inl e
      | Inr r \<Rightarrow>
          (case rs_body r of
             Inl e \<Rightarrow> Inl (StackError e)
           | Inr body \<Rightarrow>
               if rs_status r = 409 then Inl AlreadyExistsError
               else if \<not> is_success (rs_status r) then Inl (RequestFailed (rs_status r) (from_utf8_lossy body))
               else map_sum StackError id (from_slice (json_or_null body))))"

definition client_put :: "http_stack \<Rightarrow> api_client \<Rightarrow> string \<Rightarrow> json_body \<Rightarrow> unit cli_result" where
  "client_put S c path body =
     (case send_json S c PUT path body of
        Inl e \<Rightarrow> Inl e
      | Inr r \<Rightarrow> if \<not> is_success (rs_status r) then failed RequestFailed r else Inr ())"

definition client_patch ::
  "http_stack \<Rightarrow> api_client \<Rightarrow> (bytes \<Rightarrow> string + 'a) \<Rightarrow> string \<Rightarrow> json_body \<Rightarrow> 'a cli_result" where
  "client_patch S c from_slice path body =
     (case send_json S c PATCH path body of
        Inl e \<Rightarrow> Inl e
      | Inr r \<Rightarrow>
          (case rs_body r of
             Inl e \<Rightarrow> Inl (StackError e)
           | Inr body \<Rightarrow>
               if \<not> is_success (rs_status r) then Inl (RequestFailed (rs_status r) (from_utf8_lossy body))
               else map_sum StackError id (from_slice (json_or_null body))))"

definition client_delete :: "http_stack \<Rightarrow> api_client \<Rightarrow> string \<Rightarrow> unit cli_result" where
  "client_delete S c path =
     (case send_empty S c DELETE path of
        Inl e \<Rightarrow> Inl e
      | Inr r \<Rightarrow> if \<not> is_success (rs_status r) then failed RequestFailed r else Inr ())"

definition client_health :: "http_stack \<Rightarrow> api_client \<Rightarrow> string cli_result" where
  "client_health S c =
     (case send_empty S c GET ''/health'' of
        Inl e \<Rightarrow> Inl e
      | Inr r \<Rightarrow>
          if rs_status r \<noteq> 200 then failed HealthFailed r
          else (case rs_body r of
             Inl e \<Rightarrow> Inl (StackError e)
           | Inr body \<Rightarrow> Inr (from_utf8_lossy body)))"

section \<open>The routes as request lines\<close>

text \<open>
  The table of \<open>create_router_with_auth\<close>, with the values of a request in the place of the
  captures and of the query that its handler extracts.
\<close>

fun request_line :: "api_request \<Rightarrow> http_method \<times> string" where
  "request_line ListSubnets = (GET, ''/api/subnets'')"
| "request_line (PostSubnet _) = (POST, ''/api/subnets'')"
| "request_line (GetSubnet i) = (GET, ''/api/subnets/'' @ dec_int i)"
| "request_line (PutSubnet i _) = (PUT, ''/api/subnets/'' @ dec_int i)"
| "request_line (DelSubnet i) = (DELETE, ''/api/subnets/'' @ dec_int i)"
| "request_line (ListRanges None) = (GET, ''/api/ranges'')"
| "request_line (ListRanges (Some i)) = (GET, ''/api/ranges?subnet_id='' @ dec_int i)"
| "request_line (PostRange _) = (POST, ''/api/ranges'')"
| "request_line (DelRange i) = (DELETE, ''/api/ranges/'' @ dec_int i)"
| "request_line (ListStaticIps None) = (GET, ''/api/static-ips'')"
| "request_line (ListStaticIps (Some i)) = (GET, ''/api/static-ips?subnet_id='' @ dec_int i)"
| "request_line (PostStaticIp _) = (POST, ''/api/static-ips'')"
| "request_line (DelStaticIp ip) = (DELETE, ''/api/static-ips/'' @ ip)"
| "request_line (PatchHostname ip _) = (PATCH, ''/api/static-ips/'' @ ip @ ''/hostname'')"
| "request_line ListLeases = (GET, ''/api/leases'')"
| "request_line ListTokens = (GET, ''/api/tokens'')"
| "request_line (PostToken _) = (POST, ''/api/tokens'')"
| "request_line (DelToken i) = (DELETE, ''/api/tokens/'' @ dec_int i)"
| "request_line (PatchToggle i) = (PATCH, ''/api/tokens/'' @ dec_int i @ ''/toggle'')"
| "request_line (ListPrefixes None) = (GET, ''/api/ia-prefixes'')"
| "request_line (ListPrefixes (Some iface)) = (GET, ''/api/ia-prefixes?interface='' @ iface)"
| "request_line (PostPrefix _) = (POST, ''/api/ia-prefixes'')"
| "request_line (GetPrefix i) = (GET, ''/api/ia-prefixes/'' @ dec_int i)"
| "request_line (PutPrefix i _) = (PUT, ''/api/ia-prefixes/'' @ dec_int i)"
| "request_line (DelPrefix i) = (DELETE, ''/api/ia-prefixes/'' @ dec_int i)"
| "request_line Health = (GET, ''/health'')"

text \<open>The JSON body that the handler of a request extracts.\<close>

fun request_json :: "api_request \<Rightarrow> json_body option" where
  "request_json (PostSubnet s) = Some (SubnetJson s)"
| "request_json (PutSubnet _ s) = Some (SubnetJson s)"
| "request_json (PostRange r) = Some (RangeJson r)"
| "request_json (PostStaticIp st) = Some (StaticIpJson st)"
| "request_json (PatchHostname _ h) = Some (HostnameJson h)"
| "request_json (PostToken name) = Some (TokenJson name)"
| "request_json (PostPrefix p) = Some (PrefixJson p)"
| "request_json (PutPrefix _ p) = Some (PrefixJson p)"
| "request_json _ = None"

text \<open>The exchange of one request.\<close>

definition exchange :: "http_stack \<Rightarrow> api_client \<Rightarrow> api_request \<Rightarrow> http_response cli_result" where
  "exchange S c r =
     (case request_json r of
        None \<Rightarrow> send_empty S c (fst (request_line r)) (snd (request_line r))
      | Some body \<Rightarrow> send_json S c (fst (request_line r)) (snd (request_line r)) body)"

end
