(* ===== verification/Cli_Commands.thy ===== *)
theory Cli_Commands
  imports Cli_Client
begin

text \<open>
  The commands of the tool (\<open>crates/ndhcp-cli/src/main.rs\<close> and \<open>commands\<close>). clap's result is a
  value of \<open>command\<close>. A command ends with an error or with the lines it printed; no command prints
  before its only request has been answered. chrono's formatting of a time stamp is the argument
  \<open>fmt_time\<close>.
\<close>

section \<open>Arguments\<close>

datatype subnet_command =
    SubnetList
  | SubnetCreate string u8 string string "string option"
  | SubnetGet i64
  | SubnetDelete i64

datatype range_command = RangeList "i64 option" | RangeCreate i64 string string | RangeDelete i64

datatype static_command =
    StaticList "i64 option"
  | StaticCreate i64 string string "string option"
  | StaticDelete string
  | StaticSetHostname string "string option"

datatype ip6_command =
    Ip6List "string option"
  | Ip6Create string string u8 "u32 option" "u32 option" "string option" "u32 option"
  | Ip6Get i64
  | Ip6Delete i64

datatype command =
    CmdSubnet subnet_command | CmdRange range_command | CmdStatic static_command
  | CmdIp6Subnet ip6_command | CmdLeases | CmdHealth

section \<open>Formatting\<close>

text \<open>The format \<open>{:<n}\<close>: padded to \<open>n\<close> characters on the right.\<close>

definition char_count :: "string \<Rightarrow> nat" where
  "char_count s = length (filter (\<lambda>b. \<not> is_cont b) (bytes_of s))"

definition pad :: "nat \<Rightarrow> string \<Rightarrow> string" where
  "pad n s = s @ replicate (n - char_count s) CHR '' ''"

text \<open>\<open>id.unwrap_or(0)\<close> and \<open>as_deref().unwrap_or("-")\<close>.\<close>

definition show_id :: "i64 option \<Rightarrow> string" where
  "show_id i = dec_int (case i of None \<Rightarrow> 0 | Some x \<Rightarrow> x)"

definition or_dash :: "string option \<Rightarrow> string" where
  "or_dash s = (case s of None \<Rightarrow> ''-'' | Some t \<Rightarrow> t)"

definition rule_line :: "nat \<Rightarrow> string" where
  "rule_line n = replicate n CHR ''-''"

definition show_bool :: "bool \<Rightarrow> string" where
  "show_bool b = (if b then ''true'' else ''false'')"

text \<open>A row of a table: the padded cells, separated by single spaces.\<close>

definition table_row :: "(nat \<times> string) list \<Rightarrow> string" where
  "table_row cells = join '' '' (map (\<lambda>(n, s). pad n s) cells)"

definition fmt_u8 :: "u8 \<Rightarrow> string" where
  "fmt_u8 w = dec_nat (unat w)"

definition fmt_u32 :: "u32 \<Rightarrow> string" where
  "fmt_u32 w = dec_nat (unat w)"

text \<open>\<open>?\<close> on a parsed address.\<close>

definition or_bad :: "'a option \<Rightarrow> 'a cli_result" where
  "or_bad x = (case x of None \<Rightarrow> Inl BadAddress | Some y \<Rightarrow> Inr y)"

text \<open>The conflict of \<open>post\<close>, replaced by a message.\<close>

definition conflict_message :: "string \<Rightarrow> 'a cli_result \<Rightarrow> 'a cli_result" where
  "conflict_message msg r = (case r of Inl AlreadyExistsError \<Rightarrow> Inl (Message msg) | _ \<Rightarrow> r)"

section \<open>Subnets\<close>

definition subnet_list :: "http_stack \<Rightarrow> json_decoders \<Rightarrow> api_client \<Rightarrow> string list cli_result" where
  "subnet_list S J c =
     map_sum id (\<lambda>subnets.
       if subnets = [] then [''No subnets configured'']
       else [table_row [(5, ''ID''), (18, ''Network''), (6, ''Mask''), (15, ''Gateway''),
               (30, ''DNS Servers''), (20, ''Domain'')], rule_line 96] @
         map (\<lambda>s. table_row [(5, show_id (s_id s)), (18, ipv4_to_string (s_network s)),
               (0, CHR ''/'' # pad 5 (fmt_u8 (s_netmask s))), (15, ipv4_to_string (s_gateway s)),
               (30, join '','' (map ipv4_to_string (s_dns_servers s))), (20, or_dash (s_domain_name s))]) subnets)
       (client_get S c (de_subnets J) ''/api/subnets'')"

definition subnet_of_args ::
  "string \<Rightarrow> u8 \<Rightarrow> string \<Rightarrow> string \<Rightarrow> string option \<Rightarrow> subnet cli_result" where
  "subnet_of_args network netmask gateway dns_servers domain_name =
     or_bad (do { network_ip \<leftarrow> ipv4_parse network;
                  gateway_ip \<leftarrow> ipv4_parse gateway;
                  dns_ips \<leftarrow> those (map (\<lambda>s. ipv4_parse (trim s)) (split_on CHR '','' dns_servers));
                  Some \<lparr> s_id = None, s_network = network_ip, s_netmask = netmask,
                    s_gateway = gateway_ip, s_dns_servers = dns_ips, s_domain_name = domain_name \<rparr> })"

definition subnet_create ::
  "http_stack \<Rightarrow> json_decoders \<Rightarrow> api_client \<Rightarrow> string \<Rightarrow> u8 \<Rightarrow> string \<Rightarrow> string \<Rightarrow> string option \<Rightarrow>
   string list cli_result" where
  "subnet_create S J c network netmask gateway dns_servers domain_name =
     (case subnet_of_args network netmask gateway dns_servers domain_name of
        Inl e \<Rightarrow> Inl e
      | Inr subnet \<Rightarrow>
          map_sum id (\<lambda>i. [''Created subnet with ID: '' @ dec_int i])
            (conflict_message (''Subnet '' @ ipv4_to_string (s_network subnet) @ ''/'' @ fmt_u8 netmask @ '' already exists'')
              (client_post S c (de_id J) ''/api/subnets'' (SubnetJson subnet))))"

definition subnet_get :: "http_stack \<Rightarrow> json_decoders \<Rightarrow> api_client \<Rightarrow> i64 \<Rightarrow> string list cli_result" where
  "subnet_get S J c i =
     map_sum id (\<lambda>s.
       [''Subnet ID: '' @ show_id (s_id s),
        ''Network: '' @ ipv4_to_string (s_network s) @ ''/'' @ fmt_u8 (s_netmask s),
        ''Gateway: '' @ ipv4_to_string (s_gateway s),
        ''DNS Servers: '' @ join '', '' (map ipv4_to_string (s_dns_servers s))] @
       (case s_domain_name s of None \<Rightarrow> [] | Some domain \<Rightarrow> [''Domain: '' @ domain]))
       (client_get S c (de_subnet J) (''/api/subnets/'' @ dec_int i))"

definition subnet_delete :: "http_stack \<Rightarrow> api_client \<Rightarrow> i64 \<Rightarrow> string list cli_result" where
  "subnet_delete S c i =
     map_sum id (\<lambda>_. [''Deleted subnet '' @ dec_int i]) (client_delete S c (''/api/subnets/'' @ dec_int i))"

fun subnet_handle :: "http_stack \<Rightarrow> json_decoders \<Rightarrow> api_client \<Rightarrow> subnet_command \<Rightarrow> string list cli_result" where
  "subnet_handle S J c SubnetList = subnet_list S J c"
| "subnet_handle S J c (SubnetCreate network netmask gateway dns_servers domain_name) =
     subnet_create S J c network netmask gateway dns_servers domain_name"
| "subnet_handle S J c (SubnetGet i) = subnet_get S J c i"
| "subnet_handle S J c (SubnetDelete i) = subnet_delete S c i"

section \<open>Dynamic ranges\<close>

definition range_list :: "http_stack \<Rightarrow> json_decoders \<Rightarrow> api_client \<Rightarrow> i64 option \<Rightarrow> string list cli_result" where
  "range_list S J c subnet_id =
     map_sum id (\<lambda>ranges.
       if ranges = [] then [''No dynamic ranges configured'']
       else [table_row [(5, ''ID''), (12, ''Subnet ID''), (18, ''Start''), (18, ''End''), (8, ''Enabled'')], rule_line 70] @
         map (\<lambda>r. table_row [(5, show_id (r_id r)), (12, dec_int (r_subnet_id r)),
               (18, ipv4_to_string (r_range_start r)), (18, ipv4_to_string (r_range_end r)),
               (8, show_bool (r_enabled r))]) ranges)
       (client_get S c (de_ranges J)
         (case subnet_id of Some sid \<Rightarrow> ''/api/ranges?subnet_id='' @ dec_int sid | None \<Rightarrow> ''/api/ranges''))"

definition range_of_args :: "i64 \<Rightarrow> string \<Rightarrow> string \<Rightarrow> dynamic_range cli_result" where
  "range_of_args subnet_id start stop =
     or_bad (do { start_ip \<leftarrow> ipv4_parse start;
                  end_ip \<leftarrow> ipv4_parse stop;
                  Some \<lparr> r_id = None, r_subnet_id = subnet_id, r_range_start = start_ip,
                    r_range_end = end_ip, r_enabled = True \<rparr> })"

definition range_create ::
  "http_stack \<Rightarrow> json_decoders \<Rightarrow> api_client \<Rightarrow> i64 \<Rightarrow> string \<Rightarrow> string \<Rightarrow> string list cli_result" where
  "range_create S J c subnet_id start stop =
     (case range_of_args subnet_id start stop of
        Inl e \<Rightarrow> Inl e
      | Inr rg \<Rightarrow>
          map_sum id (\<lambda>i. [''Created dynamic range with ID: '' @ dec_int i])
            (conflict_message (''Dynamic range '' @ ipv4_to_string (r_range_start rg) @ ''-'' @
                ipv4_to_string (r_range_end rg) @ '' already exists'')
              (client_post S c (de_id J) ''/api/ranges'' (RangeJson rg))))"

definition range_delete :: "http_stack \<Rightarrow> api_client \<Rightarrow> i64 \<Rightarrow> string list cli_result" where
  "range_delete S c i =
     map_sum id (\<lambda>_. [''Deleted range '' @ dec_int i]) (client_delete S c (''/api/ranges/'' @ dec_int i))"

fun range_handle :: "http_stack \<Rightarrow> json_decoders \<Rightarrow> api_client \<Rightarrow> range_command \<Rightarrow> string list cli_result" where
  "range_handle S J c (RangeList subnet_id) = range_list S J c subnet_id"
| "range_handle S J c (RangeCreate subnet_id start stop) = range_create S J c subnet_id start stop"
| "range_handle S J c (RangeDelete i) = range_delete S c i"

section \<open>Static assignments\<close>

definition static_list :: "http_stack \<Rightarrow> json_decoders \<Rightarrow> api_client \<Rightarrow> i64 option \<Rightarrow> string list cli_result" where
  "static_list S J c subnet_id =
     map_sum id (\<lambda>static_ips.
       if static_ips = [] then [''No static IPs configured'']
       else [table_row [(18, ''IP Address''), (20, ''MAC Address''), (12, ''Subnet ID''), (20, ''Hostname'')], rule_line 74] @
         map (\<lambda>st. table_row [(18, ipv4_to_string (st_ip_address st)), (20, st_mac_address st),
               (12, dec_int (st_subnet_id st)), (20, or_dash (st_hostname st))]) static_ips)
       (client_get S c (de_static_ips J)
         (case subnet_id of Some sid \<Rightarrow> ''/api/static-ips?subnet_id='' @ dec_int sid | None \<Rightarrow> ''/api/static-ips''))"

definition static_of_args :: "i64 \<Rightarrow> string \<Rightarrow> string \<Rightarrow> string option \<Rightarrow> static_ip cli_result" where
  "static_of_args subnet_id mac ip hostname =
     map_sum id (\<lambda>ip_addr. \<lparr> st_subnet_id = subnet_id, st_mac_address = mac, st_ip_address = ip_addr,
       st_hostname = hostname \<rparr>) (or_bad (ipv4_parse ip))"

definition static_create ::
  "http_stack \<Rightarrow> json_decoders \<Rightarrow> api_client \<Rightarrow> i64 \<Rightarrow> string \<Rightarrow> string \<Rightarrow> string option \<Rightarrow> string list cli_result" where
  "static_create S J c subnet_id mac ip hostname =
     (case static_of_args subnet_id mac ip hostname of
        Inl e \<Rightarrow> Inl e
      | Inr st \<Rightarrow>
          map_sum id (\<lambda>_. [''Created static IP '' @ ipv4_to_string (st_ip_address st)])
            (conflict_message (''Static IP already exists (MAC '' @ st_mac_address st @ '' or IP '' @
                ipv4_to_string (st_ip_address st) @ '' already assigned)'')
              (client_post S c (de_unit J) ''/api/static-ips'' (StaticIpJson st))))"

definition static_delete :: "http_stack \<Rightarrow> api_client \<Rightarrow> string \<Rightarrow> string list cli_result" where
  "static_delete S c ip =
     map_sum id (\<lambda>_. [''Deleted static IP '' @ ip]) (client_delete S c (''/api/static-ips/'' @ ip))"

definition set_hostname ::
  "http_stack \<Rightarrow> json_decoders \<Rightarrow> api_client \<Rightarrow> string \<Rightarrow> string option \<Rightarrow> string list cli_result" where
  "set_hostname S J c ip hostname =
     map_sum id (\<lambda>_.
       case hostname of
         Some h \<Rightarrow> [''Updated hostname for '' @ ip @ '' to '' @ [char_of (39 :: nat)] @ h @ [char_of (39 :: nat)]]
       | None \<Rightarrow> [''Cleared hostname for '' @ ip])
       (client_patch S c (de_unit J) (''/api/static-ips/'' @ ip @ ''/hostname'') (HostnameJson hostname))"

fun static_handle :: "http_stack \<Rightarrow> json_decoders \<Rightarrow> api_client \<Rightarrow> static_command \<Rightarrow> string list cli_result" where
  "static_handle S J c (StaticList subnet_id) = static_list S J c subnet_id"
| "static_handle S J c (StaticCreate subnet_id mac ip hostname) = static_create S J c subnet_id mac ip hostname"
| "static_handle S J c (StaticDelete ip) = static_delete S c ip"
| "static_handle S J c (StaticSetHostname ip hostname) = set_hostname S J c ip hostname"

section \<open>IPv6 prefixes\<close>

definition ip6_list :: "http_stack \<Rightarrow> json_decoders \<Rightarrow> api_client \<Rightarrow> string option \<Rightarrow> string list cli_result" where
  "ip6_list S J c iface =
     map_sum id (\<lambda>prefixes.
       if prefixes = [] then [''No IPv6 subnets configured'']
       else [table_row [(5, ''ID''), (10, ''Interface''), (40, ''Prefix''), (6, ''Len''), (12, ''Pref.Life''),
               (12, ''Valid.Life''), (40, ''DNS Servers'')], rule_line 126] @
         map (\<lambda>p. table_row [(5, show_id (p_id p)), (10, p_interface p), (40, ipv6_to_string (p_prefix p)),
               (0, CHR ''/'' # pad 5 (fmt_u8 (p_prefix_len p))), (12, fmt_u32 (p_preferred_lifetime p)),
               (12, fmt_u32 (p_valid_lifetime p)),
               (40, if p_dns_servers p = [] then ''-'' else join '','' (map ipv6_to_string (p_dns_servers p)))]) prefixes)
       (client_get S c (de_prefixes J)
         (case iface of Some i \<Rightarrow> ''/api/ia-prefixes?interface='' @ i | None \<Rightarrow> ''/api/ia-prefixes''))"

definition or_zero :: "u32 option \<Rightarrow> u32" where
  "or_zero x = (case x of None \<Rightarrow> 0 | Some y \<Rightarrow> y)"

definition prefix_of_args ::
  "string \<Rightarrow> string \<Rightarrow> u8 \<Rightarrow> u32 option \<Rightarrow> u32 option \<Rightarrow> string option \<Rightarrow> u32 option \<Rightarrow> ia_prefix cli_result" where
  "prefix_of_args iface pfx prefix_len preferred_lifetime valid_lifetime dns_servers dns_lifetime =
     or_bad (do { prefix_addr \<leftarrow> ipv6_parse pfx;
                  dns \<leftarrow> those (map (\<lambda>s. ipv6_parse (trim s))
                    (filter (\<lambda>s. trim s \<noteq> []) (split_on CHR '',''
                      (case dns_servers of None \<Rightarrow> [] | Some s \<Rightarrow> s))));
                  Some \<lparr> p_id = None, p_interface = iface, p_prefix = prefix_addr, p_prefix_len = prefix_len,
                    p_preferred_lifetime = or_zero preferred_lifetime, p_valid_lifetime = or_zero valid_lifetime,
                    p_dns_servers = dns, p_dns_lifetime = or_zero dns_lifetime \<rparr> })"

definition ip6_create ::
  "http_stack \<Rightarrow> json_decoders \<Rightarrow> api_client \<Rightarrow> string \<Rightarrow> string \<Rightarrow> u8 \<Rightarrow> u32 option \<Rightarrow> u32 option \<Rightarrow>
   string option \<Rightarrow> u32 option \<Rightarrow> string list cli_result" where
  "ip6_create S J c iface pfx prefix_len preferred_lifetime valid_lifetime dns_servers dns_lifetime =
     (case prefix_of_args iface pfx prefix_len preferred_lifetime valid_lifetime dns_servers dns_lifetime of
        Inl e \<Rightarrow> Inl e
      | Inr p \<Rightarrow>
          map_sum id (\<lambda>i. [''Created IPv6 subnet with ID: '' @ dec_int i])
            (client_post S c (de_id J) ''/api/ia-prefixes'' (PrefixJson p)))"

definition ip6_get :: "http_stack \<Rightarrow> json_decoders \<Rightarrow> api_client \<Rightarrow> i64 \<Rightarrow> string list cli_result" where
  "ip6_get S J c i =
     map_sum id (\<lambda>p.
       [''ID:                  '' @ show_id (p_id p),
        ''Interface:           '' @ p_interface p,
        ''Prefix:              '' @ ipv6_to_string (p_prefix p) @ ''/'' @ fmt_u8 (p_prefix_len p),
        ''Preferred lifetime:  '' @ fmt_u32 (p_preferred_lifetime p) @ ''s'',
        ''Valid lifetime:      '' @ fmt_u32 (p_valid_lifetime p) @ ''s''] @
       (if p_dns_servers p = [] then []
        else [''DNS servers:         '' @ join '', '' (map ipv6_to_string (p_dns_servers p)),
              ''DNS lifetime:        '' @ fmt_u32 (p_dns_lifetime p) @ ''s'']))
       (client_get S c (de_prefix J) (''/api/ia-prefixes/'' @ dec_int i))"

definition ip6_delete :: "http_stack \<Rightarrow> api_client \<Rightarrow> i64 \<Rightarrow> string list cli_result" where
  "ip6_delete S c i =
     map_sum id (\<lambda>_. [''Deleted IPv6 subnet '' @ dec_int i]) (client_delete S c (''/api/ia-prefixes/'' @ dec_int i))"

fun ip6_handle :: "http_stack \<Rightarrow> json_decoders \<Rightarrow> api_client \<Rightarrow> ip6_command \<Rightarrow> string list cli_result" where
  "ip6_handle S J c (Ip6List iface) = ip6_list S J c iface"
| "ip6_handle S J c (Ip6Create iface pfx prefix_len preferred_lifetime valid_lifetime dns_servers dns_lifetime) =
     ip6_create S J c iface pfx prefix_len preferred_lifetime valid_lifetime dns_servers dns_lifetime"
| "ip6_handle S J c (Ip6Get i) = ip6_get S J c i"
| "ip6_handle S J c (Ip6Delete i) = ip6_delete S c i"

section \<open>Leases and the entry point\<close>

definition lease_list ::
  "http_stack \<Rightarrow> json_decoders \<Rightarrow> (i64 \<Rightarrow> string option) \<Rightarrow> api_client \<Rightarrow> string list cli_result" where
  "lease_list S J fmt_time c =
     map_sum id (\<lambda>leases.
       if leases = [] then [''No active leases'']
       else [table_row [(5, ''ID''), (12, ''Subnet ID''), (20, ''MAC Address''), (18, ''IP Address''),
               (20, ''Hostname''), (20, ''Start''), (20, ''End'')], rule_line 120] @
         map (\<lambda>l. table_row [(5, show_id (l_id l)), (12, dec_int (l_subnet_id l)), (20, l_mac_address l),
               (18, ipv4_to_string (l_ip_address l)), (20, or_dash (l_hostname l)),
               (20, or_dash (fmt_time (l_lease_start l))), (20, or_dash (fmt_time (l_lease_end l)))]) leases)
       (client_get S c (de_leases J) ''/api/leases'')"

definition default_socket :: string where
  "default_socket = ''/var/run/ndhcpd.sock''"

definition cli_client :: "string option \<Rightarrow> api_client" where
  "cli_client api_url =
     (case api_url of
        Some url \<Rightarrow> if prefix ''http://'' url \<or> prefix ''https://'' url then new_http url else new_unix url
      | None \<Rightarrow> new_unix default_socket)"

definition cli_main ::
  "http_stack \<Rightarrow> json_decoders \<Rightarrow> (i64 \<Rightarrow> string option) \<Rightarrow> string option \<Rightarrow> command \<Rightarrow> string list cli_result" where
  "cli_main S J fmt_time api_url cmd =
     (let client = cli_client api_url in
      case cmd of
        CmdSubnet action \<Rightarrow> subnet_handle S J client action
      | CmdRange action \<Rightarrow> range_handle S J client action
      | CmdStatic action \<Rightarrow> static_handle S J client action
      | CmdIp6Subnet action \<Rightarrow> ip6_handle S J client action
      | CmdLeases \<Rightarrow> lease_list S J fmt_time client
      | CmdHealth \<Rightarrow> map_sum id (\<lambda>result. [result]) (client_health S client))"

end
