(* ===== verification/Sqlite_Refinement.thy ===== *)
theory Sqlite_Refinement
  imports Sqlite_Store
begin

text \<open>
  The SQLite tables as an implementation of an abstract store. \<open>sql_abs\<close> reads the stored rows
  back into the values of \<open>models.rs\<close>, in the vectors of the in-memory database; \<open>schema_apply\<close>
  is the abstract specification of a writing method: what the in-memory database does, refused
  when a constraint of the schema forbids it, and with the cascade of a deleted subnet. Every
  statement that writes implements it, and every reading method returns what the in-memory
  database returns, up to the order of rows.
\<close>

section \<open>Abstraction and specification\<close>

definition sql_abs :: "sqlite_db \<Rightarrow> memory_db" where
  "sql_abs db = \<lparr> m_subnets = map row_to_subnet (q_subnets db), m_ranges = map row_to_range (q_ranges db),
     m_static_ips = map row_to_static (q_static_ips db), m_leases = map row_to_lease (q_leases db),
     m_ia_prefixes = map row_to_prefix (q_ia_prefixes db),
     m_tokens = map (\<lambda>r. (tr_id r, tr_name r, tr_token_hash r, tr_enabled r)) (q_tokens db),
     next_subnet_id = seq_subnets db + 1, next_range_id = seq_ranges db + 1,
     next_lease_id = seq_leases db + 1, next_ia_prefix_id = seq_ia_prefixes db + 1,
     next_token_id = seq_tokens db + 1 \<rparr>"

definition subnet_cidr :: "subnet \<Rightarrow> ipv4 \<times> u8" where
  "subnet_cidr s = (s_network s, s_netmask s)"

text \<open>The constraints of the schema, on the values.\<close>

fun accepts :: "memory_db \<Rightarrow> admin_op \<Rightarrow> bool" where
  "accepts m (CreateSubnet s) \<longleftrightarrow> subnet_cidr s \<notin> subnet_cidr ` set (m_subnets m)"
| "accepts m (UpdateSubnet i s) \<longleftrightarrow> Some i \<notin> s_id ` set (m_subnets m) \<or>
     subnet_cidr s \<notin> subnet_cidr ` set (filter (\<lambda>x. s_id x \<noteq> Some i) (m_subnets m))"
| "accepts m (CreateRange rg) \<longleftrightarrow> Some (r_subnet_id rg) \<in> s_id ` set (m_subnets m)"
| "accepts m (CreateStaticIp st) \<longleftrightarrow> st_ip_address st \<notin> st_ip_address ` set (m_static_ips m) \<and>
     st_mac_address st \<notin> st_mac_address ` set (m_static_ips m) \<and>
     Some (st_subnet_id st) \<in> s_id ` set (m_subnets m)"
| "accepts m (CreateToken now name h salt) \<longleftrightarrow> name \<notin> (\<lambda>(_, name, _, _). name) ` set (m_tokens m)"
| "accepts m _ \<longleftrightarrow> True"

definition drop_subnet_rows :: "i64 \<Rightarrow> memory_db \<Rightarrow> memory_db" where
  "drop_subnet_rows i m = m\<lparr>
     m_ranges := filter (\<lambda>r. r_subnet_id r \<noteq> i) (m_ranges m),
     m_static_ips := filter (\<lambda>s. st_subnet_id s \<noteq> i) (m_static_ips m),
     m_leases := filter (\<lambda>l. l_subnet_id l \<noteq> i) (m_leases m) \<rparr>"

definition schema_apply :: "admin_op \<Rightarrow> memory_db \<Rightarrow> memory_db" where
  "schema_apply x m =
     (if \<not> accepts m x then m
      else (case x of DeleteSubnet i \<Rightarrow> drop_subnet_rows i (admin_apply memory_database x m)
            | _ \<Rightarrow> admin_apply memory_database x m))"

text \<open>The error of a writing method.\<close>

fun admin_error :: "'db database \<Rightarrow> admin_op \<Rightarrow> 'db \<Rightarrow> db_error option" where
  "admin_error D (CreateSubnet s) db = case_sum Some (\<lambda>_. None) (fst (db_create_subnet D s db))"
| "admin_error D (UpdateSubnet i s) db = case_sum Some (\<lambda>_. None) (fst (db_update_subnet D i s db))"
| "admin_error D (DeleteSubnet i) db = case_sum Some (\<lambda>_. None) (fst (db_delete_subnet D i db))"
| "admin_error D (CreateRange r) db = case_sum Some (\<lambda>_. None) (fst (db_create_range D r db))"
| "admin_error D (DeleteRange i) db = case_sum Some (\<lambda>_. None) (fst (db_delete_range D i db))"
| "admin_error D (CreateStaticIp st) db = case_sum Some (\<lambda>_. None) (fst (db_create_static_ip D st db))"
| "admin_error D (UpdateStaticIpHostname ip h) db =
     case_sum Some (\<lambda>_. None) (fst (db_update_static_ip_hostname D ip h db))"
| "admin_error D (DeleteStaticIp ip) db = case_sum Some (\<lambda>_. None) (fst (db_delete_static_ip D ip db))"
| "admin_error D (CreateIaPrefix p) db = case_sum Some (\<lambda>_. None) (fst (db_create_ia_prefix D p db))"
| "admin_error D (UpdateIaPrefix i p) db = case_sum Some (\<lambda>_. None) (fst (db_update_ia_prefix D i p db))"
| "admin_error D (DeleteIaPrefix i) db = case_sum Some (\<lambda>_. None) (fst (db_delete_ia_prefix D i db))"
| "admin_error D (CreateToken now n h s) db = case_sum Some (\<lambda>_. None) (fst (db_create_token D now n h s db))"
| "admin_error D (DeleteToken i) db = case_sum Some (\<lambda>_. None) (fst (db_delete_token D i db))"
| "admin_error D (ToggleToken i e) db = case_sum Some (\<lambda>_. None) (fst (db_toggle_token D i e db))"
| "admin_error D (UpdateTokenLastUsed now h) db =
     case_sum Some (\<lambda>_. None) (fst (db_update_token_last_used D now h db))"

text \<open>The same rows in some order.\<close>

definition same_rows :: "db_error + 'a list \<Rightarrow> db_error + 'a list \<Rightarrow> bool" where
  "same_rows x y \<longleftrightarrow> rel_sum (=) (\<lambda>xs ys. mset xs = mset ys) x y"

section \<open>Keys of stored rows are keys of values\<close>

lemma sql_abs_simps [simp]:
  "m_subnets (sql_abs db) = map row_to_subnet (q_subnets db)"
  "m_ranges (sql_abs db) = map row_to_range (q_ranges db)"
  "m_static_ips (sql_abs db) = map row_to_static (q_static_ips db)"
  "m_leases (sql_abs db) = map row_to_lease (q_leases db)"
  "m_ia_prefixes (sql_abs db) = map row_to_prefix (q_ia_prefixes db)"
  "m_tokens (sql_abs db) = map (\<lambda>r. (tr_id r, tr_name r, tr_token_hash r, tr_enabled r)) (q_tokens db)"
  "next_subnet_id (sql_abs db) = seq_subnets db + 1" "next_range_id (sql_abs db) = seq_ranges db + 1"
  "next_lease_id (sql_abs db) = seq_leases db + 1" "next_ia_prefix_id (sql_abs db) = seq_ia_prefixes db + 1"
  "next_token_id (sql_abs db) = seq_tokens db + 1"
  by (simp_all add: sql_abs_def)

lemma subnet_key_to_row: "subnet_key (subnet_to_row i s) = (ipv4_to_string (s_network s), uint (s_netmask s))"
  by (simp add: subnet_key_def subnet_to_row_def)

lemma stored_subnet_key:
  assumes "subnet_to_row (sr_id r) (row_to_subnet r) = r"
  shows "subnet_key r = subnet_key (subnet_to_row i s) \<longleftrightarrow> subnet_cidr (row_to_subnet r) = subnet_cidr s"
proof -
  have "subnet_key r = subnet_key (subnet_to_row (sr_id r) (row_to_subnet r))" using assms by simp
  then show ?thesis by (auto simp: subnet_key_to_row subnet_cidr_def ipv4_to_string_inj word_uint_eq_iff)
qed

lemma sql_inv_typed: "sql_inv n db \<Longrightarrow> sql_typed db"
  by (simp add: sql_inv_def)

lemma subnet_key_conflict:
  assumes "sql_typed db"
  shows "subnet_key (subnet_to_row i s) \<in> subnet_key ` set (filter p (q_subnets db)) \<longleftrightarrow>
    subnet_cidr s \<in> subnet_cidr ` row_to_subnet ` set (filter p (q_subnets db))"
  using assms stored_subnet_key [of _ i s] unfolding sql_typed_def
  by (auto simp: image_iff eq_commute [of "subnet_key (subnet_to_row i s)"] eq_commute [of "subnet_cidr s"])

lemma stored_static_ip:
  "static_to_row (row_to_static r) = r \<Longrightarrow> ipv4_to_string (st_ip_address (row_to_static r)) = xr_ip_address r"
  by (metis row_fields(8))

lemma static_ip_conflict:
  assumes "sql_typed db"
  shows "ipv4_to_string ip \<in> xr_ip_address ` set (q_static_ips db) \<longleftrightarrow>
    ip \<in> st_ip_address ` row_to_static ` set (q_static_ips db)"
  using assms stored_static_ip unfolding sql_typed_def
  by (auto simp: image_iff) (metis ipv4_to_string_inj)+

lemma has_subnet_abs: "has_subnet i db \<longleftrightarrow> Some i \<in> s_id ` set (m_subnets (sql_abs db))"
  by (auto simp: has_subnet_def image_iff)

text \<open>An update of the rows with one identifier is an update of the first value with it.\<close>

lemma map_update_row:
  assumes "distinct (map ident rs)" and "\<And>r. r \<in> set rs \<Longrightarrow> p (val r) \<longleftrightarrow> ident r = i"
    and "\<And>r. r \<in> set rs \<Longrightarrow> ident r = i \<Longrightarrow> val (g r) = h (val r)"
  shows "map val (map (\<lambda>r. if ident r = i then g r else r) rs) = update_first p h (map val rs)"
  using assms
proof (induction rs)
  case (Cons r rs)
  show ?case
  proof (cases "ident r = i")
    case True
    then have "map (\<lambda>r. if ident r = i then g r else r) rs = rs"
      using Cons.prems(1) by (intro map_idI) (auto simp: image_iff)
    with True Cons.prems(2,3) show ?thesis by simp
  next
    case False
    with Cons show ?thesis by simp
  qed
qed simp

section \<open>The writing methods\<close>

lemma sql_ids_room:
  assumes "sql_inv (Suc n) db"
  shows "new_rowid (seq_subnets db) = Some (seq_subnets db + 1)" "new_rowid (seq_ranges db) = Some (seq_ranges db + 1)"
    "new_rowid (seq_leases db) = Some (seq_leases db + 1)"
    "new_rowid (seq_ia_prefixes db) = Some (seq_ia_prefixes db + 1)"
    "new_rowid (seq_tokens db) = Some (seq_tokens db + 1)"
    "i64_add (seq_subnets db + 1) 1 = seq_subnets db + 1 + 1" "i64_add (seq_ranges db + 1) 1 = seq_ranges db + 1 + 1"
    "i64_add (seq_leases db + 1) 1 = seq_leases db + 1 + 1"
    "i64_add (seq_ia_prefixes db + 1) 1 = seq_ia_prefixes db + 1 + 1"
    "i64_add (seq_tokens db + 1) 1 = seq_tokens db + 1 + 1"
  using assms unfolding sql_inv_def sql_ids_def by (blast intro: table_ok_room table_ok_next)+

lemma sql_ids_distinct:
  assumes "sql_inv n db"
  shows "distinct (map sr_id (q_subnets db))" "distinct (map pr_id (q_ia_prefixes db))"
    "distinct (map tr_id (q_tokens db))"
  using assms by (auto simp: sql_inv_def sql_ids_def table_ok_def distinct_map inj_on_def)

context sqlite_reliable
begin

lemma execute_body [simp]: "execute E q i stmt db = stmt db"
  by (simp add: execute_def no_fault)

lemma abs_create_subnet:
  assumes "sql_inv (Suc n) db"
  shows "sql_abs (snd (sql_create_subnet E s db)) = schema_apply (CreateSubnet s) (sql_abs db)"
    and "admin_error (sqlite_database E) (CreateSubnet s) db = None \<longleftrightarrow> accepts (sql_abs db) (CreateSubnet s)"
  using sql_ids_room [OF assms] subnet_key_conflict [OF sql_inv_typed [OF assms], of _ s "\<lambda>_. True"]
  by (simp_all add: sql_create_subnet_def schema_apply_def mem_create_subnet_def Let_def sql_abs_def
      image_image)

lemma abs_update_subnet:
  assumes "sql_inv n db"
  shows "sql_abs (snd (sql_update_subnet E i s db)) = schema_apply (UpdateSubnet i s) (sql_abs db)"
    and "admin_error (sqlite_database E) (UpdateSubnet i s) db = None \<longleftrightarrow> accepts (sql_abs db) (UpdateSubnet i s)"
proof -
  have f: "filter (\<lambda>x. s_id x \<noteq> Some i) (map row_to_subnet rs) = map row_to_subnet (filter (\<lambda>r. sr_id r \<noteq> i) rs)" for rs
    by (simp add: filter_map comp_def)
  have conflict: "has_subnet i db \<and> subnet_key (subnet_to_row i s) \<in>
      subnet_key ` set (filter (\<lambda>r. sr_id r \<noteq> i) (q_subnets db)) \<longleftrightarrow> \<not> accepts (sql_abs db) (UpdateSubnet i s)"
    using subnet_key_conflict [OF sql_inv_typed [OF assms], of i s "\<lambda>r. sr_id r \<noteq> i"]
    by (simp add: has_subnet_abs f del: set_filter)
  moreover have "map row_to_subnet (map (\<lambda>r. if sr_id r = i then subnet_to_row i s else r) (q_subnets db)) =
      update_first (\<lambda>x. s_id x = Some i) (\<lambda>_. s\<lparr> s_id := Some i \<rparr>) (map row_to_subnet (q_subnets db))"
    using sql_ids_distinct(1) [OF assms] by (intro map_update_row) auto
  ultimately show "sql_abs (snd (sql_update_subnet E i s db)) = schema_apply (UpdateSubnet i s) (sql_abs db)"
    by (simp add: sql_update_subnet_def schema_apply_def mem_update_subnet_def sql_abs_def
        del: accepts.simps map_map)
  show "admin_error (sqlite_database E) (UpdateSubnet i s) db = None \<longleftrightarrow> accepts (sql_abs db) (UpdateSubnet i s)"
    using conflict by (simp add: sql_update_subnet_def del: accepts.simps)
qed

lemma abs_delete_subnet:
  assumes "sql_inv n db"
  shows "sql_abs (snd (sql_delete_subnet E i db)) = schema_apply (DeleteSubnet i) (sql_abs db)"
proof -
  have keep: "filter (\<lambda>r. rr_subnet_id r \<noteq> i) (q_ranges db) = q_ranges db"
    "filter (\<lambda>r. xr_subnet_id r \<noteq> i) (q_static_ips db) = q_static_ips db"
    "filter (\<lambda>r. lr_subnet_id r \<noteq> i) (q_leases db) = q_leases db" if "\<not> has_subnet i db"
    using that sql_inv_refs [OF assms] by (auto simp: sql_refs_def has_subnet_def filter_id_conv)
  show ?thesis
    using foreign_keys keep
    by (simp add: sql_delete_subnet_def schema_apply_def mem_delete_subnet_def drop_subnet_rows_def
        cascade_subnet_def Let_def sql_abs_def filter_map comp_def)
qed

lemma abs_create_range:
  assumes "sql_inv (Suc n) db"
  shows "sql_abs (snd (sql_create_range E rg db)) = schema_apply (CreateRange rg) (sql_abs db)"
    and "admin_error (sqlite_database E) (CreateRange rg) db = None \<longleftrightarrow> accepts (sql_abs db) (CreateRange rg)"
  using sql_ids_room [OF assms] foreign_keys has_subnet_abs [of "r_subnet_id rg" db]
  by (simp_all add: sql_create_range_def schema_apply_def mem_create_range_def Let_def sql_abs_def)

lemma abs_create_static_ip:
  assumes "sql_inv n db"
  shows "sql_abs (snd (sql_create_static_ip E st db)) = schema_apply (CreateStaticIp st) (sql_abs db)"
    and "admin_error (sqlite_database E) (CreateStaticIp st) db = None \<longleftrightarrow> accepts (sql_abs db) (CreateStaticIp st)"
  using foreign_keys has_subnet_abs [of "st_subnet_id st" db]
    static_ip_conflict [OF sql_inv_typed [OF assms], of "st_ip_address st"]
  by (auto simp: sql_create_static_ip_def schema_apply_def mem_create_static_ip_def sql_abs_def image_image)

lemma abs_update_static_ip_hostname:
  assumes "sql_inv n db"
  shows "sql_abs (snd (sql_update_static_ip_hostname E ip h db)) =
    schema_apply (UpdateStaticIpHostname ip h) (sql_abs db)"
proof -
  have "map row_to_static (map (\<lambda>r. if xr_ip_address r = ip then r\<lparr> xr_hostname := h \<rparr> else r) (q_static_ips db)) =
      update_first (\<lambda>s. ipv4_to_string (st_ip_address s) = ip) (\<lambda>s. s\<lparr> st_hostname := h \<rparr>)
        (map row_to_static (q_static_ips db))"
    using assms stored_static_ip
    by (intro map_update_row) (auto simp: sql_inv_def sql_unique_def sql_typed_def row_to_static_def)
  then show ?thesis
    by (simp add: sql_update_static_ip_hostname_def schema_apply_def mem_update_static_ip_hostname_def
        sql_abs_def del: map_map)
qed

lemma abs_delete_static_ip:
  assumes "sql_inv n db"
  shows "sql_abs (snd (sql_delete_static_ip E ip db)) = schema_apply (DeleteStaticIp ip) (sql_abs db)"
proof -
  have "filter (\<lambda>r. ipv4_to_string (st_ip_address (row_to_static r)) \<noteq> ip) (q_static_ips db) =
      filter (\<lambda>r. xr_ip_address r \<noteq> ip) (q_static_ips db)"
    using assms stored_static_ip by (intro filter_cong) (auto simp: sql_inv_def sql_typed_def)
  then show ?thesis
    by (simp add: sql_delete_static_ip_def schema_apply_def mem_delete_static_ip_def sql_abs_def
        filter_map comp_def)
qed

lemma abs_create_ia_prefix:
  assumes "sql_inv (Suc n) db"
  shows "sql_abs (snd (sql_create_ia_prefix E p db)) = schema_apply (CreateIaPrefix p) (sql_abs db)"
    and "admin_error (sqlite_database E) (CreateIaPrefix p) db = None"
  using sql_ids_room [OF assms]
  by (simp_all add: sql_create_ia_prefix_def schema_apply_def mem_create_ia_prefix_def Let_def sql_abs_def)

lemma abs_update_ia_prefix:
  assumes "sql_inv n db"
  shows "sql_abs (snd (sql_update_ia_prefix E i p db)) = schema_apply (UpdateIaPrefix i p) (sql_abs db)"
proof -
  have "map row_to_prefix (map (\<lambda>r. if pr_id r = i then prefix_to_row i p else r) (q_ia_prefixes db)) =
      update_first (\<lambda>x. p_id x = Some i) (\<lambda>_. p\<lparr> p_id := Some i \<rparr>) (map row_to_prefix (q_ia_prefixes db))"
    using sql_ids_distinct(2) [OF assms] by (intro map_update_row) auto
  then show ?thesis
    by (simp add: sql_update_ia_prefix_def schema_apply_def mem_update_ia_prefix_def sql_abs_def del: map_map)
qed

lemma abs_create_token:
  assumes "sql_inv (Suc n) db"
  shows "sql_abs (snd (sql_create_token E now name h salt db)) = schema_apply (CreateToken now name h salt) (sql_abs db)"
    and "admin_error (sqlite_database E) (CreateToken now name h salt) db = None \<longleftrightarrow>
      accepts (sql_abs db) (CreateToken now name h salt)"
  using sql_ids_room [OF assms]
  by (simp_all add: sql_create_token_def schema_apply_def mem_create_token_def Let_def sql_abs_def image_image)

lemma abs_toggle_token:
  assumes "sql_inv n db"
  shows "sql_abs (snd (sql_toggle_token E i e db)) = schema_apply (ToggleToken i e) (sql_abs db)"
proof -
  let ?tok = "\<lambda>r. (tr_id r, tr_name r, tr_token_hash r, tr_enabled r)"
  have "map ?tok (map (\<lambda>r. if tr_id r = i then r\<lparr> tr_enabled := (if e then 1 else 0) \<rparr> else r) (q_tokens db)) =
      update_first (\<lambda>(tid, _, _, _). tid = i) (\<lambda>(tid, name, h, _). (tid, name, h, if e then 1 else 0))
        (map ?tok (q_tokens db))"
    using sql_ids_distinct(3) [OF assms] by (intro map_update_row) auto
  then show ?thesis
    by (simp add: sql_toggle_token_def schema_apply_def mem_toggle_token_def sql_abs_def del: map_map)
qed

lemma abs_delete:
  "sql_abs (snd (sql_delete_range E i db)) = schema_apply (DeleteRange i) (sql_abs db)"
  "sql_abs (snd (sql_delete_ia_prefix E i db)) = schema_apply (DeleteIaPrefix i) (sql_abs db)"
  "sql_abs (snd (sql_delete_token E i db)) = schema_apply (DeleteToken i) (sql_abs db)"
  "sql_abs (snd (sql_update_token_last_used E now h db)) = schema_apply (UpdateTokenLastUsed now h) (sql_abs db)"
  by (simp_all add: sql_delete_range_def sql_delete_ia_prefix_def sql_delete_token_def
      sql_update_token_last_used_def schema_apply_def mem_delete_range_def mem_delete_ia_prefix_def
      mem_delete_token_def mem_update_token_last_used_def sql_abs_def filter_map comp_def)

lemma abs_admin:
  assumes "sql_inv (Suc n) db"
  shows "sql_abs (admin_apply (sqlite_database E) x db) = schema_apply x (sql_abs db)"
    and "admin_error (sqlite_database E) x db = None \<longleftrightarrow> accepts (sql_abs db) x"
proof -
  have inv: "sql_inv n db" using assms by (rule sql_inv_mono) simp
  show "sql_abs (admin_apply (sqlite_database E) x db) = schema_apply x (sql_abs db)"
    by (cases x) (simp_all only: admin_apply.simps sqlite_method_simps abs_create_subnet [OF assms]
        abs_update_subnet [OF inv] abs_delete_subnet [OF inv] abs_create_range [OF assms]
        abs_create_static_ip [OF inv] abs_update_static_ip_hostname [OF inv] abs_delete_static_ip [OF inv]
        abs_create_ia_prefix [OF assms] abs_update_ia_prefix [OF inv] abs_create_token [OF assms]
        abs_toggle_token [OF inv] abs_delete)
  show "admin_error (sqlite_database E) x db = None \<longleftrightarrow> accepts (sql_abs db) x"
  proof (cases x)
    case (DeleteSubnet i)
    then show ?thesis by (simp add: sql_delete_subnet_def Let_def)
  qed (use abs_create_subnet(2) [OF assms] abs_update_subnet(2) [OF inv] abs_create_range(2) [OF assms]
      abs_create_static_ip(2) [OF inv] abs_create_ia_prefix(2) [OF assms] abs_create_token(2) [OF assms]
      in \<open>simp_all add: sql_delete_range_def sql_delete_ia_prefix_def sql_delete_token_def
        sql_update_token_last_used_def sql_update_static_ip_hostname_def sql_delete_static_ip_def
        sql_update_ia_prefix_def sql_toggle_token_def del: accepts.simps(1-5) admin_error.simps(1,2,4,6,9,12)\<close>)
qed

section \<open>Leases and reads\<close>

lemma abs_leases:
  assumes "sql_inv (Suc n) db"
  shows "has_subnet (l_subnet_id l) db \<Longrightarrow>
      map_prod id sql_abs (sql_create_lease E l db) = mem_create_lease l (sql_abs db)"
    and "map_prod id sql_abs (sql_expire_lease E i db) = mem_expire_lease i (sql_abs db)"
    and "map_prod id sql_abs (sql_delete_expired_leases E now db) = mem_delete_expired_leases now (sql_abs db)"
proof -
  have "length (filter (\<lambda>r. lr_lease_end r < now) rs) = length rs - length (filter (\<lambda>r. now \<le> lr_lease_end r) rs)" for rs
    using sum_length_filter_compl [of "\<lambda>r. lr_lease_end r < now" rs] by (simp add: not_less)
  then show "map_prod id sql_abs (sql_delete_expired_leases E now db) = mem_delete_expired_leases now (sql_abs db)"
    by (simp add: sql_delete_expired_leases_def mem_delete_expired_leases_def Let_def sql_abs_def
        filter_map comp_def not_less)
qed (use sql_ids_room [OF assms] in \<open>simp_all add: sql_create_lease_def mem_create_lease_def
    sql_expire_lease_def mem_expire_lease_def Let_def sql_abs_def filter_map comp_def\<close>)

lemma fetch_body [simp]: "fetch E q i stmt db = Inr (stmt db)"
  by (simp add: fetch_def no_fault)

lemma abs_lists:
  "same_rows (sql_list_subnets E db) (mem_list_subnets (sql_abs db))"
  "same_rows (sql_list_ranges E sid db) (mem_list_ranges sid (sql_abs db))"
  "same_rows (sql_list_static_ips E sid db) (mem_list_static_ips sid (sql_abs db))"
  "same_rows (sql_list_active_leases E now db) (mem_list_active_leases now (sql_abs db))"
  "same_rows (sql_list_ia_prefixes E iface db) (mem_list_ia_prefixes iface (sql_abs db))"
  "same_rows (sql_list_tokens E db) (mem_list_tokens (sql_abs db))"
proof -
  have f: "st_subnet_id (row_to_static r) = xr_subnet_id r" "p_interface (row_to_prefix p) = pr_interface p" for r p
    by (simp_all add: row_to_static_def row_to_prefix_def)
  show "same_rows (sql_list_subnets E db) (mem_list_subnets (sql_abs db))"
    "same_rows (sql_list_ranges E sid db) (mem_list_ranges sid (sql_abs db))"
    "same_rows (sql_list_static_ips E sid db) (mem_list_static_ips sid (sql_abs db))"
    "same_rows (sql_list_active_leases E now db) (mem_list_active_leases now (sql_abs db))"
    "same_rows (sql_list_ia_prefixes E iface db) (mem_list_ia_prefixes iface (sql_abs db))"
    "same_rows (sql_list_tokens E db) (mem_list_tokens (sql_abs db))"
    by (simp_all add: sql_list_subnets_def sql_list_ranges_def sql_list_static_ips_def sql_list_active_leases_def
        sql_list_ia_prefixes_def sql_list_tokens_def mem_read_defs subnet_rows range_rows static_rows lease_rows
        prefix_rows token_rows filter_map comp_def f same_rows_def split: option.split)
qed

lemma unique_row:
  assumes "distinct (map ident rs)" and "mset rows = mset (filter (\<lambda>r. ident r = i) rs)"
    and "\<And>r. p (val r) \<longleftrightarrow> ident r = i"
  shows "map_option val (first_row rows) = List.find p (map val rs)"
  using assms
proof (induction rs arbitrary: rows)
  case (Cons r rs)
  show ?case
  proof (cases "ident r = i")
    case True
    then have "filter (\<lambda>r. ident r = i) rs = []" using Cons.prems(1) by (auto simp: filter_empty_conv image_iff)
    with True Cons.prems(2) have "rows = [r]" by simp
    with True Cons.prems(3) show ?thesis by (simp add: first_row_def)
  next
    case False
    with Cons show ?thesis by simp
  qed
qed (simp add: first_row_def)

lemma abs_gets:
  assumes "sql_inv n db"
  shows "sql_get_subnet E i db = mem_get_subnet i (sql_abs db)"
    and "sql_get_ia_prefix E i db = mem_get_ia_prefix i (sql_abs db)"
  using unique_row [OF sql_ids_distinct(1) [OF assms], of _ i "\<lambda>s. s_id s = Some i" row_to_subnet]
    unique_row [OF sql_ids_distinct(2) [OF assms], of _ i "\<lambda>p. p_id p = Some i" row_to_prefix]
  by (simp_all add: sql_get_subnet_def sql_get_ia_prefix_def mem_read_defs subnet_rows prefix_rows)

text \<open>\<open>ORDER BY lease_end DESC LIMIT 1\<close>: of the active leases of a client, one that ends last.\<close>

lemma order_desc_first:
  assumes "first_row (order_desc k rs) = Some r" and "x \<in> set rs"
  shows "k x \<le> k r"
proof -
  obtain rest where rest: "order_desc k rs = r # rest"
    using assms(1) by (auto simp: first_row_def split: list.splits)
  have "sorted (map (\<lambda>r. - k r) (r # rest))" unfolding rest [symmetric] order_desc_def by (rule sorted_sort_key)
  moreover have "x \<in> set (r # rest)" using assms(2) by (metis rest set_order_desc)
  ultimately show ?thesis by auto
qed

lemma get_active_latest:
  "sql_get_active_lease E now mac db = Inr (Some l) \<Longrightarrow> m \<in> set (m_leases (sql_abs db)) \<Longrightarrow> active now m \<Longrightarrow>
   to_lowercase (l_mac_address m) = to_lowercase mac \<Longrightarrow> l_lease_end m \<le> l_lease_end l"
  by (auto simp: sql_get_active_lease_def active_def dest!: order_desc_first)

end

end
