(* ===== verification/Sqlite_Theorems.thy ===== *)
theory Sqlite_Theorems
  imports Sqlite_Refinement Dhcp_Theorems Api_Server
begin

text \<open>
  The properties of the daemon on the database that \<open>main\<close> opens: the DHCP server and the REST
  interface over SQLite. In a run every turn has an environment of its own, so that a statement
  may fail at one time and succeed at another.
\<close>

section \<open>Runs on SQLite\<close>

inductive sqlite_run ::
  "config \<Rightarrow> (string \<Rightarrow> ipv4 list) \<Rightarrow> (string \<Rightarrow> mac_address option) \<Rightarrow> (sqlite_env \<Rightarrow> bool) \<Rightarrow>
   i64 \<times> sqlite_db \<Rightarrow> nat \<Rightarrow> i64 \<times> sqlite_db \<Rightarrow> bool"
  for cfg ips macs env st where
  sqlite_refl: "sqlite_run cfg ips macs env st 0 st"
| sqlite_turn: "sqlite_run cfg ips macs env st n st' \<Longrightarrow> env E \<Longrightarrow>
    server_step (sqlite_database E) cfg ips macs st' st'' \<Longrightarrow> sqlite_run cfg ips macs env st (Suc n) st''"

abbreviation sql_leases :: "sqlite_db \<Rightarrow> lease set" where
  "sql_leases db \<equiv> row_to_lease ` set (q_leases db)"

lemma sqlite_admin_store:
  "sqlite_backend E \<Longrightarrow> admin_store (sqlite_database E) (\<lambda>db. row_to_subnet ` set (q_subnets db))
     (\<lambda>db. row_to_range ` set (q_ranges db)) (\<lambda>db. row_to_static ` set (q_static_ips db)) sql_leases sql_inv"
  by (rule sqlite_backend.axioms_admin)

lemma sqlite_run_leases:
  assumes run: "sqlite_run cfg ips macs env (now, db) k st" and inv: "sql_inv (k + n) db"
    and env: "\<And>E. env E \<Longrightarrow> sqlite_backend E"
    and P: "P now (sql_leases db)"
    and mono: "\<And>s s' L M. P s L \<Longrightarrow> s \<le> s' \<Longrightarrow> M \<subseteq> L \<Longrightarrow> P s' M"
    and packet: "\<And>E d t1 t2 packet M M'. env E \<Longrightarrow> P t1 M \<Longrightarrow> t1 \<le> t2 \<Longrightarrow>
      lease_effect (sqlite_database E) t1 t2 packet cfg d M M' \<Longrightarrow> P t2 M'"
  shows "sql_inv n (snd st) \<and> P (fst st) (sql_leases (snd st))"
  using run inv
proof (induction arbitrary: n rule: sqlite_run.induct)
  case sqlite_refl
  then show ?case using P by simp
next
  case (sqlite_turn k st' E st'')
  have store: "sqlite_backend E" by (rule env [OF sqlite_turn.hyps(2)])
  have admin: "admin_store (sqlite_database E) (\<lambda>db. row_to_subnet ` set (q_subnets db))
      (\<lambda>db. row_to_range ` set (q_ranges db)) (\<lambda>db. row_to_static ` set (q_static_ips db)) sql_leases sql_inv"
    by (rule sqlite_admin_store [OF store])
  obtain t' db' t'' db'' where st: "st' = (t', db')" "st'' = (t'', db'')" by fastforce
  from sqlite_turn.IH [of "Suc n"] sqlite_turn.prems st
  have IH: "sql_inv (Suc n) db'" "P t' (sql_leases db')" by simp_all
  from sqlite_turn.hyps(3) st have step: "server_step (sqlite_database E) cfg ips macs (t', db') (t'', db'')" by simp
  from admin_store.server_step_inv [OF admin step IH(1)]
    admin_store.server_step_leases [OF admin step IH(1), of P, OF IH(2) mono packet [OF sqlite_turn.hyps(2)]] st
  show ?case by auto
qed

section \<open>Example\<close>

text \<open>The tables after the subnet and the range of the example were created through the interface.\<close>

definition lab_sqlite :: sqlite_db where
  "lab_sqlite = sqlite_new\<lparr> q_subnets := [subnet_to_row 1 lab_subnet], q_ranges := [range_to_row 1 lab_range],
     seq_subnets := 1, seq_ranges := 1 \<rparr>"

lemma lab_sqlite_created:
  "lab_sqlite = admin_apply (sqlite_database plain_env) (CreateRange lab_range)
     (admin_apply (sqlite_database plain_env) (CreateSubnet lab_subnet) sqlite_new)"
  by (simp add: lab_sqlite_def sqlite_new_def plain_env_def sql_create_subnet_def sql_create_range_def
      execute_def new_rowid_def i64_max_def has_subnet_def lab_range_def)

lemma lab_sqlite_inv: "sql_inv 5 lab_sqlite"
proof -
  have "sql_inv (Suc (Suc 5)) sqlite_new" by (rule sql_inv_new) (simp add: i64_max_def)
  then have "sql_inv (Suc 5) (admin_apply (sqlite_database plain_env) (CreateSubnet lab_subnet) sqlite_new)"
    by (rule plain.admin_inv)
  then show ?thesis unfolding lab_sqlite_created by (rule plain.admin_inv)
qed

definition lab_sqlite_leased :: "u8 \<Rightarrow> sqlite_db" where
  "lab_sqlite_leased n = lab_sqlite\<lparr> q_leases := [lease_to_row 1 (lab_lease 0xC0A80164 n)], seq_leases := 1 \<rparr>"

lemma lab_sqlite_reads:
  "sql_get_static_ip_by_mac plain_env mac lab_sqlite = Inr None"
  "sql_list_ranges plain_env None lab_sqlite = Inr [lab_range]"
  "sql_get_subnet plain_env 1 lab_sqlite = Inr (Some lab_subnet)"
  "sql_list_active_leases plain_env now lab_sqlite = Inr []"
  by (simp_all add: sql_get_static_ip_by_mac_def sql_list_ranges_def sql_get_subnet_def
      sql_list_active_leases_def fetch_def plain_env_def lab_sqlite_def sqlite_new_def first_row_def
      lab_range_def lab_subnet_def)

text \<open>The client's REQUEST as the parser returns it.\<close>

definition lab_received :: dhcp_packet where
  "lab_received = (lab_client Request 0xC0A80164 1)\<lparr> options :=
     [MessageType Request, RequestedIpAddress 0xC0A80164, End] \<rparr>"

lemma lab_lease_fields:
  "lab_lease ip n = \<lparr> l_id = Some 1, l_subnet_id = 1, l_mac_address = mac_to_string (MacAddress 2 0 0 0 0 n),
     l_ip_address = ip, l_lease_start = 10, l_lease_end = i64_add 10 86400, l_hostname = None \<rparr>"
  by (simp add: lab_lease_def granted_lease_def lab_client_def hostname_of_def config_default_def)

lemma lab_sqlite_request:
  "snd (handle_packet (sqlite_database plain_env) 10 10 lab_received [0xC0A80101] (config_default Linux) lab_sqlite) =
   lab_sqlite_leased 1"
proof -
  have "iface_in_subnet [0xC0A80101] lab_subnet" by code_simp
  then have m: "matching_range (sqlite_database plain_env) [0xC0A80101] 0xC0A80164 lab_sqlite [lab_range] =
      Some (lab_range, lab_subnet)"
    using lab_sqlite_reads(3) by (simp add: matching_range_def) (simp add: lab_range_def)
  have "lease_to_row 1 (lab_lease 0xC0A80164 1\<lparr> l_id := None \<rparr>) = lease_to_row 1 (lab_lease 0xC0A80164 1)"
    by (rule to_row_id)
  then have "sql_create_lease plain_env (lab_lease 0xC0A80164 1\<lparr> l_id := None \<rparr>) lab_sqlite = (Inr 1, lab_sqlite_leased 1)"
    by (simp add: sql_create_lease_def execute_def plain_env_def lab_sqlite_def sqlite_new_def
        lab_sqlite_leased_def new_rowid_def i64_max_def has_subnet_def)
      (simp add: lab_lease_fields)
  with m lab_sqlite_reads show ?thesis
    by (simp add: handle_packet_def get_message_type_def lab_received_def lab_client_def handle_request_def
        requested_ip_of_def grant_lease_def lab_lease_fields hostname_of_def lab_range_def Let_def config_default_def)
qed

lemma lab_sqlite_turn:
  "server_step (sqlite_database plain_env) (config_default Linux) (\<lambda>_. [0xC0A80101]) (\<lambda>_. None)
     (0, lab_sqlite) (10, lab_sqlite_leased 1)"
proof -
  have parse: "packet_parse (packet_to_bytes (lab_client Request 0xC0A80164 1)) = Inr lab_received"
    by code_simp
  have iface: "''eth0'' \<in> set (listen_interfaces (config_default Linux))" by (simp add: config_default_def)
  obtain act db' where step: "listen_step (sqlite_database plain_env) (config_default Linux) (\<lambda>_. [0xC0A80101])
      (\<lambda>_. None) 10 10 ''eth0'' (packet_to_bytes (lab_client Request 0xC0A80164 1)) lab_sqlite = (act, db')"
    by fastforce
  from step have "db' = lab_sqlite_leased 1"
  proof (cases rule: listen_step_db)
    case ignored
    with step iface parse lab_sqlite_request show ?thesis
      by (auto simp: listen_step_def Let_def split: prod.splits option.splits)
  next
    case (handled packet resp)
    with parse lab_sqlite_request show ?thesis by simp
  qed
  with step show ?thesis by (intro receive) auto
qed

lemma lab_sqlite_admin:
  "server_step (sqlite_database plain_env) (config_default Linux) (\<lambda>_. []) (\<lambda>_. None) (0, sqlite_new)
     (5, admin_apply (sqlite_database plain_env) (CreateSubnet lab_subnet) sqlite_new)"
  by (rule admin) simp

section \<open>Properties\<close>

text \<open>
  On SQLite, in every run - any packets, purges and administration, with statements that may
  fail at any turn and rows that come in any order - an address never gets two holders, and the
  tables keep their invariant. The identifiers must have room for the turns of the run.
\<close>

theorem sqlite_run_owners:
  assumes "sqlite_run cfg ips macs sqlite_backend (now, db) k (t, db')"
    and "sql_inv k db" and "owners_ok now (sql_leases db)"
  shows "sql_inv 0 db' \<and> owners_ok t (sql_leases db')"
proof -
  have "sql_inv (k + 0) db" using assms(2) by simp
  from sqlite_run_leases [where P = owners_ok, OF assms(1) this _ assms(3)]
  have "sql_inv 0 (snd (t, db')) \<and> owners_ok (fst (t, db')) (sql_leases (snd (t, db')))"
    by (blast intro: owners_ok_later lease_effect_owners)
  then show ?thesis by simp
qed

lemma lab_sqlite_run:
  "env plain_env \<Longrightarrow> sqlite_run (config_default Linux) (\<lambda>_. [0xC0A80101]) (\<lambda>_. None) env
     (0, lab_sqlite) (Suc 0) (10, lab_sqlite_leased 1)"
  by (rule sqlite_turn [OF sqlite_refl _ lab_sqlite_turn])

theorem sqlite_run_owners_witness:
  "sqlite_run (config_default Linux) (\<lambda>_. [0xC0A80101]) (\<lambda>_. None) sqlite_backend
     (0, lab_sqlite) (Suc 0) (10, lab_sqlite_leased 1) \<and>
   lab_sqlite_leased 1 \<noteq> lab_sqlite \<and> owners_ok 10 (sql_leases (lab_sqlite_leased 1))"
proof -
  have run: "sqlite_run (config_default Linux) (\<lambda>_. [0xC0A80101]) (\<lambda>_. None) sqlite_backend
      (0, lab_sqlite) (Suc 0) (10, lab_sqlite_leased 1)"
    by (rule lab_sqlite_run) (rule plain.sqlite_backend_axioms)
  have "sql_inv (Suc 0) lab_sqlite" using lab_sqlite_inv by (rule sql_inv_mono) simp
  from sqlite_run_owners [OF run this] run show ?thesis
    by (simp add: owners_ok_def lab_sqlite_def sqlite_new_def lab_sqlite_leased_def)
qed

text \<open>
  C8. While the statements of SQLite do not fail, a daemon started on a new database never has two
  active leases for one address, after any run.
\<close>

theorem sqlite_single_lease:
  assumes "sqlite_run cfg ips macs sqlite_reliable (now, sqlite_new) k (t, db')" and "int k + 1 \<le> i64_max"
  shows "one_lease_per_ip t (sql_leases db')"
proof -
  have inv: "sql_inv (k + 0) sqlite_new" using assms(2) by (simp add: sql_inv_new)
  have reliable: "\<not> expire_fails (sqlite_database E) d" if "sqlite_reliable E" for E d
    using sqlite_reliable.no_fault [OF that] by (simp add: expire_fails_def sql_expire_lease_def execute_def)
  have "one_lease_per_ip now (sql_leases sqlite_new)" by (simp add: one_lease_per_ip_def sqlite_new_def)
  from sqlite_run_leases [where P = one_lease_per_ip, OF assms(1) inv _ this]
  have "one_lease_per_ip (fst (t, db')) (sql_leases (snd (t, db')))"
    using reliable by (blast intro: one_lease_later lease_effect_one_lease sqlite_reliable.axioms(1))
  then show ?thesis by simp
qed

theorem sqlite_single_lease_witness:
  "sqlite_run (config_default Linux) (\<lambda>_. []) (\<lambda>_. None) sqlite_reliable (0, sqlite_new) (Suc 0)
     (5, admin_apply (sqlite_database plain_env) (CreateSubnet lab_subnet) sqlite_new) \<and> int (Suc 0) + 1 \<le> i64_max \<and>
   one_lease_per_ip 5 (sql_leases (admin_apply (sqlite_database plain_env) (CreateSubnet lab_subnet) sqlite_new))"
proof -
  have run: "sqlite_run (config_default Linux) (\<lambda>_. []) (\<lambda>_. None) sqlite_reliable (0, sqlite_new) (Suc 0)
     (5, admin_apply (sqlite_database plain_env) (CreateSubnet lab_subnet) sqlite_new)"
    by (rule sqlite_turn [OF sqlite_refl _ lab_sqlite_admin]) (rule plain.sqlite_reliable_axioms)
  from sqlite_single_lease [OF run] run show ?thesis by (simp add: i64_max_def)
qed

text \<open>
  C9. No \<open>unwrap\<close> of the SQLite backend panics: after any run from a new database every address
  stored in any table parses, identifiers and unique columns are unique, and every range, static
  assignment and lease refers to a subnet that is there.
\<close>

theorem sqlite_never_panics:
  assumes "sqlite_run cfg ips macs sqlite_backend (now, sqlite_new) k (t, db')" and "int k + 1 \<le> i64_max"
  shows "unwraps db' \<and> sql_unique db' \<and> sql_refs db' \<and> sql_ids 0 db'"
proof -
  have "sql_inv (k + 0) sqlite_new" using assms(2) by (simp add: sql_inv_new)
  from sqlite_run_leases [where P = "\<lambda>_ _. True", OF assms(1) this]
  have "sql_inv 0 db'" by simp
  with sql_inv_unwraps show ?thesis by (auto simp: sql_inv_def)
qed

theorem sqlite_never_panics_witness:
  "sqlite_run (config_default Linux) (\<lambda>_. []) (\<lambda>_. None) sqlite_backend (0, sqlite_new) (Suc 0)
     (5, admin_apply (sqlite_database plain_env) (CreateSubnet lab_subnet) sqlite_new) \<and>
   q_subnets (admin_apply (sqlite_database plain_env) (CreateSubnet lab_subnet) sqlite_new) \<noteq> [] \<and>
   unwraps (admin_apply (sqlite_database plain_env) (CreateSubnet lab_subnet) sqlite_new)"
proof -
  have run: "sqlite_run (config_default Linux) (\<lambda>_. []) (\<lambda>_. None) sqlite_backend (0, sqlite_new) (Suc 0)
     (5, admin_apply (sqlite_database plain_env) (CreateSubnet lab_subnet) sqlite_new)"
    by (rule sqlite_turn [OF sqlite_refl _ lab_sqlite_admin]) (rule plain.sqlite_backend_axioms)
  have "q_subnets (admin_apply (sqlite_database plain_env) (CreateSubnet lab_subnet) sqlite_new) \<noteq> []"
    by (simp add: sqlite_new_def plain_env_def sql_create_subnet_def execute_def new_rowid_def i64_max_def)
  with sqlite_never_panics [OF run] run show ?thesis by (simp add: i64_max_def)
qed





text \<open>
  What is stored is read back: a subnet, range, static assignment, lease and IPv6 prefix
  survive their rows - addresses and lists of addresses as text, unsigned numbers as SQL
  integers, a flag as 0 or 1 - for every value, with the identifier the table gave.
\<close>

theorem stored_values_read_back:
  "row_to_subnet (subnet_to_row i s) = s\<lparr> s_id := Some i \<rparr> \<and>
   row_to_range (range_to_row i r) = r\<lparr> r_id := Some i \<rparr> \<and>
   row_to_static (static_to_row st) = st \<and>
   row_to_lease (lease_to_row i l) = l\<lparr> l_id := Some i \<rparr> \<and>
   row_to_prefix (prefix_to_row i p) = p\<lparr> p_id := Some i \<rparr>"
  by simp

text \<open>
  The answer to the creation of a static assignment on SQLite: 409 when the address or the
  hardware address, as it is spelled, is assigned already; otherwise 500 when the subnet does not
  exist; otherwise 201, and the assignment is stored. An error changes nothing.
\<close>

theorem create_static_ip_status:
  assumes "sqlite_reliable E" and "sql_inv n db"
  shows "case create_static_ip (sqlite_database E) st db of (r, db') \<Rightarrow>
    if st_ip_address st \<in> st_ip_address ` set (m_static_ips (sql_abs db)) \<or>
       st_mac_address st \<in> st_mac_address ` set (m_static_ips (sql_abs db)) then r = Inl CONFLICT \<and> db' = db
    else if Some (st_subnet_id st) \<notin> s_id ` set (m_subnets (sql_abs db)) then
      r = Inl INTERNAL_SERVER_ERROR \<and> db' = db
    else r = Inr CREATED \<and> m_static_ips (sql_abs db') = m_static_ips (sql_abs db) @ [st]"
  using sqlite_reliable.no_fault [OF assms(1)]
    sqlite_backend.foreign_keys [OF sqlite_reliable.axioms(1) [OF assms(1)]] has_subnet_abs [of "st_subnet_id st" db]
    static_ip_conflict [OF sql_inv_typed [OF assms(2)], of "st_ip_address st"]
  by (simp add: create_static_ip_def sql_create_static_ip_def execute_def or_conflict_def
      unique_violation_def other_violation_def image_image)

theorem create_static_ip_status_witness:
  "create_static_ip (sqlite_database plain_env) lab_static lab_sqlite =
     (Inr CREATED, lab_sqlite\<lparr> q_static_ips := [static_to_row lab_static] \<rparr>) \<and>
   fst (create_static_ip (sqlite_database plain_env) (lab_static\<lparr> st_subnet_id := 9 \<rparr>) lab_sqlite) =
     Inl INTERNAL_SERVER_ERROR"
  using create_static_ip_status [OF plain.sqlite_reliable_axioms lab_sqlite_inv, of lab_static]
    create_static_ip_status [OF plain.sqlite_reliable_axioms lab_sqlite_inv, of "lab_static\<lparr> st_subnet_id := 9 \<rparr>"]
  by (simp add: create_static_ip_def sql_create_static_ip_def execute_def plain_env_def lab_static_def
      lab_sqlite_def sqlite_new_def lab_subnet_def has_subnet_def or_conflict_def split: prod.splits)

section \<open>Divergences\<close>

text \<open>
  The column \<open>mac_address\<close> is unique as text, while look-ups ignore case: the same hardware
  address in upper and lower case gets two assignments, and which one a client is served depends
  on the order in which SQLite returns the rows.
\<close>

definition lab_twice :: sqlite_db where
  "lab_twice = snd (create_static_ip (sqlite_database plain_env)
     (lab_static\<lparr> st_mac_address := ''0A:00:00:00:00:01'' \<rparr>)
     (snd (create_static_ip (sqlite_database plain_env)
       (lab_static\<lparr> st_mac_address := ''0a:00:00:00:00:01'', st_ip_address := 0xC0A80165 \<rparr>) lab_sqlite)))"

definition reversed_env :: sqlite_env where
  "reversed_env = plain_env\<lparr> env_static_ips := (\<lambda>_ rs. rev rs) \<rparr>"

lemma to_lowercase_example: "to_lowercase ''0A:00:00:00:00:01'' = ''0a:00:00:00:00:01''"
  "to_lowercase ''0a:00:00:00:00:01'' = ''0a:00:00:00:00:01''"
  by code_simp+

theorem static_mac_case_ambiguous:
  "sqlite_reliable plain_env \<and> sqlite_reliable reversed_env \<and>
   map_option st_ip_address (projr (sql_get_static_ip_by_mac plain_env ''0a:00:00:00:00:01'' lab_twice)) = Some 0xC0A80165 \<and>
   map_option st_ip_address (projr (sql_get_static_ip_by_mac reversed_env ''0a:00:00:00:00:01'' lab_twice)) = Some 0xC0A80164"
proof (intro conjI)
  show "sqlite_reliable reversed_env" by unfold_locales (simp_all add: reversed_env_def plain_env_def)
  have "lab_twice = lab_sqlite\<lparr> q_static_ips :=
      [static_to_row (lab_static\<lparr> st_mac_address := ''0a:00:00:00:00:01'', st_ip_address := 0xC0A80165 \<rparr>),
       static_to_row (lab_static\<lparr> st_mac_address := ''0A:00:00:00:00:01'' \<rparr>)] \<rparr>"
    by (simp add: lab_twice_def create_static_ip_def sql_create_static_ip_def execute_def plain_env_def
        lab_static_def lab_sqlite_def sqlite_new_def has_subnet_def ipv4_to_string_inj)
  then have "q_static_ips lab_twice =
      [static_to_row (lab_static\<lparr> st_mac_address := ''0a:00:00:00:00:01'', st_ip_address := 0xC0A80165 \<rparr>),
       static_to_row (lab_static\<lparr> st_mac_address := ''0A:00:00:00:00:01'' \<rparr>)]" by (rule ssubst) simp
  then show "map_option st_ip_address (projr (sql_get_static_ip_by_mac plain_env ''0a:00:00:00:00:01'' lab_twice)) =
      Some 0xC0A80165"
    "map_option st_ip_address (projr (sql_get_static_ip_by_mac reversed_env ''0a:00:00:00:00:01'' lab_twice)) =
      Some 0xC0A80164"
    by (simp_all add: sql_get_static_ip_by_mac_def fetch_def plain_env_def reversed_env_def
        to_lowercase_example first_row_def) (simp add: lab_static_def)
qed (rule plain.sqlite_reliable_axioms)

text \<open>
  An update that gives a subnet the network of another one violates the schema's uniqueness; the
  handler does not look for that error and answers 500, where the creation answers 409.
\<close>

theorem update_subnet_conflict_is_500:
  "let db = snd (create_subnet (sqlite_database plain_env) (lab_subnet\<lparr> s_network := 0x0A000000 \<rparr>) lab_sqlite) in
   update_subnet (sqlite_database plain_env) 2 lab_subnet db = (Inl INTERNAL_SERVER_ERROR, db) \<and>
   fst (create_subnet (sqlite_database plain_env) lab_subnet db) = Inl CONFLICT"
proof -
  let ?s = "lab_subnet\<lparr> s_network := 0x0A000000 \<rparr>"
  have o: "\<not> subnets_overlap 0x0A000000 24 0xC0A80100 24" "subnets_overlap 0xC0A80100 24 0xC0A80100 24" by code_simp+
  have l: "sql_list_subnets plain_env lab_sqlite = Inr [lab_subnet]"
    by (simp add: sql_list_subnets_def fetch_def plain_env_def lab_sqlite_def lab_subnet_def)
  have key: "subnet_key (subnet_to_row i ?s) \<noteq> subnet_key (subnet_to_row j lab_subnet)" for i j
    by (simp add: subnet_key_to_row ipv4_to_string_inj lab_subnet_def)
  have db: "snd (create_subnet (sqlite_database plain_env) ?s lab_sqlite) =
      lab_sqlite\<lparr> q_subnets := [subnet_to_row 1 lab_subnet, subnet_to_row 2 ?s], seq_subnets := 2 \<rparr>"
    using l o key by (simp add: create_subnet_def) (simp add: sql_create_subnet_def execute_def plain_env_def
        lab_sqlite_def sqlite_new_def new_rowid_def i64_max_def lab_subnet_def)
  show ?thesis
    unfolding Let_def db
    using o by (simp add: update_subnet_def create_subnet_def sql_update_subnet_def sql_list_subnets_def fetch_def
        execute_def plain_env_def has_subnet_def subnet_key_to_row or_500_def del: set_filter)
      (simp add: lab_subnet_def)
qed

end
