(* ===== verification/Cli_Theorems.thy ===== *)
theory Cli_Theorems
  imports Cli_Commands Sqlite_Theorems
begin

text \<open>
  The command line tool against the interface: which request of the router a command stands for,
  and what a command does to the database when its request reaches the handler.
\<close>

section \<open>Commands as requests\<close>

text \<open>The request a command stands for, or the error of its arguments.\<close>

fun command_api :: "command \<Rightarrow> api_request cli_result" where
  "command_api (CmdSubnet SubnetList) = Inr ListSubnets"
| "command_api (CmdSubnet (SubnetCreate network netmask gateway dns_servers domain_name)) =
     map_sum id PostSubnet (subnet_of_args network netmask gateway dns_servers domain_name)"
| "command_api (CmdSubnet (SubnetGet i)) = Inr (GetSubnet i)"
| "command_api (CmdSubnet (SubnetDelete i)) = Inr (DelSubnet i)"
| "command_api (CmdRange (RangeList subnet_id)) = Inr (ListRanges subnet_id)"
| "command_api (CmdRange (RangeCreate subnet_id start stop)) =
     map_sum id PostRange (range_of_args subnet_id start stop)"
| "command_api (CmdRange (RangeDelete i)) = Inr (DelRange i)"
| "command_api (CmdStatic (StaticList subnet_id)) = Inr (ListStaticIps subnet_id)"
| "command_api (CmdStatic (StaticCreate subnet_id mac ip hostname)) =
     map_sum id PostStaticIp (static_of_args subnet_id mac ip hostname)"
| "command_api (CmdStatic (StaticDelete ip)) = Inr (DelStaticIp ip)"
| "command_api (CmdStatic (StaticSetHostname ip hostname)) = Inr (PatchHostname ip hostname)"
| "command_api (CmdIp6Subnet (Ip6List iface)) = Inr (ListPrefixes iface)"
| "command_api (CmdIp6Subnet (Ip6Create iface pfx prefix_len preferred_lifetime valid_lifetime dns_servers dns_lifetime)) =
     map_sum id PostPrefix
       (prefix_of_args iface pfx prefix_len preferred_lifetime valid_lifetime dns_servers dns_lifetime)"
| "command_api (CmdIp6Subnet (Ip6Get i)) = Inr (GetPrefix i)"
| "command_api (CmdIp6Subnet (Ip6Delete i)) = Inr (DelPrefix i)"
| "command_api CmdLeases = Inr ListLeases"
| "command_api CmdHealth = Inr Health"

lemmas command_defs =
  subnet_list_def subnet_create_def subnet_get_def subnet_delete_def range_list_def range_create_def
  range_delete_def static_list_def static_create_def static_delete_def set_hostname_def ip6_list_def
  ip6_create_def ip6_get_def ip6_delete_def lease_list_def

lemmas client_defs =
  client_get_def client_post_def client_patch_def client_delete_def client_health_def

lemma send_error:
  "send_empty S c meth path = Inl e \<Longrightarrow> e \<noteq> AlreadyExistsError"
  "send_json S c meth path body = Inl e \<Longrightarrow> e \<noteq> AlreadyExistsError"
  by (auto simp: send_empty_def send_json_def build_uri_def split: sum.splits api_client.splits if_splits)
    (metis cli_error.distinct sum.sel(1) map_sum.simps old.sum.exhaust sum.distinct(1))+

text \<open>
  Every command of the tool sends exactly one request, the one that the router's table has
  for the operation it stands for, and nothing when an address among its arguments does not
  parse: an error of the exchange is the error of the command, and two stacks that answer this
  request alike give the same output.
\<close>

theorem cli_one_request:
  "case command_api cmd of
     Inl e \<Rightarrow> cli_main S J fmt_time url cmd = Inl e
   | Inr r \<Rightarrow>
       (\<forall>e. exchange S (cli_client url) r = Inl e \<longrightarrow> cli_main S J fmt_time url cmd = Inl e) \<and>
       (\<forall>S'. exchange S' (cli_client url) r = exchange S (cli_client url) r \<longrightarrow>
          cli_main S' J fmt_time url cmd = cli_main S J fmt_time url cmd)"
  by (cases cmd rule: command_api.cases)
    (auto simp: cli_main_def command_defs client_defs exchange_def conflict_message_def
      split: sum.splits option.splits cli_error.splits dest: send_error)

text \<open>A stack that accepts every URI and whose other side always gives the same answer.\<close>

definition fixed_stack :: "string + http_response \<Rightarrow> http_stack" where
  "fixed_stack answer = \<lparr> hs_uri = (\<lambda>_. True), hs_unix = (\<lambda>_ _. True), hs_to_vec = (\<lambda>_. Inr []),
     hs_send = (\<lambda>_. answer) \<rparr>"

lemma exchange_fixed: "exchange (fixed_stack answer) c r = map_sum StackError id answer"
  by (simp add: exchange_def send_empty_def send_json_def build_uri_def fixed_stack_def
      split: option.split api_client.split)

text \<open>A simple encoding for the examples: a sign and as many bytes as the number says.\<close>

fun unary_json :: "api_body \<Rightarrow> bytes" where
  "unary_json (IdBody i) = (if i < 0 then 1 else 0) # replicate (nat \<bar>i\<bar>) 0"
| "unary_json _ = []"

definition unary_decoders :: json_decoders where
  "unary_decoders = \<lparr> de_id = (\<lambda>b. Inr (if take 1 b = [1] then - int (length b - 1) else int (length b - 1))), de_unit = (\<lambda>_. Inr ()),
     de_subnet = (\<lambda>_. Inl []), de_subnets = (\<lambda>_. Inr []), de_ranges = (\<lambda>_. Inr []),
     de_static_ips = (\<lambda>_. Inr []), de_leases = (\<lambda>_. Inr []), de_prefix = (\<lambda>_. Inl []),
     de_prefixes = (\<lambda>_. Inr []) \<rparr>"

theorem cli_one_request_witness:
  "cli_main (fixed_stack (Inl ''connection refused'')) unary_decoders (\<lambda>_. None) None (CmdRange (RangeDelete 3)) =
     Inl (StackError ''connection refused'') \<and>
   cli_main (fixed_stack (Inl ''connection refused'')) unary_decoders (\<lambda>_. None) None
     (CmdRange (RangeCreate 1 ''10.0.0.300'' ''10.0.0.1'')) = Inl BadAddress"
proof -
  have "command_api (CmdRange (RangeCreate 1 ''10.0.0.300'' ''10.0.0.1'')) = Inl BadAddress" by code_simp
  with cli_one_request [where cmd = "CmdRange (RangeCreate 1 ''10.0.0.300'' ''10.0.0.1'')"
      and S = "fixed_stack (Inl ''connection refused'')" and J = unary_decoders and fmt_time = "\<lambda>_. None" and url = None]
    cli_one_request [where cmd = "CmdRange (RangeDelete 3)"
      and S = "fixed_stack (Inl ''connection refused'')" and J = unary_decoders and fmt_time = "\<lambda>_. None" and url = None]
  show ?thesis by (simp add: exchange_fixed)
qed

section \<open>From the command to the database\<close>

text \<open>The numbers of the status codes, and a handler's result as a response: \<open>json\<close> is the
  encoding that serde gives a body.\<close>

fun status_number :: "status_code \<Rightarrow> nat" where
  "status_number OK = 200"
| "status_number CREATED = 201"
| "status_number NO_CONTENT = 204"
| "status_number NOT_FOUND = 404"
| "status_number CONFLICT = 409"
| "status_number UNAUTHORIZED = 401"
| "status_number INTERNAL_SERVER_ERROR = 500"

definition respond :: "(api_body \<Rightarrow> bytes) \<Rightarrow> api_error + status_code \<times> api_body \<Rightarrow> http_response" where
  "respond json r =
     (case r of
        Inl (code, msg) \<Rightarrow> \<lparr> rs_status = status_number code, rs_body = Inr (bytes_of msg) \<rparr>
      | Inr (code, body) \<Rightarrow> \<lparr> rs_status = status_number code, rs_body = Inr (json body) \<rparr>)"

lemma subnets_overlap_refl: "subnets_overlap n m n m"
proof -
  have "n AND k \<le> (n AND k) OR NOT k" for k :: u32
    using or_greater_eq [of "uint (n AND k)"] by (metis le_word_or2 word_bw_comms(2))
  then show ?thesis by (simp add: subnets_overlap_def Let_def)
qed

lemma create_subnet_sqlite:
  assumes "sqlite_reliable E" and "sql_inv (Suc n) db"
  shows "create_subnet (sqlite_database E) s db =
    (if \<exists>e\<in>set (m_subnets (sql_abs db)). subnets_overlap (s_network s) (s_netmask s) (s_network e) (s_netmask e)
     then (Inl CONFLICT, db)
     else (Inr (CREATED, seq_subnets db + 1), admin_apply (sqlite_database E) (CreateSubnet s) db))"
proof -
  obtain ss where ss: "sql_list_subnets E db = Inr ss" and set: "set ss = set (m_subnets (sql_abs db))"
    using sqlite_reliable.abs_lists(1) [OF assms(1), of db]
    by (auto simp: same_rows_def mem_list_subnets_def elim!: rel_sum.cases dest!: mset_eq_setD)
  have fresh: "subnet_key (subnet_to_row i s) \<notin> subnet_key ` set (q_subnets db)"
    if "\<not> (\<exists>e\<in>set (m_subnets (sql_abs db)). subnets_overlap (s_network s) (s_netmask s) (s_network e) (s_netmask e))" for i
    using that subnet_key_conflict [OF sql_inv_typed [OF assms(2)], of i s "\<lambda>_. True"] subnets_overlap_refl
    by (auto simp: subnet_cidr_def)
  show ?thesis
    using ss set fresh sql_ids_room(1) [OF assms(2)] sqlite_reliable.no_fault [OF assms(1)]
    by (simp add: create_subnet_def list_ex_iff sql_create_subnet_def execute_def or_conflict_def)
qed

text \<open>
  C30. End to end: when the request of \<open>subnet create\<close> reaches the handler and its answer comes
  back, on SQLite, the tool prints the identifier under which the subnet can then be read back;
  when the network overlaps one that is there, it reports that the subnet already exists and the
  database is unchanged.
\<close>

theorem cli_create_subnet:
  assumes "sqlite_reliable E" and "sql_inv (Suc n) db"
    and "subnet_of_args network netmask gateway dns_servers domain_name = Inr s"
    and "route (sqlite_database E) cfg now tok hashed (PostSubnet s) db = (res, db')"
    and "exchange S (cli_client url) (PostSubnet s) = Inr (respond json res)"
    and "\<forall>i. json (IdBody i) \<noteq> [] \<and> de_id J (json (IdBody i)) = Inr i"
  shows "if \<exists>e\<in>set (m_subnets (sql_abs db)). subnets_overlap (s_network s) (s_netmask s) (s_network e) (s_netmask e)
    then db' = db \<and> cli_main S J fmt_time url (CmdSubnet (SubnetCreate network netmask gateway dns_servers domain_name)) =
      Inl (Message (''Subnet '' @ ipv4_to_string (s_network s) @ ''/'' @ fmt_u8 netmask @ '' already exists''))
    else \<exists>i. cli_main S J fmt_time url (CmdSubnet (SubnetCreate network netmask gateway dns_servers domain_name)) =
        Inr [''Created subnet with ID: '' @ dec_int i] \<and>
      sql_get_subnet E i db' = Inr (Some (s\<lparr> s_id := Some i \<rparr>))"
proof (cases "\<exists>e\<in>set (m_subnets (sql_abs db)). subnets_overlap (s_network s) (s_netmask s) (s_network e) (s_netmask e)")
  case True
  with assms(4) create_subnet_sqlite [OF assms(1,2), of s] have "db' = db" "res = Inl (CONFLICT, '''')"
    by (simp_all add: reply_def)
  with True assms(3,5) show ?thesis
    by (simp add: cli_main_def subnet_create_def client_post_def exchange_def conflict_message_def respond_def)
next
  case False
  let ?i = "seq_subnets db + 1"
  have res: "res = Inr (CREATED, IdBody ?i)" and db': "db' = admin_apply (sqlite_database E) (CreateSubnet s) db"
    using False assms(4) create_subnet_sqlite [OF assms(1,2), of s] by (simp_all add: reply_def)
  have "sql_inv n db'" unfolding db' using sql_inv_create_subnet [OF assms(2)] by simp
  from sqlite_reliable.abs_gets(1) [OF assms(1) this]
  have "sql_get_subnet E ?i db' = mem_get_subnet ?i (schema_apply (CreateSubnet s) (sql_abs db))"
    unfolding db' sqlite_reliable.abs_admin(1) [OF assms(1,2)] .
  moreover have "accepts (sql_abs db) (CreateSubnet s)"
    using False subnets_overlap_refl by (auto simp: subnet_cidr_def)
  moreover have "sr_id r \<noteq> ?i" if "r \<in> set (q_subnets db)" for r
    using assms(2) that table_ok_fresh [of "\<lambda>r. Some (sr_id r)" "Suc n" "q_subnets db" ?i r]
    by (simp add: sql_inv_def sql_ids_def)
  then have "List.find (\<lambda>s. s_id s = Some ?i) (map row_to_subnet (q_subnets db)) = None"
    by (auto simp: find_None_iff)
  ultimately have "sql_get_subnet E ?i db' = Inr (Some (s\<lparr> s_id := Some ?i \<rparr>))"
    by (simp add: schema_apply_def mem_create_subnet_def mem_get_subnet_def Let_def find_append del: accepts.simps)
  moreover have "cli_main S J fmt_time url (CmdSubnet (SubnetCreate network netmask gateway dns_servers domain_name)) =
      Inr [''Created subnet with ID: '' @ dec_int ?i]"
    using assms(3,5,6) res
    by (simp add: cli_main_def subnet_create_def client_post_def exchange_def conflict_message_def respond_def
        is_success_def json_or_null_def)
  ultimately show ?thesis using False by auto
qed

lemma unary_id: "unary_json (IdBody i) \<noteq> [] \<and> de_id unary_decoders (unary_json (IdBody i)) = Inr i"
  by (simp add: unary_decoders_def)

theorem cli_create_subnet_witness:
  "\<exists>i. cli_main (fixed_stack (Inr \<lparr> rs_status = 201, rs_body = Inr (unary_json (IdBody 1)) \<rparr>)) unary_decoders (\<lambda>_. None) None
     (CmdSubnet (SubnetCreate (ipv4_to_string 0xC0A80100) 24 (ipv4_to_string 0xC0A80101) (ipv4_to_string 0x08080808) None)) =
     Inr [''Created subnet with ID: '' @ dec_int i] \<and>
   sql_get_subnet plain_env i (snd (create_subnet (sqlite_database plain_env) (lab_subnet\<lparr> s_id := None \<rparr>) sqlite_new)) =
     Inr (Some (lab_subnet\<lparr> s_id := Some i \<rparr>))"
proof -
  let ?s = "lab_subnet\<lparr> s_id := None \<rparr>"
  let ?S = "fixed_stack (Inr \<lparr> rs_status = 201, rs_body = Inr (unary_json (IdBody 1)) \<rparr>)"
  have inv: "sql_inv (Suc 0) sqlite_new" by (rule sql_inv_new) (simp add: i64_max_def)
  have args: "subnet_of_args (ipv4_to_string 0xC0A80100) 24 (ipv4_to_string 0xC0A80101) (ipv4_to_string 0x08080808) None = Inr ?s"
    by (simp add: subnet_of_args_def or_bad_def split_on_clean comma_notin_ipv4 lab_subnet_def)
  have "fst (create_subnet (sqlite_database plain_env) ?s sqlite_new) = Inr (CREATED, 1)"
    unfolding create_subnet_sqlite [OF plain.sqlite_reliable_axioms inv] by (simp add: sqlite_new_def)
  then have "route (sqlite_database plain_env) ra_default 0 [] (Inl []) (PostSubnet ?s) sqlite_new =
      (Inr (CREATED, IdBody 1), snd (create_subnet (sqlite_database plain_env) ?s sqlite_new))"
    by (cases "create_subnet (sqlite_database plain_env) ?s sqlite_new") (simp add: reply_def)
  from cli_create_subnet [OF plain.sqlite_reliable_axioms inv args this, of ?S None unary_json unary_decoders "\<lambda>_. None"]
    unary_id show ?thesis
    by (simp add: exchange_fixed respond_def sqlite_new_def)
qed

end
