(* ===== verification/Api_Routes.thy ===== *)
theory Api_Routes
  imports Cli_Theorems
begin

text \<open>
  The table of routes (\<open>handlers/mod.rs\<close>) and the documentation of the interface (the OpenAPI
  attributes of the handlers and \<open>ApiDoc\<close> in \<open>lib.rs\<close>) as data. A path of the table captures a
  segment in braces; \<open>instance_of\<close> is what the documentation of axum promises of such a path.
\<close>

section \<open>The table\<close>

datatype api_handler =
    H_list_subnets | H_create_subnet | H_get_subnet | H_update_subnet | H_delete_subnet
  | H_list_ranges | H_create_range | H_delete_range
  | H_list_static_ips | H_create_static_ip | H_delete_static_ip | H_update_static_ip_hostname
  | H_list_leases
  | H_list_tokens | H_create_token | H_delete_token | H_toggle_token
  | H_list_ia_prefixes | H_create_ia_prefix | H_get_ia_prefix | H_update_ia_prefix | H_delete_ia_prefix
  | H_health_check

definition route_table :: "(string \<times> http_method \<times> api_handler) list" where
  "route_table =
     [(''/api/subnets'', GET, H_list_subnets),
      (''/api/subnets'', POST, H_create_subnet),
      (''/api/subnets/{id}'', GET, H_get_subnet),
      (''/api/subnets/{id}'', PUT, H_update_subnet),
      (''/api/subnets/{id}'', DELETE, H_delete_subnet),
      (''/api/ranges'', GET, H_list_ranges),
      (''/api/ranges'', POST, H_create_range),
      (''/api/ranges/{id}'', DELETE, H_delete_range),
      (''/api/static-ips'', GET, H_list_static_ips),
      (''/api/static-ips'', POST, H_create_static_ip),
      (''/api/static-ips/{ip}'', DELETE, H_delete_static_ip),
      (''/api/static-ips/{ip}/hostname'', PATCH, H_update_static_ip_hostname),
      (''/api/leases'', GET, H_list_leases),
      (''/api/tokens'', GET, H_list_tokens),
      (''/api/tokens'', POST, H_create_token),
      (''/api/tokens/{id}'', DELETE, H_delete_token),
      (''/api/tokens/{id}/toggle'', PATCH, H_toggle_token),
      (''/api/ia-prefixes'', GET, H_list_ia_prefixes),
      (''/api/ia-prefixes'', POST, H_create_ia_prefix),
      (''/api/ia-prefixes/{id}'', GET, H_get_ia_prefix),
      (''/api/ia-prefixes/{id}'', PUT, H_update_ia_prefix),
      (''/api/ia-prefixes/{id}'', DELETE, H_delete_ia_prefix),
      (''/health'', GET, H_health_check)]"

section \<open>The documentation\<close>

definition api_doc_paths :: "api_handler list" where
  "api_doc_paths =
     [H_list_subnets, H_create_subnet, H_get_subnet, H_update_subnet, H_delete_subnet,
      H_list_ranges, H_create_range, H_delete_range,
      H_list_static_ips, H_create_static_ip, H_delete_static_ip, H_update_static_ip_hostname,
      H_list_leases,
      H_list_tokens, H_create_token, H_delete_token, H_toggle_token,
      H_list_ia_prefixes, H_create_ia_prefix, H_get_ia_prefix, H_update_ia_prefix, H_delete_ia_prefix]"

text \<open>The attribute of a handler: method, path and statuses. The health check has none.\<close>

fun doc_of :: "api_handler \<Rightarrow> (http_method \<times> string \<times> nat list) option" where
  "doc_of H_list_subnets = Some (GET, ''/api/subnets'', [200, 500])"
| "doc_of H_create_subnet = Some (POST, ''/api/subnets'', [201, 400, 409, 500])"
| "doc_of H_get_subnet = Some (GET, ''/api/subnets/{id}'', [200, 404, 500])"
| "doc_of H_update_subnet = Some (PUT, ''/api/subnets/{id}'', [200, 404, 500])"
| "doc_of H_delete_subnet = Some (DELETE, ''/api/subnets/{id}'', [204, 500])"
| "doc_of H_list_ranges = Some (GET, ''/api/ranges'', [200, 500])"
| "doc_of H_create_range = Some (POST, ''/api/ranges'', [201, 400, 500])"
| "doc_of H_delete_range = Some (DELETE, ''/api/ranges/{id}'', [204, 500])"
| "doc_of H_list_static_ips = Some (GET, ''/api/static-ips'', [200, 500])"
| "doc_of H_create_static_ip = Some (POST, ''/api/static-ips'', [201, 400, 409, 500])"
| "doc_of H_delete_static_ip = Some (DELETE, ''/api/static-ips/{ip}'', [204, 500])"
| "doc_of H_update_static_ip_hostname = Some (PATCH, ''/api/static-ips/{ip}/hostname'', [204, 404, 500])"
| "doc_of H_list_leases = Some (GET, ''/api/leases'', [200, 500])"
| "doc_of H_list_tokens = Some (GET, ''/api/tokens'', [200, 500])"
| "doc_of H_create_token = Some (POST, ''/api/tokens'', [201, 400, 409, 500])"
| "doc_of H_delete_token = Some (DELETE, ''/api/tokens/{id}'', [204, 500])"
| "doc_of H_toggle_token = Some (PATCH, ''/api/tokens/{id}/toggle'', [200, 404, 500])"
| "doc_of H_list_ia_prefixes = Some (GET, ''/api/ia-prefixes'', [200, 500])"
| "doc_of H_create_ia_prefix = Some (POST, ''/api/ia-prefixes'', [201, 400, 500])"
| "doc_of H_get_ia_prefix = Some (GET, ''/api/ia-prefixes/{id}'', [200, 404, 500])"
| "doc_of H_update_ia_prefix = Some (PUT, ''/api/ia-prefixes/{id}'', [200, 404, 500])"
| "doc_of H_delete_ia_prefix = Some (DELETE, ''/api/ia-prefixes/{id}'', [204, 500])"
| "doc_of H_health_check = None"

section \<open>Requests\<close>

fun handler_of :: "api_request \<Rightarrow> api_handler" where
  "handler_of ListSubnets = H_list_subnets"
| "handler_of (PostSubnet _) = H_create_subnet"
| "handler_of (GetSubnet _) = H_get_subnet"
| "handler_of (PutSubnet _ _) = H_update_subnet"
| "handler_of (DelSubnet _) = H_delete_subnet"
| "handler_of (ListRanges _) = H_list_ranges"
| "handler_of (PostRange _) = H_create_range"
| "handler_of (DelRange _) = H_delete_range"
| "handler_of (ListStaticIps _) = H_list_static_ips"
| "handler_of (PostStaticIp _) = H_create_static_ip"
| "handler_of (DelStaticIp _) = H_delete_static_ip"
| "handler_of (PatchHostname _ _) = H_update_static_ip_hostname"
| "handler_of ListLeases = H_list_leases"
| "handler_of ListTokens = H_list_tokens"
| "handler_of (PostToken _) = H_create_token"
| "handler_of (DelToken _) = H_delete_token"
| "handler_of (PatchToggle _) = H_toggle_token"
| "handler_of (ListPrefixes _) = H_list_ia_prefixes"
| "handler_of (PostPrefix _) = H_create_ia_prefix"
| "handler_of (GetPrefix _) = H_get_ia_prefix"
| "handler_of (PutPrefix _ _) = H_update_ia_prefix"
| "handler_of (DelPrefix _) = H_delete_ia_prefix"
| "handler_of Health = H_health_check"

definition answer_status :: "api_error + status_code \<times> api_body \<Rightarrow> nat" where
  "answer_status r = status_number (case r of Inl (s, _) \<Rightarrow> s | Inr (s, _) \<Rightarrow> s)"

definition instance_of :: "string \<Rightarrow> string \<Rightarrow> bool" where
  "instance_of pat path \<longleftrightarrow>
     list_all2 (\<lambda>p s. if take 1 p = ''{'' then s \<noteq> [] else p = s) (split_on (CHR ''/'') pat) (split_on (CHR ''/'') path)"

definition path_of :: "string \<Rightarrow> string" where
  "path_of uri = takeWhile (\<lambda>c. c \<noteq> CHR ''?'') uri"

text \<open>Requests whose captured texts are one segment: the other captures are numbers.\<close>

fun one_segment :: "api_request \<Rightarrow> bool" where
  "one_segment (DelStaticIp ip) \<longleftrightarrow> ip \<noteq> [] \<and> CHR ''/'' \<notin> set ip \<and> CHR ''?'' \<notin> set ip"
| "one_segment (PatchHostname ip _) \<longleftrightarrow> ip \<noteq> [] \<and> CHR ''/'' \<notin> set ip \<and> CHR ''?'' \<notin> set ip"
| "one_segment _ \<longleftrightarrow> True"

section \<open>Lemmas\<close>

lemma dec_nat_notin: "(of_char c :: nat) \<notin> {48..57} \<Longrightarrow> c \<notin> set (dec_nat n)"
proof (induction n rule: dec_nat.induct)
  case (1 n)
  have "hex_digit d \<noteq> c" if "d < 10" for d using 1(2) hex_digit_of_char [of d] that by auto
  from this [of n] this [of "n mod 10"] 1 show ?case by (cases "n < 10") (auto simp: dec_nat.simps [of n])
qed

lemma dec_int_segment [simp]:
  "dec_int i \<noteq> []" "CHR ''/'' \<notin> set (dec_int i)" "CHR ''?'' \<notin> set (dec_int i)"
proof -
  obtain d cs where "dec_nat (nat i) = hex_digit d # cs" using dec_nat_hd by blast
  then show "dec_int i \<noteq> []" by (simp add: dec_int_def)
qed (simp_all add: dec_int_def dec_nat_notin)

lemma takeWhile_query:
  "CHR ''?'' \<notin> set s \<Longrightarrow> takeWhile (\<lambda>c. c \<noteq> CHR ''?'') (s @ t) = s @ takeWhile (\<lambda>c. c \<noteq> CHR ''?'') t"
  "CHR ''?'' \<notin> set s \<Longrightarrow> takeWhile (\<lambda>c. c \<noteq> CHR ''?'') s = s"
  by (induction s) auto

text \<open>The path of a request without its query, cut into segments.\<close>

definition path_segments :: "string \<Rightarrow> string list" where
  "path_segments uri = split_on (CHR ''/'') (path_of uri)"

fun request_segments :: "api_request \<Rightarrow> string list" where
  "request_segments ListSubnets = [[], ''api'', ''subnets'']"
| "request_segments (PostSubnet _) = [[], ''api'', ''subnets'']"
| "request_segments (GetSubnet i) = [[], ''api'', ''subnets'', dec_int i]"
| "request_segments (PutSubnet i _) = [[], ''api'', ''subnets'', dec_int i]"
| "request_segments (DelSubnet i) = [[], ''api'', ''subnets'', dec_int i]"
| "request_segments (ListRanges _) = [[], ''api'', ''ranges'']"
| "request_segments (PostRange _) = [[], ''api'', ''ranges'']"
| "request_segments (DelRange i) = [[], ''api'', ''ranges'', dec_int i]"
| "request_segments (ListStaticIps _) = [[], ''api'', ''static-ips'']"
| "request_segments (PostStaticIp _) = [[], ''api'', ''static-ips'']"
| "request_segments (DelStaticIp ip) = [[], ''api'', ''static-ips'', ip]"
| "request_segments (PatchHostname ip _) = [[], ''api'', ''static-ips'', ip, ''hostname'']"
| "request_segments ListLeases = [[], ''api'', ''leases'']"
| "request_segments ListTokens = [[], ''api'', ''tokens'']"
| "request_segments (PostToken _) = [[], ''api'', ''tokens'']"
| "request_segments (DelToken i) = [[], ''api'', ''tokens'', dec_int i]"
| "request_segments (PatchToggle i) = [[], ''api'', ''tokens'', dec_int i, ''toggle'']"
| "request_segments (ListPrefixes _) = [[], ''api'', ''ia-prefixes'']"
| "request_segments (PostPrefix _) = [[], ''api'', ''ia-prefixes'']"
| "request_segments (GetPrefix i) = [[], ''api'', ''ia-prefixes'', dec_int i]"
| "request_segments (PutPrefix i _) = [[], ''api'', ''ia-prefixes'', dec_int i]"
| "request_segments (DelPrefix i) = [[], ''api'', ''ia-prefixes'', dec_int i]"
| "request_segments Health = [[], ''health'']"

lemma path_segments_request: "one_segment req \<Longrightarrow> path_segments (snd (request_line req)) = request_segments req"
proof (cases req)
  case (ListRanges i)
  then show ?thesis by (cases i) (simp_all add: path_segments_def path_of_def)
next
  case (ListStaticIps i)
  then show ?thesis by (cases i) (simp_all add: path_segments_def path_of_def)
next
  case (ListPrefixes i)
  then show ?thesis by (cases i) (simp_all add: path_segments_def path_of_def)
qed (simp_all add: path_segments_def path_of_def takeWhile_query split_on_clean split_on_append)

lemma list_request_method [simp]:
  "fst (request_line (ListRanges x)) = GET" "fst (request_line (ListStaticIps x)) = GET"
  "fst (request_line (ListPrefixes y)) = GET"
  by (cases x; simp)+ (cases y; simp)

lemma instance_of_path:
  "instance_of pat (path_of uri) \<longleftrightarrow>
     list_all2 (\<lambda>p s. if take 1 p = ''{'' then s \<noteq> [] else p = s) (split_on (CHR ''/'') pat) (path_segments uri)"
  by (simp add: instance_of_def path_segments_def)

section \<open>Properties\<close>

text \<open>
  C29. The documentation and the router agree: no two routes have the same path and method, so
  that the router can be built; every documented operation is routed at its documented path and
  method to its handler, every route but the health check is documented; and whatever the
  database does, the answer of a handler has a status that its documentation lists.
\<close>

theorem api_documented:
  "distinct (map (\<lambda>(path, meth, h). (path, meth)) route_table) \<and>
   (\<forall>h. h \<in> set api_doc_paths \<longleftrightarrow> doc_of h \<noteq> None) \<and>
   (\<forall>path meth h. (path, meth, h) \<in> set route_table \<longleftrightarrow>
      (\<exists>sts. doc_of h = Some (meth, path, sts)) \<or> h = H_health_check \<and> path = ''/health'' \<and> meth = GET) \<and>
   (case doc_of (handler_of req) of
      None \<Rightarrow> handler_of req = H_health_check
    | Some (meth, path, sts) \<Rightarrow> answer_status (fst (route D cfg now tok hashed req db)) \<in> set sts)"
proof (intro conjI allI)
  show "distinct (map (\<lambda>(path, meth, h). (path, meth)) route_table)" by code_simp
  show "h \<in> set api_doc_paths \<longleftrightarrow> doc_of h \<noteq> None" for h by (cases h) (simp_all add: api_doc_paths_def)
  show "(path, meth, h) \<in> set route_table \<longleftrightarrow>
      (\<exists>sts. doc_of h = Some (meth, path, sts)) \<or> h = H_health_check \<and> path = ''/health'' \<and> meth = GET" for path meth h
    by (cases h) (auto simp: route_table_def)
  show "case doc_of (handler_of req) of
      None \<Rightarrow> handler_of req = H_health_check
    | Some (meth, path, sts) \<Rightarrow> answer_status (fst (route D cfg now tok hashed req db)) \<in> set sts"
    by (cases req)
      (auto simp: handler_defs list_subnets_def get_subnet_def list_ranges_def list_static_ips_def
        list_leases_def list_tokens_def list_ia_prefixes_def get_ia_prefix_def reply_def or_500_def
        or_conflict_def ok_or_404_def answer_status_def split: sum.split prod.split option.split)
qed

text \<open>The documentation lists 404 for three operations that never answer it.\<close>

theorem updates_never_404:
  "\<forall>req\<in>{PutSubnet i s, PutPrefix i p, PatchHostname ip hostname}.
     answer_status (fst (route D cfg now tok hashed req db)) \<noteq> 404 \<and>
     (\<exists>meth path sts. doc_of (handler_of req) = Some (meth, path, sts) \<and> 404 \<in> set sts)"
  by (simp add: handler_defs reply_def or_500_def answer_status_def split: sum.split prod.split)

text \<open>
  Every request has one route: for a request as the command line tool sends it, the router has
  a route with its method and a path of which the request's is an instance, to the handler the
  request stands for, and no other route of the table fits it.
\<close>

theorem requests_routed:
  assumes "one_segment req"
  shows "\<exists>pat. (pat, fst (request_line req), handler_of req) \<in> set route_table \<and>
      instance_of pat (path_of (snd (request_line req))) \<and>
      (\<forall>pat' h. (pat', fst (request_line req), h) \<in> set route_table \<longrightarrow>
         instance_of pat' (path_of (snd (request_line req))) \<longrightarrow> pat' = pat \<and> h = handler_of req)"
proof -
  show ?thesis
    unfolding instance_of_path path_segments_request [OF assms]
    using assms by (cases req) (auto simp: route_table_def)
qed

theorem requests_routed_witness:
  "\<exists>pat. (pat, DELETE, H_delete_static_ip) \<in> set route_table \<and> instance_of pat ''/api/static-ips/10.0.0.1''"
  using requests_routed [of "DelStaticIp ''10.0.0.1''"] by (auto simp: path_of_def)

text \<open>And the number in a path is read back as it was written.\<close>

theorem captured_id_read_back:
  "- (2 ^ 63) \<le> i \<Longrightarrow> i < 2 ^ 63 \<Longrightarrow> i64_from_str (last (request_segments (GetSubnet i))) = Some i"
  by (simp add: i64_from_str_dec_int)

end
