(* ===== verification/Suite_Api.thy ===== *)
theory Suite_Api
  imports Api_Routes
begin

text \<open>
  The repository's tests of the router (\<open>handlers/mod.rs\<close>), on the in-memory database. A request
  without a body is matched against the table of routes; no route is the status 404. The tests
  send requests to routes without a captured segment only.
\<close>

definition create_router ::
  "'db database \<Rightarrow> ra_config \<Rightarrow> (string \<Rightarrow> string \<Rightarrow> string + bool) \<Rightarrow> i64 \<Rightarrow> string \<Rightarrow>
   (string + string \<times> string) \<Rightarrow> connection_type option \<Rightarrow> string option \<Rightarrow> api_request \<Rightarrow> 'db \<Rightarrow>
   'db api_result" where
  "create_router D cfg verify = create_router_with_auth D cfg verify False"

definition matched_route :: "http_method \<Rightarrow> string \<Rightarrow> api_handler option" where
  "matched_route meth uri =
     map_option (\<lambda>(_, _, h). h)
       (List.find (\<lambda>(pat, m, h). m = meth \<and> instance_of pat (path_of uri)) route_table)"

text \<open>The extractors on a request without a query: an optional field of the query is absent.\<close>

fun bare_request :: "api_handler \<Rightarrow> api_request option" where
  "bare_request H_list_subnets = Some ListSubnets"
| "bare_request H_list_ranges = Some (ListRanges None)"
| "bare_request H_list_static_ips = Some (ListStaticIps None)"
| "bare_request H_list_leases = Some ListLeases"
| "bare_request H_list_tokens = Some ListTokens"
| "bare_request H_list_ia_prefixes = Some (ListPrefixes None)"
| "bare_request H_health_check = Some Health"
| "bare_request _ = None"

definition send ::
  "(api_request \<Rightarrow> memory_db \<Rightarrow> memory_db api_result) \<Rightarrow> http_method \<Rightarrow> string \<Rightarrow> nat option" where
  "send router meth uri =
     (case matched_route meth uri of
        None \<Rightarrow> Some 404
      | Some h \<Rightarrow> map_option (\<lambda>req. answer_status (fst (router req mem_new))) (bare_request h))"

text \<open>A request that carries no \<open>Authorization\<close> header and no type of connection.\<close>

definition suite_router :: "(string \<Rightarrow> string \<Rightarrow> string + bool) \<Rightarrow> bool \<Rightarrow> api_request \<Rightarrow> memory_db \<Rightarrow> memory_db api_result" where
  "suite_router verify require_auth =
     create_router_with_auth memory_database ra_default verify require_auth 10000 [] (Inl []) None None"

definition test_health_check :: "(string \<Rightarrow> string \<Rightarrow> string + bool) \<Rightarrow> bool" where
  "test_health_check verify \<longleftrightarrow>
     send (create_router memory_database ra_default verify 10000 [] (Inl []) None None) GET ''/health'' = Some 200"

definition collection_uris :: "string list" where
  "collection_uris = [''/api/subnets'', ''/api/ranges'', ''/api/static-ips'', ''/api/leases'', ''/api/tokens'',
     ''/api/ia-prefixes'']"

definition test_routes_reachable_without_auth :: "(string \<Rightarrow> string \<Rightarrow> string + bool) \<Rightarrow> bool" where
  "test_routes_reachable_without_auth verify \<longleftrightarrow>
     list_all (\<lambda>uri. send (suite_router verify False) GET uri \<noteq> Some 404) collection_uris"

definition test_routes_require_auth_when_enabled :: "(string \<Rightarrow> string \<Rightarrow> string + bool) \<Rightarrow> bool" where
  "test_routes_require_auth_when_enabled verify \<longleftrightarrow>
     list_all (\<lambda>uri. send (suite_router verify True) GET uri = Some 401) collection_uris"

lemma matched_collections:
  "matched_route GET ''/health'' = Some H_health_check"
  "matched_route GET ''/api/subnets'' = Some H_list_subnets" "matched_route GET ''/api/ranges'' = Some H_list_ranges"
  "matched_route GET ''/api/static-ips'' = Some H_list_static_ips" "matched_route GET ''/api/leases'' = Some H_list_leases"
  "matched_route GET ''/api/tokens'' = Some H_list_tokens"
  "matched_route GET ''/api/ia-prefixes'' = Some H_list_ia_prefixes"
  by code_simp+

text \<open>
  The router passes the repository's tests with any verifier of tokens: the health check
  answers 200, every collection is reachable without authentication (and, beyond the test,
  answers 200 on an empty database), and every collection answers 401 when authentication is
  required and no header is sent.
\<close>

theorem router_suite_passes:
  "test_health_check verify \<and> test_routes_reachable_without_auth verify \<and>
   list_all (\<lambda>uri. send (suite_router verify False) GET uri = Some 200) collection_uris \<and>
   test_routes_require_auth_when_enabled verify"
  by (simp add: test_health_check_def test_routes_reachable_without_auth_def test_routes_require_auth_when_enabled_def
      collection_uris_def send_def matched_collections suite_router_def create_router_def create_router_with_auth_def
      auth_middleware_def answer_status_def health_check_def list_subnets_def list_ranges_def list_static_ips_def
      list_leases_def list_tokens_def list_ia_prefixes_def reply_def or_500_def mem_read_defs mem_new_def)

end
