(* ===== verification/Suite_Db.thy ===== *)
theory Suite_Db
  imports Sqlite_Store
begin

text \<open>
  The repository's test suite for databases (\<open>db/tests.rs\<close>), run on the models: a test takes an
  implementation and its state, and gives the state after it, or \<open>None\<close> where the test would
  panic (an \<open>unwrap\<close> of an error or an assertion that does not hold). The clock reads \<open>t\<close>
  throughout.
\<close>

section \<open>Test data\<close>

definition ipv4_new :: "u8 \<Rightarrow> u8 \<Rightarrow> u8 \<Rightarrow> u8 \<Rightarrow> ipv4" where
  "ipv4_new a b c d = of_be32 a b c d"

definition suite_subnet :: "u8 \<Rightarrow> subnet" where
  "suite_subnet third_octet = \<lparr> s_id = None, s_network = ipv4_new 10 0 third_octet 0, s_netmask = 24,
     s_gateway = ipv4_new 10 0 third_octet 1, s_dns_servers = [ipv4_new 8 8 8 8], s_domain_name = Some ''local'' \<rparr>"

definition suite_range :: "i64 \<Rightarrow> u8 \<Rightarrow> dynamic_range" where
  "suite_range subnet_id third_octet = \<lparr> r_id = None, r_subnet_id = subnet_id,
     r_range_start = ipv4_new 10 0 third_octet 100, r_range_end = ipv4_new 10 0 third_octet 200, r_enabled = True \<rparr>"

definition suite_static_ip :: "i64 \<Rightarrow> string \<Rightarrow> u8 \<Rightarrow> static_ip" where
  "suite_static_ip subnet_id mac_suffix third_octet = \<lparr> st_subnet_id = subnet_id,
     st_mac_address = ''aa:bb:cc:dd:ee:'' @ mac_suffix, st_ip_address = ipv4_new 10 0 third_octet 50,
     st_hostname = Some ''test-host'' \<rparr>"

definition suite_active_lease :: "i64 \<Rightarrow> i64 \<Rightarrow> string \<Rightarrow> u8 \<Rightarrow> lease" where
  "suite_active_lease now subnet_id mac_suffix third_octet = \<lparr> l_id = None, l_subnet_id = subnet_id,
     l_mac_address = ''aa:bb:cc:dd:ee:'' @ mac_suffix, l_ip_address = ipv4_new 10 0 third_octet 80,
     l_lease_start = now, l_lease_end = i64_add now 3600, l_hostname = Some ''test-host'' \<rparr>"

definition ipv6_new :: "16 word list \<Rightarrow> ipv6" where
  "ipv6_new ws = of_segments ws"

definition suite_ia_prefix :: "string \<Rightarrow> 16 word \<Rightarrow> ia_prefix" where
  "suite_ia_prefix iface prefix_group = \<lparr> p_id = None, p_interface = iface,
     p_prefix = ipv6_new [0x2001, 0xdb8, prefix_group, 0, 0, 0, 0, 0], p_prefix_len = 64,
     p_preferred_lifetime = 86400, p_valid_lifetime = 2592000,
     p_dns_servers = [ipv6_new [0x2001, 0xdb8, prefix_group, 0, 0, 0, 0, 1]], p_dns_lifetime = 3600 \<rparr>"

section \<open>Results and assertions\<close>

definition unwrap :: "(db_error + 'a) \<times> 'db \<Rightarrow> ('a \<Rightarrow> 'db \<Rightarrow> 'db option) \<Rightarrow> 'db option" where
  "unwrap r k = (case r of (Inl _, _) \<Rightarrow> None | (Inr x, db) \<Rightarrow> k x db)"

definition read_unwrap :: "db_error + 'a \<Rightarrow> ('a \<Rightarrow> 'db option) \<Rightarrow> 'db option" where
  "read_unwrap r k = (case r of Inl _ \<Rightarrow> None | Inr x \<Rightarrow> k x)"

definition expect :: "'a option \<Rightarrow> ('a \<Rightarrow> 'db option) \<Rightarrow> 'db option" where
  "expect r k = (case r of None \<Rightarrow> None | Some x \<Rightarrow> k x)"

definition assert :: "bool \<Rightarrow> 'db option \<Rightarrow> 'db option" where
  "assert b k = (if b then k else None)"

lemmas suite_results = unwrap_def read_unwrap_def expect_def assert_def

section \<open>Subnets\<close>

definition test_create_and_get_subnet :: "'db database \<Rightarrow> 'db \<Rightarrow> 'db option" where
  "test_create_and_get_subnet D db =
     unwrap (db_create_subnet D (suite_subnet 1) db) (\<lambda>i db.
     assert (0 < i) (
     read_unwrap (db_get_subnet D i db) (\<lambda>got.
     expect got (\<lambda>got.
     assert (s_id got = Some i \<and> s_network got = ipv4_new 10 0 1 0 \<and> s_netmask got = 24 \<and>
       s_gateway got = ipv4_new 10 0 1 1 \<and> s_dns_servers got = [ipv4_new 8 8 8 8] \<and>
       s_domain_name got = Some ''local'') (Some db)))))"

definition test_list_subnets :: "'db database \<Rightarrow> 'db \<Rightarrow> 'db option" where
  "test_list_subnets D db =
     unwrap (db_create_subnet D (suite_subnet 2) db) (\<lambda>_ db.
     unwrap (db_create_subnet D (suite_subnet 3) db) (\<lambda>_ db.
     read_unwrap (db_list_subnets D db) (\<lambda>lst.
     assert (2 \<le> length lst) (Some db))))"

definition test_update_subnet :: "'db database \<Rightarrow> 'db \<Rightarrow> 'db option" where
  "test_update_subnet D db =
     unwrap (db_create_subnet D (suite_subnet 4) db) (\<lambda>i db.
     unwrap (db_update_subnet D i ((suite_subnet 4)\<lparr> s_netmask := 16 \<rparr>) db) (\<lambda>_ db.
     read_unwrap (db_get_subnet D i db) (\<lambda>got.
     expect got (\<lambda>got.
     assert (s_netmask got = 16) (Some db)))))"

definition test_delete_subnet :: "'db database \<Rightarrow> 'db \<Rightarrow> 'db option" where
  "test_delete_subnet D db =
     unwrap (db_create_subnet D (suite_subnet 5) db) (\<lambda>i db.
     unwrap (db_delete_subnet D i db) (\<lambda>_ db.
     read_unwrap (db_get_subnet D i db) (\<lambda>got.
     assert (Option.is_none got) (Some db))))"

definition test_get_subnet_not_found :: "'db database \<Rightarrow> 'db \<Rightarrow> 'db option" where
  "test_get_subnet_not_found D db =
     read_unwrap (db_get_subnet D 99999 db) (\<lambda>got.
     assert (Option.is_none got) (Some db))"

section \<open>Dynamic ranges\<close>

definition test_create_and_list_range :: "'db database \<Rightarrow> 'db \<Rightarrow> 'db option" where
  "test_create_and_list_range D db =
     unwrap (db_create_subnet D (suite_subnet 10) db) (\<lambda>sid db.
     unwrap (db_create_range D (suite_range sid 10) db) (\<lambda>i db.
     assert (0 < i) (
     read_unwrap (db_list_ranges D (Some sid) db) (\<lambda>ranges.
     assert (length ranges = 1 \<and> r_subnet_id (hd ranges) = sid \<and>
       r_range_start (hd ranges) = ipv4_new 10 0 10 100 \<and> r_range_end (hd ranges) = ipv4_new 10 0 10 200)
       (Some db)))))"

definition test_list_ranges_all :: "'db database \<Rightarrow> 'db \<Rightarrow> 'db option" where
  "test_list_ranges_all D db =
     unwrap (db_create_subnet D (suite_subnet 11) db) (\<lambda>sid1 db.
     unwrap (db_create_subnet D (suite_subnet 12) db) (\<lambda>sid2 db.
     unwrap (db_create_range D (suite_range sid1 11) db) (\<lambda>_ db.
     unwrap (db_create_range D (suite_range sid2 12) db) (\<lambda>_ db.
     read_unwrap (db_list_ranges D None db) (\<lambda>al.
     assert (2 \<le> length al) (Some db))))))"

definition test_delete_range :: "'db database \<Rightarrow> 'db \<Rightarrow> 'db option" where
  "test_delete_range D db =
     unwrap (db_create_subnet D (suite_subnet 13) db) (\<lambda>sid db.
     unwrap (db_create_range D (suite_range sid 13) db) (\<lambda>range_id db.
     unwrap (db_delete_range D range_id db) (\<lambda>_ db.
     read_unwrap (db_list_ranges D (Some sid) db) (\<lambda>ranges.
     assert (list_all (\<lambda>r. r_id r \<noteq> Some range_id) ranges) (Some db)))))"

section \<open>Static assignments\<close>

definition test_create_and_list_static_ip :: "'db database \<Rightarrow> 'db \<Rightarrow> 'db option" where
  "test_create_and_list_static_ip D db =
     unwrap (db_create_subnet D (suite_subnet 20) db) (\<lambda>sid db.
     unwrap (db_create_static_ip D (suite_static_ip sid ''01'' 20) db) (\<lambda>_ db.
     read_unwrap (db_list_static_ips D (Some sid) db) (\<lambda>ips.
     assert (length ips = 1 \<and> st_mac_address (hd ips) = ''aa:bb:cc:dd:ee:01'' \<and>
       st_ip_address (hd ips) = ipv4_new 10 0 20 50) (Some db))))"

definition test_get_static_ip_by_mac :: "'db database \<Rightarrow> 'db \<Rightarrow> 'db option" where
  "test_get_static_ip_by_mac D db =
     unwrap (db_create_subnet D (suite_subnet 21) db) (\<lambda>sid db.
     unwrap (db_create_static_ip D (suite_static_ip sid ''02'' 21) db) (\<lambda>_ db.
     read_unwrap (db_get_static_ip_by_mac D ''aa:bb:cc:dd:ee:02'' db) (\<lambda>result.
     expect result (\<lambda>result.
     assert (st_ip_address result = ipv4_new 10 0 21 50) (Some db)))))"

definition test_get_static_ip_by_mac_not_found :: "'db database \<Rightarrow> 'db \<Rightarrow> 'db option" where
  "test_get_static_ip_by_mac_not_found D db =
     read_unwrap (db_get_static_ip_by_mac D ''00:00:00:00:00:00'' db) (\<lambda>result.
     assert (Option.is_none result) (Some db))"

definition test_delete_static_ip :: "'db database \<Rightarrow> 'db \<Rightarrow> 'db option" where
  "test_delete_static_ip D db =
     unwrap (db_create_subnet D (suite_subnet 22) db) (\<lambda>sid db.
     (let sip = suite_static_ip sid ''03'' 22; ip_str = ipv4_to_string (st_ip_address sip) in
     unwrap (db_create_static_ip D sip db) (\<lambda>_ db.
     unwrap (db_delete_static_ip D ip_str db) (\<lambda>_ db.
     read_unwrap (db_list_static_ips D (Some sid) db) (\<lambda>ips.
     assert (list_all (\<lambda>s. ipv4_to_string (st_ip_address s) \<noteq> ip_str) ips) (Some db))))))"

section \<open>Leases\<close>

definition test_create_and_get_active_lease :: "'db database \<Rightarrow> i64 \<Rightarrow> 'db \<Rightarrow> 'db option" where
  "test_create_and_get_active_lease D t db =
     unwrap (db_create_subnet D (suite_subnet 30) db) (\<lambda>sid db.
     unwrap (db_create_lease D (suite_active_lease t sid ''10'' 30) db) (\<lambda>i db.
     assert (0 < i) (
     read_unwrap (db_get_active_lease D t ''aa:bb:cc:dd:ee:10'' db) (\<lambda>lease.
     expect lease (\<lambda>lease.
     assert (l_mac_address lease = ''aa:bb:cc:dd:ee:10'' \<and> l_ip_address lease = ipv4_new 10 0 30 80) (Some db))))))"

definition test_list_active_leases :: "'db database \<Rightarrow> i64 \<Rightarrow> 'db \<Rightarrow> 'db option" where
  "test_list_active_leases D t db =
     unwrap (db_create_subnet D (suite_subnet 31) db) (\<lambda>sid db.
     unwrap (db_create_lease D (suite_active_lease t sid ''11'' 31) db) (\<lambda>_ db.
     read_unwrap (db_list_active_leases D t db) (\<lambda>leases.
     assert (leases \<noteq> []) (Some db))))"

definition test_expire_lease :: "'db database \<Rightarrow> i64 \<Rightarrow> 'db \<Rightarrow> 'db option" where
  "test_expire_lease D t db =
     unwrap (db_create_subnet D (suite_subnet 32) db) (\<lambda>sid db.
     unwrap (db_create_lease D (suite_active_lease t sid ''12'' 32) db) (\<lambda>i db.
     unwrap (db_expire_lease D i db) (\<lambda>_ db.
     read_unwrap (db_get_active_lease D t ''aa:bb:cc:dd:ee:12'' db) (\<lambda>lease.
     assert (Option.is_none lease) (Some db)))))"

definition test_expired_lease_not_returned :: "'db database \<Rightarrow> i64 \<Rightarrow> 'db \<Rightarrow> 'db option" where
  "test_expired_lease_not_returned D t db =
     unwrap (db_create_subnet D (suite_subnet 33) db) (\<lambda>sid db.
     unwrap (db_create_lease D \<lparr> l_id = None, l_subnet_id = sid, l_mac_address = ''aa:bb:cc:dd:ee:13'',
       l_ip_address = ipv4_new 10 0 33 90, l_lease_start = i64_add t (- 7200),
       l_lease_end = i64_add t (- 3600), l_hostname = None \<rparr> db) (\<lambda>_ db.
     read_unwrap (db_get_active_lease D t ''aa:bb:cc:dd:ee:13'' db) (\<lambda>lease.
     assert (Option.is_none lease) (Some db))))"

section \<open>IPv6 prefixes\<close>

definition test_create_and_get_ia_prefix :: "'db database \<Rightarrow> 'db \<Rightarrow> 'db option" where
  "test_create_and_get_ia_prefix D db =
     unwrap (db_create_ia_prefix D (suite_ia_prefix ''iap0'' 1) db) (\<lambda>i db.
     assert (0 < i) (
     read_unwrap (db_get_ia_prefix D i db) (\<lambda>p.
     expect p (\<lambda>p.
     assert (p_id p = Some i \<and> p_interface p = ''iap0'' \<and> p_prefix_len p = 64) (Some db)))))"

definition test_list_ia_prefixes_by_interface :: "'db database \<Rightarrow> 'db \<Rightarrow> 'db option" where
  "test_list_ia_prefixes_by_interface D db =
     unwrap (db_create_ia_prefix D (suite_ia_prefix ''iap1'' 2) db) (\<lambda>_ db.
     unwrap (db_create_ia_prefix D (suite_ia_prefix ''iap2'' 3) db) (\<lambda>_ db.
     read_unwrap (db_list_ia_prefixes D (Some ''iap1'') db) (\<lambda>iap1.
     assert (list_all (\<lambda>p. p_interface p = ''iap1'') iap1) (
     read_unwrap (db_list_ia_prefixes D None db) (\<lambda>al.
     assert (2 \<le> length al) (Some db))))))"

definition test_update_ia_prefix :: "'db database \<Rightarrow> 'db \<Rightarrow> 'db option" where
  "test_update_ia_prefix D db =
     unwrap (db_create_ia_prefix D (suite_ia_prefix ''iap5'' 6) db) (\<lambda>i db.
     unwrap (db_update_ia_prefix D i ((suite_ia_prefix ''iap5'' 6)\<lparr> p_prefix_len := 48 \<rparr>) db) (\<lambda>_ db.
     read_unwrap (db_get_ia_prefix D i db) (\<lambda>p.
     expect p (\<lambda>p.
     assert (p_prefix_len p = 48) (Some db)))))"

definition test_delete_ia_prefix :: "'db database \<Rightarrow> 'db \<Rightarrow> 'db option" where
  "test_delete_ia_prefix D db =
     unwrap (db_create_ia_prefix D (suite_ia_prefix ''iap6'' 7) db) (\<lambda>i db.
     unwrap (db_delete_ia_prefix D i db) (\<lambda>_ db.
     read_unwrap (db_get_ia_prefix D i db) (\<lambda>p.
     assert (Option.is_none p) (Some db))))"

section \<open>Tokens\<close>

definition test_create_and_list_tokens :: "'db database \<Rightarrow> i64 \<Rightarrow> 'db \<Rightarrow> 'db option" where
  "test_create_and_list_tokens D t db =
     unwrap (db_create_token D t ''test-token'' ''hash_tok1'' ''salt_tok1'' db) (\<lambda>i db.
     assert (0 < i) (
     read_unwrap (db_list_tokens D db) (\<lambda>tokens.
     assert (list_ex (\<lambda>(h, _). h = ''hash_tok1'') tokens) (Some db))))"

definition test_list_api_tokens :: "'db database \<Rightarrow> i64 \<Rightarrow> 'db \<Rightarrow> 'db option" where
  "test_list_api_tokens D t db =
     unwrap (db_create_token D t ''my-token'' ''hash_tok2'' ''salt_tok2'' db) (\<lambda>_ db.
     read_unwrap (db_list_api_tokens D db) (\<lambda>tokens.
     assert (list_ex (\<lambda>t. tk_name t = ''my-token'') tokens) (Some db)))"

definition test_delete_token :: "'db database \<Rightarrow> i64 \<Rightarrow> 'db \<Rightarrow> 'db option" where
  "test_delete_token D t db =
     unwrap (db_create_token D t ''to-delete'' ''hash_tok3'' ''salt_tok3'' db) (\<lambda>i db.
     unwrap (db_delete_token D i db) (\<lambda>_ db.
     read_unwrap (db_list_tokens D db) (\<lambda>tokens.
     assert (\<not> list_ex (\<lambda>(h, _). h = ''hash_tok3'') tokens) (Some db))))"

definition test_toggle_token :: "'db database \<Rightarrow> i64 \<Rightarrow> 'db \<Rightarrow> 'db option" where
  "test_toggle_token D t db =
     unwrap (db_create_token D t ''toggle-me'' ''hash_tok4'' ''salt_tok4'' db) (\<lambda>i db.
     unwrap (db_toggle_token D i False db) (\<lambda>_ db.
     read_unwrap (db_list_tokens D db) (\<lambda>tokens.
     assert (\<not> list_ex (\<lambda>(h, _). h = ''hash_tok4'') tokens) (
     unwrap (db_toggle_token D i True db) (\<lambda>_ db.
     read_unwrap (db_list_tokens D db) (\<lambda>tokens.
     assert (list_ex (\<lambda>(h, _). h = ''hash_tok4'') tokens) (Some db)))))))"

definition test_update_token_last_used :: "'db database \<Rightarrow> i64 \<Rightarrow> 'db \<Rightarrow> 'db option" where
  "test_update_token_last_used D t db =
     unwrap (db_create_token D t ''last-used'' ''hash_tok5'' ''salt_tok5'' db) (\<lambda>_ db.
     unwrap (db_update_token_last_used D t ''hash_tok5'' db) (\<lambda>_ db. Some db))"

section \<open>The suite\<close>

definition run_suite :: "('db \<Rightarrow> 'db option) list \<Rightarrow> 'db \<Rightarrow> 'db option" where
  "run_suite tests db = foldl Option.bind (Some db) tests"

definition subnet_suite :: "'db database \<Rightarrow> ('db \<Rightarrow> 'db option) list" where
  "subnet_suite D = [test_create_and_get_subnet D, test_list_subnets D, test_update_subnet D, test_delete_subnet D,
     test_get_subnet_not_found D]"

definition range_suite :: "'db database \<Rightarrow> ('db \<Rightarrow> 'db option) list" where
  "range_suite D = [test_create_and_list_range D, test_list_ranges_all D, test_delete_range D]"

definition static_ip_suite :: "'db database \<Rightarrow> ('db \<Rightarrow> 'db option) list" where
  "static_ip_suite D = [test_create_and_list_static_ip D, test_get_static_ip_by_mac D,
     test_get_static_ip_by_mac_not_found D, test_delete_static_ip D]"

definition lease_suite :: "'db database \<Rightarrow> i64 \<Rightarrow> ('db \<Rightarrow> 'db option) list" where
  "lease_suite D t = [test_create_and_get_active_lease D t, test_list_active_leases D t, test_expire_lease D t,
     test_expired_lease_not_returned D t]"

definition ia_prefix_suite :: "'db database \<Rightarrow> ('db \<Rightarrow> 'db option) list" where
  "ia_prefix_suite D = [test_create_and_get_ia_prefix D, test_list_ia_prefixes_by_interface D,
     test_update_ia_prefix D, test_delete_ia_prefix D]"

definition token_suite :: "'db database \<Rightarrow> i64 \<Rightarrow> ('db \<Rightarrow> 'db option) list" where
  "token_suite D t = [test_create_and_list_tokens D t, test_list_api_tokens D t, test_delete_token D t,
     test_toggle_token D t, test_update_token_last_used D t]"

definition run_all :: "'db database \<Rightarrow> i64 \<Rightarrow> 'db \<Rightarrow> 'db option" where
  "run_all D t = run_suite (subnet_suite D @ range_suite D @ static_ip_suite D @ lease_suite D t @
     ia_prefix_suite D @ token_suite D t)"

text \<open>The test modules of the two implementations: the whole suite, then each group on an empty database.\<close>

definition memory_tests :: "i64 \<Rightarrow> memory_db option list" where
  "memory_tests t = (let D = memory_database in
     run_all D t mem_new #
     map (\<lambda>s. run_suite s mem_new)
       [subnet_suite D, range_suite D, static_ip_suite D, lease_suite D t, ia_prefix_suite D, token_suite D t])"

definition sqlite_tests :: "i64 \<Rightarrow> sqlite_db option list" where
  "sqlite_tests t = (let D = sqlite_database plain_env in
     run_all D t sqlite_new #
     map (\<lambda>s. run_suite s sqlite_new)
       [subnet_suite D, range_suite D, static_ip_suite D, lease_suite D t, ia_prefix_suite D, token_suite D t])"

section \<open>The models pass it\<close>

lemma stored_row_fields [simp]:
  "subnet_key (subnet_to_row i s) = (ipv4_to_string (s_network s), uint (s_netmask s))"
  "lr_lease_end (lease_to_row i l) = l_lease_end l" "lr_mac_address (lease_to_row i l) = l_mac_address l"
  "lr_lease_start (lease_to_row i l) = l_lease_start l" "pr_interface (prefix_to_row i p) = p_interface p"
  by (simp_all add: subnet_key_def subnet_to_row_def lease_to_row_def prefix_to_row_def)

lemmas suite_defs = suite_subnet_def
  run_all_def run_suite_def suite_results ipv4_new_def of_be32_def Let_def ia_prefix_suite_def
  lease_suite_def range_suite_def static_ip_suite_def subnet_suite_def suite_active_lease_def
  suite_ia_prefix_def suite_range_def suite_static_ip_def test_create_and_get_active_lease_def
  test_create_and_get_ia_prefix_def test_create_and_get_subnet_def test_create_and_list_range_def
  test_create_and_list_static_ip_def test_create_and_list_tokens_def test_delete_ia_prefix_def
  test_delete_range_def test_delete_static_ip_def test_delete_subnet_def test_delete_token_def
  test_expire_lease_def test_expired_lease_not_returned_def test_get_static_ip_by_mac_def
  test_get_static_ip_by_mac_not_found_def test_get_subnet_not_found_def test_list_active_leases_def
  test_list_api_tokens_def test_list_ia_prefixes_by_interface_def test_list_ranges_all_def
  test_list_subnets_def test_toggle_token_def test_update_ia_prefix_def test_update_subnet_def
  test_update_token_last_used_def token_suite_def i64_add_def i64_wrap_def lower_char_def
  order_desc_def row_to_token_def to_lowercase_def

lemmas sqlite_run_defs = sql_create_subnet_def sql_get_subnet_def sql_list_subnets_def sql_update_subnet_def
  sql_delete_subnet_def
  sqlite_database_def plain_env_def fetch_def execute_def new_rowid_def i64_max_def first_row_def
  has_subnet_def cascade_subnet_def sqlite_new_def ipv4_to_string_inj sql_create_ia_prefix_def
  sql_create_lease_def sql_create_range_def sql_create_static_ip_def sql_create_token_def
  sql_delete_ia_prefix_def sql_delete_range_def sql_delete_static_ip_def sql_delete_token_def
  sql_expire_lease_def sql_get_active_lease_def sql_get_ia_prefix_def sql_get_static_ip_by_mac_def
  sql_list_active_leases_def sql_list_api_tokens_def sql_list_ia_prefixes_def sql_list_ranges_def
  sql_list_static_ips_def sql_list_tokens_def sql_toggle_token_def sql_update_ia_prefix_def
  sql_update_token_last_used_def

lemma memory_suite: "run_all memory_database 10000 mem_new \<noteq> None"
  by (simp add: suite_defs mem_write_defs mem_read_defs mem_new_def i64_max_def)

lemma memory_groups:
  "run_suite (subnet_suite memory_database) mem_new \<noteq> None" "run_suite (range_suite memory_database) mem_new \<noteq> None"
  "run_suite (static_ip_suite memory_database) mem_new \<noteq> None"
  "run_suite (lease_suite memory_database 10000) mem_new \<noteq> None"
  "run_suite (ia_prefix_suite memory_database) mem_new \<noteq> None"
  "run_suite (token_suite memory_database 10000) mem_new \<noteq> None"
  by (simp_all add: suite_defs mem_write_defs mem_read_defs mem_new_def i64_max_def)

lemma sqlite_suite: "run_all (sqlite_database plain_env) 10000 sqlite_new \<noteq> None"
  by (simp add: suite_defs sqlite_run_defs del: set_filter)

lemma sqlite_groups:
  "run_suite (subnet_suite (sqlite_database plain_env)) sqlite_new \<noteq> None"
  "run_suite (range_suite (sqlite_database plain_env)) sqlite_new \<noteq> None"
  "run_suite (static_ip_suite (sqlite_database plain_env)) sqlite_new \<noteq> None"
  "run_suite (lease_suite (sqlite_database plain_env) 10000) sqlite_new \<noteq> None"
  "run_suite (ia_prefix_suite (sqlite_database plain_env)) sqlite_new \<noteq> None"
  "run_suite (token_suite (sqlite_database plain_env) 10000) sqlite_new \<noteq> None"
  by (simp_all add: suite_defs sqlite_run_defs del: set_filter)

text \<open>
  Both implementations of the trait pass the repository's own tests: the whole suite in the
  order of \<open>run_all\<close> on one database that starts empty, and each group of it on an empty database.
\<close>

theorem database_suite_passes:
  "list_all (\<lambda>r. r \<noteq> None) (memory_tests 10000) \<and> list_all (\<lambda>r. r \<noteq> None) (sqlite_tests 10000)"
  unfolding memory_tests_def sqlite_tests_def Let_def list.map
  by (simp only: list.pred_inject memory_suite memory_groups sqlite_suite sqlite_groups HOL.simp_thms)

end
