(* ===== verification/Suite_Codec.thy ===== *)
theory Suite_Codec
  imports Suite_Db Ra_Packet Network_Util Dhcp_Packet Ipv6_Text
begin

text \<open>
  The repository's tests of the codecs and of the network helpers (the \<open>tests\<close> modules of the crate
  \<open>dhcp-proto\<close>, of \<open>utils/network.rs\<close>, \<open>models.rs\<close> and \<open>ra/packet.rs\<close>), as conditions on the
  models. A Rust slice \<open>b[i..j]\<close> is \<open>slice i j b\<close>.
\<close>

definition slice :: "nat \<Rightarrow> nat \<Rightarrow> 'a list \<Rightarrow> 'a list" where
  "slice i j b = take (j - i) (drop i b)"

definition mac6 :: "u8 \<Rightarrow> u8 \<Rightarrow> u8 \<Rightarrow> u8 \<Rightarrow> u8 \<Rightarrow> u8 \<Rightarrow> mac_address" where
  "mac6 = MacAddress"

section \<open>The crate dhcp-proto\<close>

definition test_mac :: bool where
  "test_mac \<longleftrightarrow>
     mac_as_bytes (mac6 0xAA 0xBB 0xCC 0xDD 0xEE 0xFF) = [0xAA, 0xBB, 0xCC, 0xDD, 0xEE, 0xFF] \<and>
     map_option mac_as_bytes (mac_from_slice [0x11, 0x22, 0x33, 0x44, 0x55, 0x66, 0x77, 0x88]) =
       Some [0x11, 0x22, 0x33, 0x44, 0x55, 0x66] \<and>
     mac_from_slice [0x11, 0x22, 0x33] = None \<and>
     mac_to_string (mac6 0xAA 0xBB 0xCC 0xDD 0xEE 0xFF) = ''aa:bb:cc:dd:ee:ff'' \<and>
     map_option mac_as_bytes (mac_from_string ''AA:BB:CC:DD:EE:FF'') = Some [0xAA, 0xBB, 0xCC, 0xDD, 0xEE, 0xFF] \<and>
     map_option mac_as_bytes (mac_from_string ''aa:bb:cc:dd:ee:ff'') = Some [0xAA, 0xBB, 0xCC, 0xDD, 0xEE, 0xFF] \<and>
     mac_from_string ''AA:BB:CC:DD:EE'' = None \<and>
     mac_from_string ''AA:BB:CC:DD:EE:GG'' = None \<and>
     mac_from_string ''AABBCCDDEEFF'' = None"

definition test_message_type :: bool where
  "test_message_type \<longleftrightarrow>
     mt_to_u8 Discover = 1 \<and> mt_to_u8 Offer = 2 \<and> mt_to_u8 Request = 3 \<and> mt_to_u8 Ack = 5 \<and>
     mt_from_u8 1 = Some Discover \<and> mt_from_u8 2 = Some Offer \<and> mt_from_u8 5 = Some Ack \<and> mt_from_u8 99 = None"

definition test_option :: bool where
  "test_option \<longleftrightarrow>
     option_parse 1 [255, 255, 255, 0] = SubnetMask (ipv4_new 255 255 255 0) \<and>
     option_parse 53 [1] = MessageType Discover \<and>
     option_parse 51 [0, 0, 0x0E, 0x10] = LeaseTime 3600 \<and>
     (let original = SubnetMask (ipv4_new 255 255 255 0); b = option_to_bytes original in
      b ! 0 = 1 \<and> b ! 1 = 4 \<and> option_parse (b ! 0) (drop 2 b) = original) \<and>
     option_parse 12 (bytes_of ''test-host'') = Hostname ''test-host''"

definition test_packet :: bool where
  "test_packet \<longleftrightarrow>
     op packet_new = 1 \<and> htype packet_new = 1 \<and> hlen packet_new = 6 \<and>
     (case packet_parse (replicate 100 0) of Inl _ \<Rightarrow> True | Inr _ \<Rightarrow> False) \<and>
     (case packet_parse (packet_to_bytes (packet_new\<lparr> xid := 0x12345678,
         chaddr := mac6 0xAA 0xBB 0xCC 0xDD 0xEE 0xFF, options := [MessageType Discover] \<rparr>)) of
        Inl _ \<Rightarrow> False
      | Inr parsed \<Rightarrow> xid parsed = 0x12345678 \<and>
          mac_as_bytes (chaddr parsed) = [0xAA, 0xBB, 0xCC, 0xDD, 0xEE, 0xFF] \<and>
          get_message_type parsed = Some Discover) \<and>
     get_message_type packet_new = None \<and>
     get_message_type (packet_new\<lparr> options := [MessageType Request] \<rparr>) = Some Request"

section \<open>Network helpers\<close>

definition test_overlap :: bool where
  "test_overlap \<longleftrightarrow>
     (let ip = (\<lambda>s. the (ipv4_parse s)) in
      subnets_overlap (ip ''192.168.1.0'') 24 (ip ''192.168.1.0'') 24 \<and>
      \<not> subnets_overlap (ip ''192.168.1.0'') 24 (ip ''192.168.2.0'') 24 \<and>
      \<not> subnets_overlap (ip ''192.168.0.0'') 24 (ip ''192.168.1.0'') 24 \<and>
      subnets_overlap (ip ''192.168.1.0'') 24 (ip ''192.168.0.0'') 16 \<and>
      subnets_overlap (ip ''192.168.0.0'') 16 (ip ''192.168.1.0'') 24 \<and>
      subnets_overlap (ip ''10.0.0.0'') 8 (ip ''10.128.0.0'') 9 \<and>
      \<not> subnets_overlap (ip ''10.0.0.0'') 8 (ip ''172.16.0.0'') 12 \<and>
      subnets_overlap (ip ''0.0.0.0'') 0 (ip ''192.168.1.0'') 24 \<and>
      subnets_overlap (ip ''192.168.1.0'') 24 (ip ''0.0.0.0'') 0 \<and>
      subnets_overlap (ip ''192.168.1.1'') 32 (ip ''192.168.1.0'') 24 \<and>
      \<not> subnets_overlap (ip ''192.168.1.1'') 32 (ip ''192.168.2.0'') 24)"

definition test_checksum :: bool where
  "test_checksum \<longleftrightarrow>
     ip_checksum (replicate 20 0) = 0xffff \<and>
     (let hdr = [0x45, 0x00, 0x00, 0x28, 0x00, 0x00, 0x40, 0x00, 0x40, 0x11, 0x00, 0x00, 192, 168, 1, 1, 192, 168, 1, 2];
          cksum = ip_checksum hdr
      in ip_checksum (hdr[10 := ucast (drop_bit 8 cksum), 11 := ucast cksum]) = 0) \<and>
     ip_checksum [0x01] = 0xfeff"

definition valid_ip_header :: "bytes \<Rightarrow> bool" where
  "valid_ip_header ip \<longleftrightarrow> (ip ! 10, ip ! 11) \<noteq> (0, 0) \<and> ip_checksum ip = 0"

definition test_frame_length :: bool where
  "test_frame_length \<longleftrightarrow>
     (let frame = build_l2_udp_frame (mac6 0x00 0x11 0x22 0x33 0x44 0x55) (mac6 0xff 0xff 0xff 0xff 0xff 0xff)
        (ipv4_new 192 168 1 1) (ipv4_new 255 255 255 255) 67 68 (bytes_of ''hello'')
      in length frame = 47 \<and> valid_ip_header (slice 14 34 frame))"

definition test_frame_ethernet_header :: bool where
  "test_frame_ethernet_header \<longleftrightarrow>
     (let src_mac = mac6 0xAA 0xBB 0xCC 0xDD 0xEE 0xFF; dst_mac = mac6 0xFF 0xFF 0xFF 0xFF 0xFF 0xFF;
        frame = build_l2_udp_frame src_mac dst_mac (ipv4_new 10 0 0 1) (ipv4_new 10 0 0 2) 1234 5678 []
      in slice 0 6 frame = mac_as_bytes dst_mac \<and> slice 6 12 frame = mac_as_bytes src_mac \<and>
         slice 12 14 frame = [0x08, 0x00])"

definition test_frame_ip_header :: bool where
  "test_frame_ip_header \<longleftrightarrow>
     (let src_ip = ipv4_new 192 168 1 1; dst_ip = ipv4_new 192 168 1 255;
        frame = build_l2_udp_frame (mac6 0 0 0 0 0 0) (mac6 0xFF 0xFF 0xFF 0xFF 0xFF 0xFF) src_ip dst_ip 67 68 (bytes_of ''test'');
        ip = slice 14 34 frame
      in ip ! 0 = 0x45 \<and> ip ! 9 = 17 \<and> slice 12 16 ip = be32 src_ip \<and> slice 16 20 ip = be32 dst_ip \<and>
         valid_ip_header ip)"

definition test_frame_udp_header :: bool where
  "test_frame_udp_header \<longleftrightarrow>
     (let frame = build_l2_udp_frame (mac6 0 0 0 0 0 0) (mac6 0xFF 0xFF 0xFF 0xFF 0xFF 0xFF)
        (ipv4_new 10 0 0 1) (ipv4_new 10 0 0 2) 67 68 (bytes_of ''payload'')
      in slice 34 42 frame = [0, 67, 0, 68, 0, 15, 0, 0])"

definition test_frame_payload :: bool where
  "test_frame_payload \<longleftrightarrow>
     (let payload = bytes_of ''dhcpdata'';
        frame = build_l2_udp_frame (mac6 0 0 0 0 0 0) (mac6 0xFF 0xFF 0xFF 0xFF 0xFF 0xFF)
        (ipv4_new 10 0 0 1) (ipv4_new 10 0 0 2) 67 68 payload
      in drop 42 frame = payload \<and> valid_ip_header (slice 14 34 frame))"

section \<open>Columns of the data model\<close>

definition test_prefix :: "ipv6 list \<Rightarrow> ia_prefix" where
  "test_prefix dns = \<lparr> p_id = None, p_interface = ''eth0'', p_prefix = ipv6_new [0x2001, 0xdb8, 0, 0, 0, 0, 0, 0],
     p_prefix_len = 64, p_preferred_lifetime = 86400, p_valid_lifetime = 2592000, p_dns_servers = dns,
     p_dns_lifetime = 86400 \<rparr>"

definition test_ia_dns_to_string :: bool where
  "test_ia_dns_to_string \<longleftrightarrow>
     ia_dns_servers_to_string (test_prefix [ipv6_new [0x2001, 0xdb8, 0, 0, 0, 0, 0, 1]]) = ''2001:db8::1'' \<and>
     ia_dns_servers_to_string (test_prefix [ipv6_new [0x2001, 0xdb8, 0, 0, 0, 0, 0, 1],
       ipv6_new [0x2001, 0xdb8, 0, 0, 0, 0, 0, 2]]) = ''2001:db8::1,2001:db8::2'' \<and>
     ia_dns_servers_to_string (test_prefix []) = []"

definition test_ia_dns_from_string :: bool where
  "test_ia_dns_from_string \<longleftrightarrow>
     (let one = ipv6_new [0x2001, 0xdb8, 0, 0, 0, 0, 0, 1]; two = ipv6_new [0x2001, 0xdb8, 0, 0, 0, 0, 0, 2] in
      ia_dns_servers_from_string ''2001:db8::1'' = [one] \<and>
      ia_dns_servers_from_string ''2001:db8::1,2001:db8::2'' = [one, two] \<and>
      ia_dns_servers_from_string [] = [] \<and>
      ia_dns_servers_from_string ''2001:db8::1, 2001:db8::2'' = [one, two] \<and>
      ia_dns_servers_from_string ''2001:db8::1,invalid,2001:db8::2'' = [one, two])"

definition test_subnet_dns :: bool where
  "test_subnet_dns \<longleftrightarrow>
     dns_servers_to_string ((suite_subnet 1)\<lparr> s_dns_servers := [ipv4_new 8 8 8 8, ipv4_new 1 1 1 1] \<rparr>) = ''8.8.8.8,1.1.1.1'' \<and>
     dns_servers_from_string ''8.8.8.8,1.1.1.1'' = [ipv4_new 8 8 8 8, ipv4_new 1 1 1 1]"

section \<open>Router Advertisements\<close>

definition make_prefix :: "string \<Rightarrow> u8 \<Rightarrow> string list \<Rightarrow> ia_prefix" where
  "make_prefix pfx prefix_len dns = \<lparr> p_id = None, p_interface = ''eth0'', p_prefix = the (ipv6_parse pfx),
     p_prefix_len = prefix_len, p_preferred_lifetime = 14400, p_valid_lifetime = 86400,
     p_dns_servers = map (the \<circ> ipv6_parse) dns, p_dns_lifetime = 3600 \<rparr>"

definition test_ra_header :: bool where
  "test_ra_header \<longleftrightarrow>
     (let buf = build_router_advertisement remdups [] 64 1800 False False in
      length buf = 16 \<and> take 6 buf = [ICMPV6_TYPE_RA, 0, 0, 0, 64, 0] \<and> slice 6 8 buf = be16 1800) \<and>
     (let buf = build_router_advertisement remdups [] 64 1800 True True in
      buf ! 5 AND 0x80 = 0x80 \<and> buf ! 5 AND 0x40 = 0x40)"

definition test_ra_prefix_option_layout :: bool where
  "test_ra_prefix_option_layout \<longleftrightarrow>
     (let buf = build_router_advertisement remdups [make_prefix ''2001:db8::'' 64 []] 64 1800 False False in
      length buf = 48 \<and> slice 16 20 buf = [3, 4, 64, 0xC0] \<and> slice 20 24 buf = be32 86400 \<and>
      slice 24 28 buf = be32 14400 \<and> slice 32 48 buf = [0x20, 0x01, 0x0d, 0xb8, 0, 0, 0, 0, 0, 0, 0, 0, 0, 0, 0, 0])"

definition test_ra_rdnss_option :: bool where
  "test_ra_rdnss_option \<longleftrightarrow>
     (let buf = build_router_advertisement remdups [make_prefix ''2001:db8::'' 64 [''2001:db8::1'']] 64 1800 False False in
      length buf = 72 \<and> buf ! 48 = 25 \<and> buf ! 49 = 3 \<and> slice 52 56 buf = be32 3600 \<and>
      slice 56 72 buf = [0x20, 0x01, 0x0d, 0xb8, 0, 0, 0, 0, 0, 0, 0, 0, 0, 0, 0, 1])"

definition test_ra_rdnss_deduplicated :: bool where
  "test_ra_rdnss_deduplicated \<longleftrightarrow>
     (let buf = build_router_advertisement remdups [make_prefix ''2001:db8::'' 64 [''2001:db8::1''],
          make_prefix ''2001:db8:1::'' 64 [''2001:db8::1'']] 64 1800 False False in
      length buf = 16 + 32 + 32 + 24 \<and> buf ! 80 = 25 \<and> buf ! 81 = 3)"

definition test_ra_prefixes :: bool where
  "test_ra_prefixes \<longleftrightarrow>
     length (build_router_advertisement remdups [make_prefix ''2001:db8::'' 64 []] 64 1800 False False) = 48 \<and>
     (let buf = build_router_advertisement remdups [make_prefix ''2001:db8::'' 64 [], make_prefix ''2001:db8:1::'' 48 []]
        64 1800 False False in
      length buf = 16 + 32 + 32 \<and> buf ! 48 = 3 \<and> buf ! 50 = 48)"

section \<open>The models pass them\<close>

lemma proto_tests: test_mac test_message_type test_option test_packet
  by code_simp+

lemma network_tests: test_overlap test_checksum test_frame_length test_frame_ethernet_header test_frame_ip_header
    test_frame_udp_header test_frame_payload
  by code_simp+

text \<open>The addresses of the tests as numbers and as text.\<close>

lemma test_addresses:
  "ipv6_new [0x2001, 0xdb8, 0, 0, 0, 0, 0, 0] = 0x20010db8000000000000000000000000"
  "ipv6_new [0x2001, 0xdb8, 0, 0, 0, 0, 0, 1] = 0x20010db8000000000000000000000001"
  "ipv6_new [0x2001, 0xdb8, 0, 0, 0, 0, 0, 2] = 0x20010db8000000000000000000000002"
  by (simp_all add: ipv6_new_def of_segments_def)

lemma test_texts:
  "ipv6_to_string 0x20010db8000000000000000000000000 = ''2001:db8::''"
  "ipv6_to_string 0x20010db8000000000000000000000001 = ''2001:db8::1''"
  "ipv6_to_string 0x20010db8000000000000000000000002 = ''2001:db8::2''"
  "ipv6_to_string 0x20010db8000100000000000000000000 = ''2001:db8:1::''"
  by (simp_all add: ipv6_to_string_def segments_def fmt_subslice_def hex16_def hex_digit_def upt_rec char_of_def bit_Suc_0_iff)

lemma test_parses:
  "ipv6_parse ''2001:db8::'' = Some 0x20010db8000000000000000000000000"
  "ipv6_parse ''2001:db8::1'' = Some 0x20010db8000000000000000000000001"
  "ipv6_parse ''2001:db8::2'' = Some 0x20010db8000000000000000000000002"
  "ipv6_parse ''2001:db8:1::'' = Some 0x20010db8000100000000000000000000"
  by (simp_all only: ipv6_parse_to_string flip: test_texts)

lemma ipv6_parse_invalid: "ipv6_parse ''invalid'' = None"
proof -
  have "read_groups 8 0 ''invalid'' = ([], False, ''invalid'')"
    by (subst read_groups.simps) (simp add: read_separator_def read_ipv4_addr_def read_number_def to_digit_def)
  then show ?thesis by (simp add: ipv6_parse_def read_ipv6_addr_def)
qed

lemma test_trims:
  "trim ''2001:db8::1'' = ''2001:db8::1''" "trim ''2001:db8::2'' = ''2001:db8::2''" "trim ''invalid'' = ''invalid''"
  "trim ''8.8.8.8'' = ''8.8.8.8''" "trim ''1.1.1.1'' = ''1.1.1.1''"
  by (simp_all add: trim_def trim_start_id trim_end_id ws_code_def)

lemma trim_space: "trim '' 2001:db8::2'' = ''2001:db8::2''"
proof -
  have "strip_ws_prefix '' 2001:db8::2'' = Some ''2001:db8::2''"
    by (simp add: strip_ws_prefix_def white_space_def string_of_def char_of_def bit_Suc_0_iff)
  then have "trim_start '' 2001:db8::2'' = trim_start ''2001:db8::2''" by (subst trim_start.simps) simp
  then show ?thesis by (simp add: trim_def trim_start_id trim_end_id ws_code_def)
qed

lemma column_tests: test_ia_dns_to_string test_ia_dns_from_string test_subnet_dns
proof -
  show test_ia_dns_to_string
    by (simp add: test_ia_dns_to_string_def ia_dns_servers_to_string_def test_prefix_def test_addresses test_texts)
  show test_ia_dns_from_string
    by (simp add: test_ia_dns_from_string_def ia_dns_servers_from_string_def test_addresses test_parses test_trims trim_space
        ipv6_parse_invalid ipv6_parse_Nil List.map_filter_simps Let_def)
  have "ipv4_parse ''8.8.8.8'' = Some (ipv4_new 8 8 8 8)" "ipv4_parse ''1.1.1.1'' = Some (ipv4_new 1 1 1 1)"
    "ipv4_to_string (ipv4_new 8 8 8 8) = ''8.8.8.8''" "ipv4_to_string (ipv4_new 1 1 1 1) = ''1.1.1.1''"
    by code_simp+
  then show test_subnet_dns
    by (simp add: test_subnet_dns_def dns_servers_to_string_def dns_servers_from_string_def test_trims List.map_filter_simps)
qed

lemma ra_tests: test_ra_header test_ra_prefix_option_layout test_ra_rdnss_option test_ra_rdnss_deduplicated test_ra_prefixes
  unfolding test_ra_header_def test_ra_prefix_option_layout_def test_ra_rdnss_option_def
      test_ra_rdnss_deduplicated_def test_ra_prefixes_def make_prefix_def list.map comp_apply test_parses option.sel
  by code_simp+

text \<open>
  The codecs and helpers pass the repository's tests: hardware addresses, options and messages of
  DHCP, the overlap of subnets, the checksum and the forged frame, the address columns of the
  database, and the layout of Router Advertisements.
\<close>

theorem codec_suite_passes:
  "(test_mac \<and> test_message_type \<and> test_option \<and> test_packet) \<and>
   (test_overlap \<and> test_checksum \<and> test_frame_length \<and> test_frame_ethernet_header \<and> test_frame_ip_header \<and>
    test_frame_udp_header \<and> test_frame_payload) \<and>
   (test_ia_dns_to_string \<and> test_ia_dns_from_string \<and> test_subnet_dns) \<and>
   (test_ra_header \<and> test_ra_prefix_option_layout \<and> test_ra_rdnss_option \<and> test_ra_rdnss_deduplicated \<and> test_ra_prefixes)"
  by (intro conjI proto_tests network_tests column_tests ra_tests)

end
