(* ===== verification/Suite_Dhcp.thy ===== *)
theory Suite_Dhcp
  imports Suite_Db Dhcp_Server
begin

text \<open>
  The repository's tests of the DHCP handlers (\<open>dhcp/server.rs\<close> with \<open>dhcp/test_helpers.rs\<close>), run
  on the models over the in-memory database; \<open>None\<close> is a panic. The clock reads \<open>10000\<close>.
\<close>

section \<open>Helpers\<close>

definition create_test_config :: config where
  "create_test_config = \<lparr> listen_interfaces = [''lo''], database_path = '':memory:'',
     cfg_api = \<lparr> api_listen_address = ''127.0.0.1'', api_port = 8080, api_unix_socket = None,
       api_require_authentication = Some False \<rparr>,
     cfg_dhcp = \<lparr> default_lease_time = 86400, max_lease_time = 604800, lease_cleanup_interval_minutes = 60 \<rparr>,
     cfg_ra = None, cfg_logging = logging_default \<rparr>"

definition create_test_subnet :: subnet where
  "create_test_subnet = \<lparr> s_id = Some 1, s_network = ipv4_new 192 168 1 0, s_netmask = 24,
     s_gateway = ipv4_new 192 168 1 1, s_dns_servers = [ipv4_new 8 8 8 8, ipv4_new 8 8 4 4],
     s_domain_name = Some ''test.local'' \<rparr>"

definition create_discover_packet :: "string \<Rightarrow> dhcp_packet option" where
  "create_discover_packet mac = map_option (\<lambda>m. packet_new\<lparr> op := 1, xid := 12345, chaddr := m,
     options := options packet_new @ [MessageType Discover] \<rparr>) (mac_from_string mac)"

definition create_request_packet :: "string \<Rightarrow> ipv4 \<Rightarrow> dhcp_packet option" where
  "create_request_packet mac requested_ip = map_option (\<lambda>m. packet_new\<lparr> op := 1, xid := 67890, chaddr := m,
     options := options packet_new @ [MessageType Request, RequestedIpAddress requested_ip] \<rparr>) (mac_from_string mac)"

definition create_release_packet :: "string \<Rightarrow> dhcp_packet option" where
  "create_release_packet mac = map_option (\<lambda>m. packet_new\<lparr> op := 1, xid := 11111, chaddr := m,
     options := options packet_new @ [MessageType Release] \<rparr>) (mac_from_string mac)"

definition create_inform_packet :: "string \<Rightarrow> dhcp_packet option" where
  "create_inform_packet mac = map_option (\<lambda>m. packet_new\<lparr> op := 1, xid := 99999, chaddr := m,
     options := options packet_new @ [MessageType Inform] \<rparr>) (mac_from_string mac)"

definition make_subnet :: "ipv4 \<Rightarrow> u8 \<Rightarrow> subnet" where
  "make_subnet network netmask = \<lparr> s_id = None, s_network = network, s_netmask = netmask, s_gateway = network,
     s_dns_servers = [], s_domain_name = None \<rparr>"

abbreviation test_ips :: "ipv4 list" where
  "test_ips \<equiv> [ipv4_new 192 168 1 1]"

definition test_range :: "i64 \<Rightarrow> dynamic_range" where
  "test_range subnet_id = \<lparr> r_id = None, r_subnet_id = subnet_id, r_range_start = ipv4_new 192 168 1 100,
     r_range_end = ipv4_new 192 168 1 200, r_enabled = True \<rparr>"

definition test_lease :: "i64 \<Rightarrow> string \<Rightarrow> lease" where
  "test_lease subnet_id mac = \<lparr> l_id = None, l_subnet_id = subnet_id, l_mac_address = mac,
     l_ip_address = ipv4_new 192 168 1 100, l_lease_start = 10000, l_lease_end = i64_add 10000 86400, l_hostname = None \<rparr>"

definition test_static :: "i64 \<Rightarrow> string \<Rightarrow> string \<Rightarrow> static_ip" where
  "test_static subnet_id mac host = \<lparr> st_subnet_id = subnet_id, st_mac_address = mac,
     st_ip_address = ipv4_new 192 168 1 50, st_hostname = Some host \<rparr>"

section \<open>Interfaces and subnets\<close>

definition test_iface_in_subnet :: bool where
  "test_iface_in_subnet \<longleftrightarrow>
     iface_in_subnet [ipv4_new 192 168 1 1] (make_subnet (ipv4_new 192 168 1 0) 24) \<and>
     iface_in_subnet [ipv4_new 192 168 1 254] (make_subnet (ipv4_new 192 168 1 0) 24) \<and>
     \<not> iface_in_subnet [ipv4_new 10 0 0 1] (make_subnet (ipv4_new 192 168 1 0) 24) \<and>
     \<not> iface_in_subnet [] (make_subnet (ipv4_new 192 168 1 0) 24) \<and>
     iface_in_subnet [ipv4_new 192 168 1 1, ipv4_new 10 5 6 7] (make_subnet (ipv4_new 10 0 0 0) 8) \<and>
     iface_in_subnet [ipv4_new 172 16 42 1] (make_subnet (ipv4_new 172 16 0 0) 16) \<and>
     \<not> iface_in_subnet [ipv4_new 172 17 0 1] (make_subnet (ipv4_new 172 16 0 0) 16) \<and>
     iface_in_subnet [ipv4_new 10 0 0 1] (make_subnet (ipv4_new 10 0 0 1) 32) \<and>
     \<not> iface_in_subnet [ipv4_new 10 0 0 2] (make_subnet (ipv4_new 10 0 0 1) 32) \<and>
     iface_in_subnet [ipv4_new 1 2 3 4] (make_subnet (ipv4_new 0 0 0 0) 0) \<and>
     iface_in_subnet [ipv4_new 255 255 255 255] (make_subnet (ipv4_new 0 0 0 0) 0)"

section \<open>DISCOVER\<close>

definition discover_response :: "string \<Rightarrow> memory_db \<Rightarrow> (dhcp_packet option \<Rightarrow> memory_db option) \<Rightarrow> memory_db option" where
  "discover_response mac db k =
     expect (create_discover_packet mac) (\<lambda>packet.
       k (handle_discover memory_database 10000 10000 packet test_ips create_test_config db))"

definition test_handle_discover_with_static_ip :: "memory_db option" where
  "test_handle_discover_with_static_ip =
     unwrap (mem_create_subnet create_test_subnet mem_new) (\<lambda>sid db.
     unwrap (mem_create_static_ip (test_static sid ''AA:BB:CC:DD:EE:FF'' ''test-host'') db) (\<lambda>_ db.
     discover_response ''AA:BB:CC:DD:EE:FF'' db (\<lambda>response.
     expect response (\<lambda>offer.
     assert (yiaddr offer = ipv4_new 192 168 1 50 \<and> xid offer = 12345 \<and> op offer = 2 \<and>
       get_message_type offer = Some Offer) (Some db)))))"

definition test_handle_discover_with_existing_lease :: "memory_db option" where
  "test_handle_discover_with_existing_lease =
     unwrap (mem_create_subnet create_test_subnet mem_new) (\<lambda>sid db.
     unwrap (mem_create_lease (test_lease sid ''11:22:33:44:55:66'') db) (\<lambda>_ db.
     discover_response ''11:22:33:44:55:66'' db (\<lambda>response.
     expect response (\<lambda>offer.
     assert (yiaddr offer = ipv4_new 192 168 1 100 \<and> xid offer = 12345 \<and>
       get_message_type offer = Some Offer) (Some db)))))"

definition test_handle_discover_no_allocation :: "memory_db option" where
  "test_handle_discover_no_allocation =
     unwrap (mem_create_subnet create_test_subnet mem_new) (\<lambda>_ db.
     discover_response ''99:88:77:66:55:44'' db (\<lambda>response.
     assert (Option.is_none response) (Some db)))"

definition test_handle_discover_static_ip_takes_precedence :: "memory_db option" where
  "test_handle_discover_static_ip_takes_precedence =
     unwrap (mem_create_subnet create_test_subnet mem_new) (\<lambda>sid db.
     unwrap (mem_create_static_ip (test_static sid ''AA:BB:CC:DD:EE:00'' ''static-host'') db) (\<lambda>_ db.
     unwrap (mem_create_lease (test_lease sid ''AA:BB:CC:DD:EE:00'') db) (\<lambda>_ db.
     discover_response ''AA:BB:CC:DD:EE:00'' db (\<lambda>response.
     expect response (\<lambda>offer.
     assert (yiaddr offer = ipv4_new 192 168 1 50) (Some db))))))"

definition test_handle_discover_dynamic_allocation :: "memory_db option" where
  "test_handle_discover_dynamic_allocation =
     unwrap (mem_create_subnet create_test_subnet mem_new) (\<lambda>sid db.
     unwrap (mem_create_range (test_range sid) db) (\<lambda>_ db.
     discover_response ''AA:BB:CC:DD:EE:11'' db (\<lambda>response.
     expect response (\<lambda>offer.
     assert (yiaddr offer = ipv4_new 192 168 1 100 \<and> get_message_type offer = Some Offer) (Some db)))))"

definition test_handle_discover_dynamic_skips_leased_ips :: "memory_db option" where
  "test_handle_discover_dynamic_skips_leased_ips =
     unwrap (mem_create_subnet create_test_subnet mem_new) (\<lambda>sid db.
     unwrap (mem_create_range (test_range sid) db) (\<lambda>_ db.
     unwrap (mem_create_lease (test_lease sid ''11:22:33:44:55:66'') db) (\<lambda>_ db.
     discover_response ''AA:BB:CC:DD:EE:22'' db (\<lambda>response.
     expect response (\<lambda>offer.
     assert (yiaddr offer = ipv4_new 192 168 1 101) (Some db))))))"

section \<open>REQUEST\<close>

definition request_response ::
  "dhcp_packet option \<Rightarrow> memory_db \<Rightarrow> (dhcp_packet option \<Rightarrow> memory_db \<Rightarrow> memory_db option) \<Rightarrow> memory_db option" where
  "request_response packet db k =
     expect packet (\<lambda>packet.
       case handle_request memory_database 10000 10000 packet test_ips create_test_config db of (r, db) \<Rightarrow> k r db)"

definition test_handle_request_dynamic_creates_lease :: "memory_db option" where
  "test_handle_request_dynamic_creates_lease =
     unwrap (mem_create_subnet create_test_subnet mem_new) (\<lambda>sid db.
     unwrap (mem_create_range (test_range sid) db) (\<lambda>_ db.
     request_response (create_request_packet ''AA:BB:CC:DD:EE:33'' (ipv4_new 192 168 1 100)) db (\<lambda>response db.
     expect response (\<lambda>ack.
     assert (yiaddr ack = ipv4_new 192 168 1 100 \<and> get_message_type ack = Some Ack) (
     read_unwrap (mem_get_active_lease 10000 ''AA:BB:CC:DD:EE:33'' db) (\<lambda>lease.
     expect lease (\<lambda>lease.
     assert (l_ip_address lease = ipv4_new 192 168 1 100) (Some db))))))))"

definition test_handle_request_dynamic_rejects_stolen_ip :: "memory_db option" where
  "test_handle_request_dynamic_rejects_stolen_ip =
     unwrap (mem_create_subnet create_test_subnet mem_new) (\<lambda>sid db.
     unwrap (mem_create_range (test_range sid) db) (\<lambda>_ db.
     unwrap (mem_create_lease (test_lease sid ''11:22:33:44:55:66'') db) (\<lambda>_ db.
     request_response (create_request_packet ''AA:BB:CC:DD:EE:44'' (ipv4_new 192 168 1 100)) db (\<lambda>response db.
     assert (Option.is_none response) (Some db)))))"

definition test_handle_request_with_static_ip :: "memory_db option" where
  "test_handle_request_with_static_ip =
     unwrap (mem_create_subnet create_test_subnet mem_new) (\<lambda>sid db.
     unwrap (mem_create_static_ip (test_static sid ''AA:BB:CC:DD:EE:FF'' ''test-host'') db) (\<lambda>_ db.
     request_response (create_request_packet ''AA:BB:CC:DD:EE:FF'' (ipv4_new 192 168 1 50)) db (\<lambda>response db.
     expect response (\<lambda>ack.
     assert (yiaddr ack = ipv4_new 192 168 1 50 \<and> xid ack = 67890 \<and> op ack = 2 \<and>
       get_message_type ack = Some Ack) (Some db)))))"

definition test_handle_request_with_wrong_static_ip :: "memory_db option" where
  "test_handle_request_with_wrong_static_ip =
     unwrap (mem_create_subnet create_test_subnet mem_new) (\<lambda>sid db.
     unwrap (mem_create_static_ip (test_static sid ''AA:BB:CC:DD:EE:FF'' ''test-host'') db) (\<lambda>_ db.
     request_response (create_request_packet ''AA:BB:CC:DD:EE:FF'' (ipv4_new 192 168 1 100)) db (\<lambda>response db.
     assert (Option.is_none response) (Some db))))"

definition test_handle_request_without_requested_ip :: "memory_db option" where
  "test_handle_request_without_requested_ip =
     unwrap (mem_create_subnet create_test_subnet mem_new) (\<lambda>_ db.
     request_response (map_option (\<lambda>m. packet_new\<lparr> op := 1, xid := 67890, chaddr := m,
       options := options packet_new @ [MessageType Request] \<rparr>) (mac_from_string ''AA:BB:CC:DD:EE:FF'')) db (\<lambda>response db.
     assert (Option.is_none response) (Some db)))"

section \<open>RELEASE\<close>

definition test_handle_release_with_active_lease :: "memory_db option" where
  "test_handle_release_with_active_lease =
     unwrap (mem_create_subnet create_test_subnet mem_new) (\<lambda>sid db.
     unwrap (mem_create_lease (test_lease sid ''11:22:33:44:55:66'') db) (\<lambda>_ db.
     read_unwrap (mem_get_active_lease 10000 ''11:22:33:44:55:66'' db) (\<lambda>active_lease.
     assert (\<not> Option.is_none active_lease) (
     expect (create_release_packet ''11:22:33:44:55:66'') (\<lambda>packet.
     (let db = handle_release memory_database 10000 packet db in
     read_unwrap (mem_get_active_lease 10000 ''11:22:33:44:55:66'' db) (\<lambda>after.
     assert (Option.is_none after) (Some db))))))))"

definition test_handle_release_without_lease :: "memory_db option" where
  "test_handle_release_without_lease =
     unwrap (mem_create_subnet create_test_subnet mem_new) (\<lambda>_ db.
     expect (create_release_packet ''99:88:77:66:55:44'') (\<lambda>packet.
     Some (handle_release memory_database 10000 packet db)))"

section \<open>The models pass them\<close>

definition dhcp_tests :: "memory_db option list" where
  "dhcp_tests =
     [test_handle_discover_with_static_ip, test_handle_discover_with_existing_lease,
      test_handle_discover_no_allocation, test_handle_discover_static_ip_takes_precedence,
      test_handle_discover_dynamic_allocation, test_handle_discover_dynamic_skips_leased_ips,
      test_handle_request_dynamic_creates_lease, test_handle_request_dynamic_rejects_stolen_ip,
      test_handle_request_with_static_ip, test_handle_request_with_wrong_static_ip,
      test_handle_request_without_requested_ip, test_handle_release_with_active_lease,
      test_handle_release_without_lease]"

lemma iface_tests: test_iface_in_subnet
  by code_simp

lemma discover_with_static_ip_ok: "\<not> Option.is_none test_handle_discover_with_static_ip"
  by code_simp

lemma discover_with_existing_lease_ok: "\<not> Option.is_none test_handle_discover_with_existing_lease"
  by code_simp

lemma discover_no_allocation_ok: "\<not> Option.is_none test_handle_discover_no_allocation"
  by code_simp

lemma discover_static_ip_takes_precedence_ok: "\<not> Option.is_none test_handle_discover_static_ip_takes_precedence"
  by code_simp

lemma discover_dynamic_allocation_ok: "\<not> Option.is_none test_handle_discover_dynamic_allocation"
  by code_simp

lemma discover_dynamic_skips_leased_ips_ok: "\<not> Option.is_none test_handle_discover_dynamic_skips_leased_ips"
  by code_simp

lemma request_dynamic_creates_lease_ok: "\<not> Option.is_none test_handle_request_dynamic_creates_lease"
  by code_simp

lemma request_dynamic_rejects_stolen_ip_ok: "\<not> Option.is_none test_handle_request_dynamic_rejects_stolen_ip"
  by code_simp

lemma request_with_static_ip_ok: "\<not> Option.is_none test_handle_request_with_static_ip"
  by code_simp

lemma request_with_wrong_static_ip_ok: "\<not> Option.is_none test_handle_request_with_wrong_static_ip"
  by code_simp

lemma request_without_requested_ip_ok: "\<not> Option.is_none test_handle_request_without_requested_ip"
  by code_simp

lemma release_with_active_lease_ok: "\<not> Option.is_none test_handle_release_with_active_lease"
  by code_simp

lemma release_without_lease_ok: "\<not> Option.is_none test_handle_release_without_lease"
  by code_simp

text \<open>
  The handlers of the DHCP server pass the repository's tests: static assignments, existing
  leases and dynamic ranges on DISCOVER, the grants and refusals of REQUEST, and RELEASE.
\<close>

theorem dhcp_suite_passes: "test_iface_in_subnet \<and> list_all (\<lambda>t. \<not> Option.is_none t) dhcp_tests"
  by (simp add: dhcp_tests_def iface_tests discover_with_static_ip_ok discover_with_existing_lease_ok discover_no_allocation_ok discover_static_ip_takes_precedence_ok discover_dynamic_allocation_ok discover_dynamic_skips_leased_ips_ok request_dynamic_creates_lease_ok request_dynamic_rejects_stolen_ip_ok request_with_static_ip_ok request_with_wrong_static_ip_ok request_without_requested_ip_ok release_with_active_lease_ok release_without_lease_ok)

end
