(* ===== verification/Logging.thy ===== *)
theory Logging
  imports Rust_Text
begin

text \<open>
  The layer that forwards log events to syslog (\<open>utils/logging.rs\<close>). An event is its level and
  its fields in the order in which \<open>tracing\<close> records them; the text of a \<open>Debug\<close> value is the
  one its implementation writes. The layer builds one line and picks the method of the logger.
\<close>

datatype level = ERROR | WARN | INFO | DEBUG | TRACE

datatype severity = LOG_ERR | LOG_WARNING | LOG_INFO | LOG_DEBUG

datatype field_value = DebugValue string | StrValue string | I64Value i64 | U64Value "64 word" | BoolValue bool

type_synonym log_field = "string \<times> field_value"

text \<open>The methods of \<open>MessageVisitor\<close>: only text can be the message.\<close>

fun value_text :: "field_value \<Rightarrow> string" where
  "value_text (DebugValue s) = s"
| "value_text (StrValue s) = s"
| "value_text (I64Value i) = dec_int i"
| "value_text (U64Value n) = dec_nat (unat n)"
| "value_text (BoolValue b) = (if b then ''true'' else ''false'')"

definition labelled :: "string \<Rightarrow> field_value \<Rightarrow> string" where
  "labelled name v = '' '' @ name @ ''='' @ value_text v"

fun visit :: "string \<Rightarrow> log_field \<Rightarrow> string" where
  "visit acc (name, DebugValue s) = (if name = ''message'' then acc @ s else acc @ labelled name (DebugValue s))"
| "visit acc (name, StrValue s) = (if name = ''message'' then acc @ s else acc @ labelled name (StrValue s))"
| "visit acc (name, v) = acc @ labelled name v"

definition event_text :: "log_field list \<Rightarrow> string" where
  "event_text fields = foldl visit [] fields"

fun level_severity :: "level \<Rightarrow> severity" where
  "level_severity ERROR = LOG_ERR"
| "level_severity WARN = LOG_WARNING"
| "level_severity INFO = LOG_INFO"
| "level_severity DEBUG = LOG_DEBUG"
| "level_severity TRACE = LOG_DEBUG"

text \<open>\<open>on_event\<close>: what is sent to syslog; nothing when the lock of the logger is poisoned.\<close>

definition on_event :: "bool \<Rightarrow> level \<Rightarrow> log_field list \<Rightarrow> (severity \<times> string) option" where
  "on_event locked lvl fields = (if locked then Some (level_severity lvl, event_text fields) else None)"

section \<open>Lemmas\<close>

text \<open>Levels in the order of their urgency, as the library's orders want it.\<close>

fun urgency :: "level \<Rightarrow> nat" where
  "urgency ERROR = 4"
| "urgency WARN = 3"
| "urgency INFO = 2"
| "urgency DEBUG = 1"
| "urgency TRACE = 0"

instantiation level :: linorder
begin

definition less_eq_level :: "level \<Rightarrow> level \<Rightarrow> bool" where
  "less_eq_level a b \<longleftrightarrow> urgency a \<le> urgency b"

definition less_level :: "level \<Rightarrow> level \<Rightarrow> bool" where
  "less_level a b \<longleftrightarrow> urgency a < urgency b"

instance
proof
  fix a b :: level
  show "a = b" if "a \<le> b" "b \<le> a"
    using that by (cases a; cases b) (simp_all add: less_eq_level_def)
qed (auto simp: less_eq_level_def less_level_def)

end

fun severity_rank :: "severity \<Rightarrow> nat" where
  "severity_rank LOG_ERR = 3"
| "severity_rank LOG_WARNING = 4"
| "severity_rank LOG_INFO = 6"
| "severity_rank LOG_DEBUG = 7"

lemma event_text_append: "foldl visit acc fields = acc @ foldl visit [] fields"
proof (induction fields arbitrary: acc)
  case (Cons f fields)
  obtain name v where f: "f = (name, v)" by fastforce
  have "visit acc f = acc @ visit [] f" unfolding f by (cases v) auto
  with Cons.IH [of "visit acc f"] Cons.IH [of "visit [] f"] show ?case by simp
qed simp

text \<open>
  The line is the message followed by the other fields in their order, and a more urgent level is
  never given a less urgent severity (in the numbers of RFC 5424, where smaller is more urgent).
\<close>

theorem syslog_line:
  assumes "\<forall>(name, v)\<in>set fields. name \<noteq> ''message''"
  shows "event_text ((''message'', StrValue m) # fields) = m @ concat (map (\<lambda>(name, v). labelled name v) fields)"
proof -
  have "foldl visit [] fields = concat (map (\<lambda>(name, v). labelled name v) fields)"
    using assms
  proof (induction fields)
    case (Cons f fields)
    obtain name v where f: "f = (name, v)" by fastforce
    with Cons.prems have "visit [] f = labelled name v" by (cases v) auto
    with Cons f show ?case by (simp add: event_text_append [of "labelled name v"])
  qed simp
  then show ?thesis by (simp add: event_text_def event_text_append [of m])
qed

theorem severity_mono:
  "a \<le> b \<Longrightarrow> severity_rank (level_severity b) \<le> severity_rank (level_severity a)"
  by (cases a; cases b) (simp_all add: less_eq_level_def)

end
