(* ===== verification/Program_Loops.thy ===== *)
theory Program_Loops
  imports Dhcp_Packet Network_Util "HOL-Library.While_Combinator"
begin

text \<open>
  The two loops that read bytes of arbitrary content, as they are written: a state that the body
  updates until the condition fails or a \<open>break\<close>. An access outside the buffer, which panics in
  Rust, is \<open>None\<close>. \<open>while_option\<close> gives no value for a loop that does not end, so the equations
  say that the loops end, without a panic, with the results of the recursive definitions.
\<close>

section \<open>Checked accesses\<close>

definition index_at :: "'a list \<Rightarrow> nat \<Rightarrow> 'a option" where
  "index_at xs i = (if i < length xs then Some (xs ! i) else None)"

text \<open>\<open>&data[i..j]\<close>.\<close>

definition slice_at :: "'a list \<Rightarrow> nat \<Rightarrow> nat \<Rightarrow> 'a list option" where
  "slice_at xs i j = (if i \<le> j \<and> j \<le> length xs then Some (take (j - i) (drop i xs)) else None)"

text \<open>The state of a loop is \<open>None\<close> after a panic.\<close>

definition while_checked :: "('s \<Rightarrow> bool) \<Rightarrow> ('s \<Rightarrow> 's option) \<Rightarrow> 's \<Rightarrow> 's option option" where
  "while_checked b c s =
     while_option (\<lambda>st. case st of None \<Rightarrow> False | Some s \<Rightarrow> b s) (\<lambda>st. Option.bind st c) (Some s)"

lemma while_checked_step:
  "b s \<Longrightarrow> c s = Some s' \<Longrightarrow> while_checked b c s = while_checked b c s'"
  by (simp add: while_checked_def while_option_unfold [of _ _ "Some s"])

lemma while_checked_exit: "\<not> b s \<Longrightarrow> while_checked b c s = Some (Some s)"
  by (simp add: while_checked_def while_option_unfold)

section \<open>The options of a message\<close>

record option_state =
  at :: nat
  found :: "dhcp_option list"
  broken :: bool

definition option_body :: "bytes \<Rightarrow> option_state \<Rightarrow> option_state option" where
  "option_body data st =
     Option.bind (index_at data (at st)) (\<lambda>option_code.
       if option_code = 255 then Some (st\<lparr> found := found st @ [End], broken := True \<rparr>)
       else if option_code = 0 then Some (st\<lparr> at := at st + 1 \<rparr>)
       else if length data \<le> at st + 1 then Some (st\<lparr> broken := True \<rparr>)
       else Option.bind (index_at data (at st + 1)) (\<lambda>len.
         if length data < at st + 2 + unat len then Some (st\<lparr> broken := True \<rparr>)
         else Option.bind (slice_at data (at st + 2) (at st + 2 + unat len)) (\<lambda>option_data.
           Some (st\<lparr> found := found st @ [option_parse option_code option_data],
             at := at st + 2 + unat len \<rparr>))))"

definition option_loop :: "bytes \<Rightarrow> option_state \<Rightarrow> option_state option option" where
  "option_loop data =
     while_checked (\<lambda>st. at st < length data \<and> \<not> broken st) (option_body data)"

lemma option_loop_from:
  "\<not> broken st \<Longrightarrow> \<exists>st'. option_loop data st = Some (Some st') \<and> found st' = found st @ parse_options data (at st)"
proof (induction "length data - at st" arbitrary: st rule: less_induct)
  case less
  note exit = while_checked_exit [of "\<lambda>st. at st < length data \<and> \<not> broken st" _ "option_body data"]
  note step = while_checked_step [of "\<lambda>st. at st < length data \<and> \<not> broken st" st "option_body data"]
  let ?len = "unat (data ! (at st + 1))"
  consider (over) "length data \<le> at st"
    | (ended) "at st < length data" "data ! at st = 255"
    | (pad) "at st < length data" "data ! at st = 0"
    | (cut) "at st < length data" "data ! at st \<noteq> 255" "data ! at st \<noteq> 0"
        "length data \<le> at st + 1 \<or> length data < at st + 2 + ?len"
    | (opt) "data ! at st \<noteq> 255" "data ! at st \<noteq> 0" "at st + 2 + ?len \<le> length data"
    by fastforce
  then show ?case
  proof cases
    case over
    then show ?thesis by (simp add: option_loop_def exit parse_options.simps)
  next
    case ended
    then have "option_body data st = Some (st\<lparr> found := found st @ [End], broken := True \<rparr>)"
      by (simp add: option_body_def index_at_def)
    with ended less.prems show ?thesis by (simp add: option_loop_def step exit parse_options.simps)
  next
    case pad
    then have "option_body data st = Some (st\<lparr> at := at st + 1 \<rparr>)"
      by (simp add: option_body_def index_at_def)
    with pad less.prems less.hyps [of "st\<lparr> at := at st + 1 \<rparr>"] show ?thesis
      by (simp add: option_loop_def step parse_options.simps [of data "at st"])
  next
    case cut
    then have "option_body data st = Some (st\<lparr> broken := True \<rparr>)"
      by (auto simp: option_body_def index_at_def)
    with cut less.prems show ?thesis by (auto simp: option_loop_def step exit parse_options.simps)
  next
    case opt
    let ?st = "st\<lparr> found := found st @ [option_parse (data ! at st) (take ?len (drop (at st + 2) data))],
      at := at st + 2 + ?len \<rparr>"
    from opt have "option_body data st = Some ?st"
      by (simp add: option_body_def index_at_def slice_at_def)
    with opt less.prems less.hyps [of ?st] show ?thesis
      by (simp add: option_loop_def step parse_options.simps [of data "at st"])
  qed
qed

section \<open>The checksum\<close>

definition sum_body :: "bytes \<Rightarrow> nat \<times> u32 \<Rightarrow> (nat \<times> u32) option" where
  "sum_body data = (\<lambda>(i, s).
     Option.bind (index_at data i) (\<lambda>x. Option.bind (index_at data (i + 1)) (\<lambda>y.
       Some (i + 2, s + ucast (of_be16 x y)))))"

definition carry_body :: "u32 \<Rightarrow> u32" where
  "carry_body s = (s AND 0xffff) + drop_bit 16 s"

definition checksum_loop :: "bytes \<Rightarrow> u16 option option" where
  "checksum_loop data =
     Option.bind (while_checked (\<lambda>(i, s). i + 1 < length data) (sum_body data) (0, 0)) (\<lambda>st.
       case st of
         None \<Rightarrow> Some None
       | Some (i, s) \<Rightarrow>
           (case (if i < length data then map_option (\<lambda>x. s + push_bit 8 (ucast x)) (index_at data i) else Some s) of
              None \<Rightarrow> Some None
            | Some s \<Rightarrow>
                map_option (\<lambda>s. Some (NOT (ucast s))) (while_option (\<lambda>s. drop_bit 16 s \<noteq> 0) carry_body s)))"

lemma sum_loop_from:
  "\<exists>j s'. while_checked (\<lambda>(i, s). i + 1 < length data) (sum_body data) (i, s) = Some (Some (j, s')) \<and>
     length data \<le> j + 1 \<and> sum_words (drop i data) s = sum_words (drop j data) s'"
proof (induction "length data - i" arbitrary: i s rule: less_induct)
  case less
  show ?case
  proof (cases "i + 1 < length data")
    case True
    then have "drop i data = data ! i # data ! (i + 1) # drop (i + 2) data"
      by (simp add: Cons_nth_drop_Suc)
    then have "sum_words (drop i data) s = sum_words (drop (i + 2) data) (s + ucast (of_be16 (data ! i) (data ! (i + 1))))"
      by simp
    moreover have "while_checked (\<lambda>(i, s). i + 1 < length data) (sum_body data) (i, s) =
        while_checked (\<lambda>(i, s). i + 1 < length data) (sum_body data)
          (i + 2, s + ucast (of_be16 (data ! i) (data ! (i + 1))))"
      by (rule while_checked_step) (use True in \<open>simp_all add: sum_body_def index_at_def\<close>)
    ultimately show ?thesis
      using less.hyps [of "i + 2" "s + ucast (of_be16 (data ! i) (data ! (i + 1)))"] True by simp
  next
    case False
    then show ?thesis by (intro exI [of _ i] exI [of _ s]) (simp add: while_checked_exit)
  qed
qed

lemma carry_loop: "while_option (\<lambda>s. drop_bit 16 s \<noteq> 0) carry_body s = Some (fold_carries s)"
proof (induction s rule: fold_carries.induct)
  case (1 s)
  show ?case
  proof (cases "drop_bit 16 s = 0")
    case True
    then show ?thesis by (simp add: while_option_unfold [of _ _ s] fold_carries.simps [of s])
  next
    case False
    then have "fold_carries s = fold_carries (carry_body s)"
      by (subst fold_carries.simps) (simp add: carry_body_def)
    with False 1 show ?thesis by (simp add: while_option_unfold [of _ _ s] carry_body_def [of s])
  qed
qed

lemma carry_twice: "drop_bit 16 (carry_body (carry_body s)) = 0"
proof -
  let ?f = "\<lambda>n :: nat. n mod 65536 + n div 65536"
  have "unat s < 65536 * 65536" using unsigned_less [of s] by simp
  then have div: "unat s div 65536 < 65536" by (rule less_mult_imp_div_less)
  have "?f (?f (unat s)) < 65536"
  proof (cases "?f (unat s) < 65536")
    case False
    define m where "m = ?f (unat s)"
    have "m \<le> 131070" using div mod_less_divisor [of 65536 "unat s"] unfolding m_def by linarith
    moreover have "65536 \<le> m" using False by (simp add: m_def)
    ultimately have "m div 65536 = 1" by (intro div_nat_eqI) simp_all
    with div_mult_mod_eq [of m 65536] \<open>m \<le> 131070\<close> show ?thesis unfolding m_def by linarith
  qed simp
  then show ?thesis
    using drop16_nonzero [of "carry_body (carry_body s)"] by (simp add: carry_body_def unat_carry_step)
qed

lemma sum_words_rest: "length xs \<le> 1 \<Longrightarrow>
   sum_words xs s = (if xs = [] then s else s + push_bit 8 (ucast (hd xs)))"
  by (cases xs) (auto simp: le_Suc_eq length_Suc_conv)

section \<open>Properties\<close>

text \<open>
  C32. No datagram makes the loop over the options hang or panic: from the first option on it ends
  after finitely many turns, every access is inside the buffer, and it has pushed the options of
  \<open>parse_options\<close>.
\<close>

theorem option_loop_terminates:
  "\<exists>st. option_loop data \<lparr> at = 240, found = [], broken = False \<rparr> = Some (Some st) \<and>
     found st = parse_options data 240"
  using option_loop_from [of "\<lparr> at = 240, found = [], broken = False \<rparr>" data] by simp

text \<open>
  The loops of the checksum end without a panic on every buffer with the value of
  \<open>ip_checksum\<close>, and the loop over the carries needs at most two turns for every sum.
\<close>

theorem checksum_loop_terminates:
  "checksum_loop data = Some (Some (ip_checksum data)) \<and> drop_bit 16 ((carry_body ^^ 2) s) = 0"
proof
  obtain j s' where loop: "while_checked (\<lambda>(i, s). i + 1 < length data) (sum_body data) (0, 0) = Some (Some (j, s'))"
    and j: "length data \<le> j + 1" and words: "sum_words data 0 = sum_words (drop j data) s'"
    using sum_loop_from [of data 0 0] by auto
  have "(if j < length data then map_option (\<lambda>x. s' + push_bit 8 (ucast x)) (index_at data j) else Some s') =
      Some (sum_words data 0)"
    unfolding words using j by (simp add: sum_words_rest index_at_def hd_drop_conv_nth)
  then show "checksum_loop data = Some (Some (ip_checksum data))"
    unfolding checksum_loop_def loop by (simp add: carry_loop ip_checksum_def)
  show "drop_bit 16 ((carry_body ^^ 2) s) = 0"
    using carry_twice by (simp add: numeral_2_eq_2)
qed

end
