(* ===== verification/Os_Calls.thy ===== *)
theory Os_Calls
  imports Interface_Info Models "HOL-Library.State_Monad"
begin

text \<open>
  System calls. A function that talks to the operating system runs in the state monad over the
  trace of its calls, newest first, each with what it returned. The kernel is a parameter: it
  answers a call from what was called before. Constants of \<open>libc\<close> are constructors where only
  their identity matters. The descriptors a trace leaves open are computed from it, and
  \<open>fresh_fds\<close> is what POSIX promises of them.
\<close>

section \<open>Calls and traces\<close>

type_synonym fd = int

datatype socket_kind = RawIcmp6 | UdpInet | RawPacket

datatype socket_option =
    Ipv6MulticastHops int | Ipv6UnicastHops int | Ipv6MulticastIf int | Ipv6MulticastLoop int
  | Ipv6JoinGroup ipv6 u32 | Icmp6FilterOpt "u32 list"
  | IpPktinfo int | IpRecvif int | SoDontroute int | SoBroadcast int

datatype sockaddr =
    SaInet ipv4 u16
  | SaInet6 ipv6 u16 u32  \<comment> \<open>address, port, scope\<close>
  | SaLinkLayer u16 u32 bytes  \<comment> \<open>protocol, interface, hardware address\<close>

datatype syscall =
    Socket socket_kind
  | OpenFile string
  | Close fd
  | FcntlGetfl fd
  | FcntlSetfl fd int
  | Setsockopt fd socket_option
  | Bind fd sockaddr
  | Sendto fd bytes sockaddr
  | WriteFd fd bytes
  | IfNametoindex bytes
  | IoctlGetHwaddr fd bytes
  | IoctlBiocsetif fd u32 bytes

type_synonym trace = "(syscall \<times> int) list"
type_synonym kernel = "trace \<Rightarrow> syscall \<Rightarrow> int"
type_synonym 'a os = "(trace, 'a) state"

definition sys :: "kernel \<Rightarrow> syscall \<Rightarrow> int os" where
  "sys K c = State (\<lambda>tr. (K tr c, (c, K tr c) # tr))"

fun opens :: "syscall \<Rightarrow> bool" where
  "opens (Socket _) = True"
| "opens (OpenFile _) = True"
| "opens _ = False"

primrec open_fds :: "trace \<Rightarrow> fd set" where
  "open_fds [] = {}"
| "open_fds (x # tr) =
     (case fst x of
        Close d \<Rightarrow> open_fds tr - {d}
      | c \<Rightarrow> if opens c \<and> 0 \<le> snd x then insert (snd x) (open_fds tr) else open_fds tr)"

text \<open>A new descriptor is none that is open.\<close>

definition fresh_fds :: "kernel \<Rightarrow> bool" where
  "fresh_fds K \<longleftrightarrow> (\<forall>tr c. opens c \<longrightarrow> 0 \<le> K tr c \<longrightarrow> K tr c \<notin> open_fds tr)"

section \<open>Errors\<close>

text \<open>
  The call that failed, an interface name with a zero byte, an index out of range, and what the
  servers report when an interface or its address is not found or the runtime refuses a socket.
\<close>

datatype os_error = CallFailed syscall | InvalidName | OutOfRange | NoInterface | NoAddress | NotRegistered

type_synonym 'a os_result = "(os_error + 'a) os"

definition fail :: "os_error \<Rightarrow> 'a os_result" where
  "fail e = State_Monad.return (Inl e)"

text \<open>The idiom \<open>if ret != 0 { close(fd); bail!(..) }\<close>, and the end of a scope that owns \<open>fd\<close>.\<close>

definition close_fail :: "kernel \<Rightarrow> fd \<Rightarrow> os_error \<Rightarrow> 'a os_result" where
  "close_fail K d e = do { sys K (Close d); fail e }"

section \<open>Interface names\<close>

text \<open>\<open>CString::new\<close> refuses a text with a zero byte.\<close>

definition cstring_ok :: "string \<Rightarrow> bool" where
  "cstring_ok s \<longleftrightarrow> 0 \<notin> set (bytes_of s)"

definition get_ifindex :: "kernel \<Rightarrow> string \<Rightarrow> u32 option os" where
  "get_ifindex K iface =
     (if \<not> cstring_ok iface then State_Monad.return None
      else do { idx \<leftarrow> sys K (IfNametoindex (bytes_of iface));
                State_Monad.return (if word_of_int idx = (0 :: u32) then None else Some (word_of_int idx)) })"

section \<open>Reasoning\<close>

text \<open>What a trace has sent, in order; bytes written to a device have no address.\<close>

primrec sent :: "trace \<Rightarrow> (fd \<times> bytes \<times> sockaddr option) list" where
  "sent [] = []"
| "sent (x # tr) = sent tr @
     (case fst x of Sendto d b a \<Rightarrow> [(d, b, Some a)] | WriteFd d b \<Rightarrow> [(d, b, None)] | _ \<Rightarrow> [])"

definition wp :: "'a os \<Rightarrow> ('a \<Rightarrow> trace \<Rightarrow> bool) \<Rightarrow> trace \<Rightarrow> bool" where
  "wp m Q tr = (case run_state m tr of (x, tr') \<Rightarrow> Q x tr')"

named_theorems wps

lemma wp_return [wps]: "Q x tr \<Longrightarrow> wp (State_Monad.return x) Q tr"
  by (simp add: wp_def)

lemma wp_bind [wps]: "wp m (\<lambda>x. wp (f x) Q) tr \<Longrightarrow> wp (State_Monad.bind m f) Q tr"
  by (simp add: wp_def split: prod.splits)

lemma wp_sys [wps]: "(\<And>r. r = K tr c \<Longrightarrow> Q r ((c, r) # tr)) \<Longrightarrow> wp (sys K c) Q tr"
  by (simp add: wp_def sys_def)

lemma wp_if [wps]: "(b \<Longrightarrow> wp m Q tr) \<Longrightarrow> (\<not> b \<Longrightarrow> wp n Q tr) \<Longrightarrow> wp (if b then m else n) Q tr"
  by simp

lemma wp_fail [wps]: "Q (Inl e) tr \<Longrightarrow> wp (fail e) Q tr"
  by (simp add: fail_def wp_def)

lemma wp_close_fail [wps]: "(\<And>r. Q (Inl e) ((Close d, r) # tr)) \<Longrightarrow> wp (close_fail K d e) Q tr"
  by (simp add: close_fail_def wp_def sys_def fail_def)

lemma wp_weaken: "wp m Q tr \<Longrightarrow> (\<And>x tr'. Q x tr' \<Longrightarrow> Q' x tr') \<Longrightarrow> wp m Q' tr"
  by (auto simp: wp_def split: prod.splits)

lemma wp_call: "wp m Q tr \<Longrightarrow> (\<And>x tr'. Q x tr' \<Longrightarrow> wp (f x) R tr') \<Longrightarrow> wp (State_Monad.bind m f) R tr"
  by (rule wp_bind) (rule wp_weaken)

lemma wpD: "wp m Q tr \<Longrightarrow> run_state m tr = (x, tr') \<Longrightarrow> Q x tr'"
  by (simp add: wp_def)

lemma fresh_fdsD: "fresh_fds K \<Longrightarrow> opens c \<Longrightarrow> 0 \<le> K tr c \<Longrightarrow> K tr c \<notin> open_fds tr"
  by (simp add: fresh_fds_def)

section \<open>Example\<close>

text \<open>A kernel on which every call succeeds; a new descriptor is larger than every earlier answer.\<close>

definition plain_kernel :: kernel where
  "plain_kernel tr c =
     (case c of
        Socket _ \<Rightarrow> 1 + sum_list (map (abs \<circ> snd) tr) | OpenFile _ \<Rightarrow> 1 + sum_list (map (abs \<circ> snd) tr)
      | IfNametoindex _ \<Rightarrow> 2 | Sendto _ b _ \<Rightarrow> int (length b) | WriteFd _ b \<Rightarrow> int (length b)
      | _ \<Rightarrow> 0)"

lemma answers_nonneg: "0 \<le> sum_list (map (abs \<circ> snd) tr)" for tr :: trace
  by (induction tr) simp_all

lemma open_fds_bound: "d \<in> open_fds tr \<Longrightarrow> d \<le> sum_list (map (abs \<circ> snd) tr)"
  by (induction tr) (auto split: syscall.splits if_splits simp: answers_nonneg add_increasing add_increasing2)

lemma plain_kernel_fresh: "fresh_fds plain_kernel"
  unfolding fresh_fds_def
proof (intro allI impI)
  fix tr c assume "opens c"
  then show "plain_kernel tr c \<notin> open_fds tr"
    using open_fds_bound [of "plain_kernel tr c" tr] by (cases c) (auto simp: plain_kernel_def)
qed

end
