(* ===== verification/Dhcp_Sockets.thy ===== *)
theory Dhcp_Sockets
  imports Os_Calls Dhcp_Theorems
begin

text \<open>
  The sockets of the DHCP server (\<open>crates/ndhcpd/src/dhcp/server.rs\<close>): what \<open>recvmsg(2)\<close> tells
  about a datagram, the sockets that are opened, the raw frame, and the turn of \<open>listen_loop\<close>
  with its calls and its cache of broadcast sockets.
\<close>

section \<open>Receiving\<close>

text \<open>
  The control messages that matter and the source address in memory order. \<open>if_indextoname(3)\<close> is
  an argument; its buffer is read up to the first zero byte.
\<close>

datatype cmsg = PktInfo int | RecvIf u16 | OtherCmsg

record sockaddr_storage =
  ss_family :: nat
  sin_port :: "u8 \<times> u8"
  sin_addr :: "u8 \<times> u8 \<times> u8 \<times> u8"

definition AF_INET :: nat where
  "AF_INET = 2"

definition index_to_name :: "(u32 \<Rightarrow> bytes option) \<Rightarrow> u32 \<Rightarrow> string option" where
  "index_to_name if_indextoname idx =
     map_option (\<lambda>name_buf. from_utf8_lossy (takeWhile (\<lambda>b. b \<noteq> 0) name_buf)) (if_indextoname idx)"

fun cmsg_index :: "target_os \<Rightarrow> cmsg \<Rightarrow> u32 option" where
  "cmsg_index Linux (PktInfo i) = Some (word_of_int i)"
| "cmsg_index FreeBSD (RecvIf i) = Some (ucast i)"
| "cmsg_index _ _ = None"

fun parse_interface_from_cmsg :: "target_os \<Rightarrow> (u32 \<Rightarrow> bytes option) \<Rightarrow> cmsg list \<Rightarrow> string option" where
  "parse_interface_from_cmsg os if_indextoname [] = None"
| "parse_interface_from_cmsg os if_indextoname (cm # rest) =
     (case cmsg_index os cm of
        None \<Rightarrow> parse_interface_from_cmsg os if_indextoname rest
      | Some idx \<Rightarrow>
          (case index_to_name if_indextoname idx of
             Some name \<Rightarrow> Some name
           | None \<Rightarrow> parse_interface_from_cmsg os if_indextoname rest))"

definition sockaddr_storage_to_socketaddr :: "sockaddr_storage \<Rightarrow> (ipv4 \<times> u16) option" where
  "sockaddr_storage_to_socketaddr ss =
     (if ss_family ss = AF_INET then
        (case (sin_addr ss, sin_port ss) of
           ((a, b, c, d), (p, q)) \<Rightarrow> Some (of_be32 a b c d, of_be16 p q))
      else None)"

definition recv_with_interface ::
  "target_os \<Rightarrow> (u32 \<Rightarrow> bytes option) \<Rightarrow> string + bytes \<times> sockaddr_storage \<times> cmsg list \<Rightarrow>
   string + bytes \<times> (ipv4 \<times> u16) \<times> string" where
  "recv_with_interface os if_indextoname msg =
     map_sum id (\<lambda>(buf, src_storage, ctrl).
       (buf,
        case sockaddr_storage_to_socketaddr src_storage of Some a \<Rightarrow> a | None \<Rightarrow> (0, 0),
        case parse_interface_from_cmsg os if_indextoname ctrl of Some name \<Rightarrow> name | None \<Rightarrow> ''unknown'')) msg"

section \<open>Opening sockets\<close>

definition recv_option :: "target_os \<Rightarrow> socket_option" where
  "recv_option os = (case os of Linux \<Rightarrow> IpPktinfo 1 | FreeBSD \<Rightarrow> IpRecvif 1)"

definition enable_recv_interface :: "kernel \<Rightarrow> target_os \<Rightarrow> fd \<Rightarrow> bool os" where
  "enable_recv_interface K os d =
     do { ret \<leftarrow> sys K (Setsockopt d (recv_option os));
          State_Monad.return (ret = 0) }"

text \<open>\<open>UdpSocket::bind\<close>; a socket that is dropped is closed.\<close>

definition udp_bind :: "kernel \<Rightarrow> ipv4 \<Rightarrow> u16 \<Rightarrow> fd os_result" where
  "udp_bind K ip port =
     do { d \<leftarrow> sys K (Socket UdpInet);
          if d < 0 then fail (CallFailed (Socket UdpInet))
          else do { ret \<leftarrow> sys K (Bind d (SaInet ip port));
            if ret \<noteq> 0 then close_fail K d (CallFailed (Bind d (SaInet ip port)))
            else State_Monad.return (Inr d) } }"

definition set_broadcast :: "kernel \<Rightarrow> fd \<Rightarrow> bool os" where
  "set_broadcast K d = do { ret \<leftarrow> sys K (Setsockopt d (SoBroadcast 1)); State_Monad.return (ret = 0) }"

text \<open>The sockets before the loop.\<close>

definition listen_socket :: "kernel \<Rightarrow> target_os \<Rightarrow> fd os_result" where
  "listen_socket K os =
     do { r \<leftarrow> udp_bind K 0 DHCP_SERVER_PORT;
          case r of
            Inl e \<Rightarrow> fail e
          | Inr d \<Rightarrow>
              do { ok \<leftarrow> set_broadcast K d;
                   if \<not> ok then close_fail K d (CallFailed (Setsockopt d (SoBroadcast 1)))
                   else do { ok \<leftarrow> enable_recv_interface K os d;
                     if \<not> ok then close_fail K d (CallFailed (Setsockopt d (recv_option os)))
                     else State_Monad.return (Inr d) } } }"

definition create_broadcast_send_socket ::
  "kernel \<Rightarrow> target_os \<Rightarrow> ipv4 list \<Rightarrow> fd os_result" where
  "create_broadcast_send_socket K os iface_ips =
     (let plain = do { r \<leftarrow> udp_bind K 0 0;
            case r of
              Inl e \<Rightarrow> fail e
            | Inr d \<Rightarrow> do { ok \<leftarrow> set_broadcast K d;
                if ok then State_Monad.return (Inr d) else close_fail K d (CallFailed (Setsockopt d (SoBroadcast 1))) } }
      in case (os, iface_ips) of
           (FreeBSD, iface_ip # _) \<Rightarrow>
             do { r \<leftarrow> udp_bind K iface_ip 0;
                  case r of
                    Inl e \<Rightarrow> fail e
                  | Inr d \<Rightarrow>
                      do { ok \<leftarrow> set_broadcast K d;
                           if \<not> ok then close_fail K d (CallFailed (Setsockopt d (SoBroadcast 1)))
                           else do { ret \<leftarrow> sys K (Setsockopt d (SoDontroute 1));
                             if ret \<noteq> 0 then close_fail K d (CallFailed (Setsockopt d (SoDontroute 1)))
                             else State_Monad.return (Inr d) } } }
         | _ \<Rightarrow> plain)"

section \<open>The raw frame\<close>

definition IFNAMSIZ :: nat where
  "IFNAMSIZ = 16"

text \<open>The name field of an \<open>ifreq\<close> that starts as zeros, after \<open>n\<close> bytes were copied.\<close>

definition ifr_name :: "nat \<Rightarrow> bytes \<Rightarrow> bytes" where
  "ifr_name n name = take IFNAMSIZ (take n name @ replicate IFNAMSIZ 0)"

text \<open>\<open>get_iface_mac\<close>; \<open>hw\<close> is what \<open>SIOCGIFHWADDR\<close> writes for a name.\<close>

definition get_iface_mac_os ::
  "kernel \<Rightarrow> target_os \<Rightarrow> (bytes \<Rightarrow> bytes) \<Rightarrow> ifaddr list option \<Rightarrow> string \<Rightarrow> mac_address option os" where
  "get_iface_mac_os K os hw ifaddrs iface =
     (case os of
        FreeBSD \<Rightarrow> State_Monad.return (get_iface_mac iface ifaddrs)
      | Linux \<Rightarrow>
          if \<not> cstring_ok iface then State_Monad.return None
          else do { sock \<leftarrow> sys K (Socket UdpInet);
            if sock < 0 then State_Monad.return None
            else (let ifr = ifr_name (min (length iface + 1) IFNAMSIZ) (bytes_of iface @ [0]) in
              do { ret \<leftarrow> sys K (IoctlGetHwaddr sock ifr);
                   sys K (Close sock);
                   State_Monad.return (if ret \<noteq> 0 then None else mac_from_slice (take 6 (hw ifr))) }) })"

definition biocsetif :: "u32 \<Rightarrow> u32" where
  "biocsetif sizeof_ifreq =
     0x80000000 OR push_bit 16 (sizeof_ifreq AND 0x1fff) OR push_bit 8 0x42 OR 108"

definition send_raw_linux :: "kernel \<Rightarrow> string \<Rightarrow> bytes \<Rightarrow> unit os_result" where
  "send_raw_linux K iface frame =
     do { sock \<leftarrow> sys K (Socket RawPacket);
          if sock < 0 then fail (CallFailed (Socket RawPacket))
          else if \<not> cstring_ok iface then fail InvalidName
          else do { idx \<leftarrow> sys K (IfNametoindex (bytes_of iface));
            if word_of_int idx = (0 :: u32) then close_fail K sock (CallFailed (IfNametoindex (bytes_of iface)))
            else if length frame < 6 then fail OutOfRange
            else (let sa = SaLinkLayer 0x0008 (word_of_int idx) (take 6 frame) in
              do { ret \<leftarrow> sys K (Sendto sock frame sa);
                   sys K (Close sock);
                   if ret < 0 then fail (CallFailed (Sendto sock frame sa)) else State_Monad.return (Inr ()) }) } }"

definition send_raw_freebsd :: "kernel \<Rightarrow> u32 \<Rightarrow> string \<Rightarrow> bytes \<Rightarrow> unit os_result" where
  "send_raw_freebsd K sizeof_ifreq iface frame =
     do { d \<leftarrow> sys K (OpenFile ''/dev/bpf'');
          if d < 0 then fail (CallFailed (OpenFile ''/dev/bpf''))
          else (let ifr = ifr_name (min (length iface) (IFNAMSIZ - 1)) (bytes_of iface) in
            do { ret \<leftarrow> sys K (IoctlBiocsetif d (biocsetif sizeof_ifreq) ifr);
                 if ret \<noteq> 0 then close_fail K d (CallFailed (IoctlBiocsetif d (biocsetif sizeof_ifreq) ifr))
                 else do { written \<leftarrow> sys K (WriteFd d frame);
                   sys K (Close d);
                   if written < 0 then fail (CallFailed (WriteFd d frame)) else State_Monad.return (Inr ()) } }) }"

definition send_raw_l2_frame :: "kernel \<Rightarrow> target_os \<Rightarrow> u32 \<Rightarrow> string \<Rightarrow> bytes \<Rightarrow> unit os_result" where
  "send_raw_l2_frame K os sizeof_ifreq iface frame =
     (case os of Linux \<Rightarrow> send_raw_linux K iface frame | FreeBSD \<Rightarrow> send_raw_freebsd K sizeof_ifreq iface frame)"

section \<open>One turn of the loop\<close>

type_synonym bcast_sockets = "string \<rightharpoonup> fd option"

text \<open>Sending a reply; results are logged. \<open>main\<close> is the socket of the loop.\<close>

definition send_reply ::
  "kernel \<Rightarrow> target_os \<Rightarrow> u32 \<Rightarrow> (bytes \<Rightarrow> bytes) \<Rightarrow> ifaddr list option \<Rightarrow> fd \<Rightarrow> string \<Rightarrow> dhcp_packet \<Rightarrow> dhcp_packet \<Rightarrow>
   bcast_sockets \<Rightarrow> bcast_sockets os" where
  "send_reply K os sizeof_ifreq hw ifaddrs main iface_name packet response cache =
     (let response_bytes = packet_to_bytes response;
          iface_ips = get_interface_ips iface_name ifaddrs;
          (dest_ip, dest_port) = response_dest packet response;
          is_broadcast = (dest_ip = BROADCAST)
      in if ciaddr packet = 0 \<and> giaddr packet = 0 then
           (let dst_ip = (if is_broadcast then BROADCAST else yiaddr response);
                src_ip = (case iface_ips of ip # _ \<Rightarrow> ip | [] \<Rightarrow> 0)
            in do { mac \<leftarrow> get_iface_mac_os K os hw ifaddrs iface_name;
                    send_raw_l2_frame K os sizeof_ifreq iface_name
                      (send_dhcp_raw_l2_broadcast mac src_ip dst_ip response_bytes);
                    State_Monad.return cache })
         else if is_broadcast then
           do { entry \<leftarrow> (case cache iface_name of
                  Some e \<Rightarrow> State_Monad.return e
                | None \<Rightarrow> do { r \<leftarrow> create_broadcast_send_socket K os iface_ips;
                    State_Monad.return (case r of Inl _ \<Rightarrow> None | Inr d \<Rightarrow> Some d) });
                sys K (Sendto (case entry of Some d \<Rightarrow> d | None \<Rightarrow> main) response_bytes (SaInet dest_ip dest_port));
                State_Monad.return (cache(iface_name \<mapsto> entry)) }
         else do { sys K (Sendto main response_bytes (SaInet dest_ip dest_port));
                   State_Monad.return cache })"

text \<open>What a turn starts from: the clock, the database and the interfaces at that time, and the result
  of \<open>recvmsg\<close>.\<close>

record 'db turn =
  turn_t1 :: i64
  turn_t2 :: i64
  turn_db :: 'db
  turn_ifaddrs :: "ifaddr list option"
  turn_recv :: "string + bytes \<times> sockaddr_storage \<times> cmsg list"

definition listen_turn ::
  "kernel \<Rightarrow> target_os \<Rightarrow> u32 \<Rightarrow> (bytes \<Rightarrow> bytes) \<Rightarrow> (u32 \<Rightarrow> bytes option) \<Rightarrow> 'db database \<Rightarrow> config \<Rightarrow> fd \<Rightarrow>
   'db turn \<Rightarrow> bcast_sockets \<Rightarrow> (bcast_sockets \<times> 'db) os" where
  "listen_turn K os sizeof_ifreq hw if_indextoname D cfg main tn cache =
     (case recv_with_interface os if_indextoname (turn_recv tn) of
        Inl _ \<Rightarrow> State_Monad.return (cache, turn_db tn)
      | Inr (packet_data, src, iface_name) \<Rightarrow>
          if iface_name \<notin> set (listen_interfaces cfg) then State_Monad.return (cache, turn_db tn)
          else (case packet_parse packet_data of
             Inl _ \<Rightarrow> State_Monad.return (cache, turn_db tn)
           | Inr packet \<Rightarrow>
               (case handle_packet D (turn_t1 tn) (turn_t2 tn) packet
                       (get_interface_ips iface_name (turn_ifaddrs tn)) cfg (turn_db tn) of
                  (None, db') \<Rightarrow> State_Monad.return (cache, db')
                | (Some response, db') \<Rightarrow>
                    do { cache' \<leftarrow> send_reply K os sizeof_ifreq hw (turn_ifaddrs tn) main iface_name packet response cache;
                         State_Monad.return (cache', db') })))"

fun listen_turns ::
  "kernel \<Rightarrow> target_os \<Rightarrow> u32 \<Rightarrow> (bytes \<Rightarrow> bytes) \<Rightarrow> (u32 \<Rightarrow> bytes option) \<Rightarrow> 'db database \<Rightarrow> config \<Rightarrow> fd \<Rightarrow>
   'db turn list \<Rightarrow> bcast_sockets \<Rightarrow> bcast_sockets os" where
  "listen_turns K os sizeof_ifreq hw if_indextoname D cfg main [] cache = State_Monad.return cache"
| "listen_turns K os sizeof_ifreq hw if_indextoname D cfg main (tn # tns) cache =
     do { x \<leftarrow> listen_turn K os sizeof_ifreq hw if_indextoname D cfg main tn cache;
          listen_turns K os sizeof_ifreq hw if_indextoname D cfg main tns (fst x) }"

text \<open>\<open>listen_loop\<close>: \<open>None\<close> when the socket cannot be set up.\<close>

definition listen_loop ::
  "kernel \<Rightarrow> target_os \<Rightarrow> u32 \<Rightarrow> (bytes \<Rightarrow> bytes) \<Rightarrow> (u32 \<Rightarrow> bytes option) \<Rightarrow> 'db database \<Rightarrow> config \<Rightarrow>
   'db turn list \<Rightarrow> (fd \<times> bcast_sockets) option os" where
  "listen_loop K os sizeof_ifreq hw if_indextoname D cfg tns =
     do { r \<leftarrow> listen_socket K os;
          case r of
            Inl _ \<Rightarrow> State_Monad.return None
          | Inr main \<Rightarrow>
              do { cache \<leftarrow> listen_turns K os sizeof_ifreq hw if_indextoname D cfg main tns Map.empty;
                   State_Monad.return (Some (main, cache)) } }"

section \<open>Names of interfaces\<close>

lemma utf8_lossy_nonzero: "0 \<notin> set bs \<Longrightarrow> 0 \<notin> set (utf8_lossy bs)"
proof (induction bs rule: utf8_lossy.induct)
  case (2 b rest)
  obtain n ok where u: "utf8_unit b rest = (n, ok)" by fastforce
  have "0 \<notin> set (drop (n - 1) rest)" using 2(2) by (auto dest: in_set_dropD)
  with 2(1) [OF u [symmetric]] have "0 \<notin> set (utf8_lossy (drop (n - 1) rest))" .
  moreover have "0 \<notin> set (take n (b # rest))" using 2(2) by (meson in_set_takeD)
  ultimately show ?case by (simp add: u replacement_def)
qed simp

lemma index_to_name_cstring:
  assumes "index_to_name f idx = Some name"
  shows "cstring_ok name"
proof -
  have "0 \<notin> set (utf8_lossy (takeWhile (\<lambda>b. b \<noteq> 0) bs))" for bs
    by (rule utf8_lossy_nonzero) (auto dest: set_takeWhileD)
  with assms show ?thesis by (auto simp: index_to_name_def cstring_ok_def from_utf8_lossy_def)
qed

lemma parse_interface_cstring: "parse_interface_from_cmsg os f ctrl = Some name \<Longrightarrow> cstring_ok name"
  by (induction ctrl) (auto split: option.splits dest: index_to_name_cstring)

lemma recv_cstring: "recv_with_interface os f msg = Inr (buf, src, name) \<Longrightarrow> cstring_ok name"
proof -
  have "cstring_ok ''unknown''" by code_simp
  then show "recv_with_interface os f msg = Inr (buf, src, name) \<Longrightarrow> cstring_ok name"
    by (cases msg) (auto simp: recv_with_interface_def split: option.splits dest: parse_interface_cstring)
qed

section \<open>Descriptors\<close>

text \<open>A function that opens one socket or fails without a trace.\<close>

definition opened :: "trace \<Rightarrow> os_error + fd \<Rightarrow> trace \<Rightarrow> bool" where
  "opened tr r tr' \<longleftrightarrow>
     (case r of Inl _ \<Rightarrow> open_fds tr' = open_fds tr
      | Inr d \<Rightarrow> d \<notin> open_fds tr \<and> open_fds tr' = insert d (open_fds tr))"

lemma udp_bind_wp:
  assumes "fresh_fds K"
  shows "wp (udp_bind K ip port) (opened tr) tr"
  unfolding udp_bind_def
  using fresh_fdsD [OF assms, of "Socket UdpInet" tr] by (intro wps) (auto simp: opened_def)

lemma wp_bool_option [wps]:
  "(\<And>r. Q (r = 0) ((Setsockopt d (SoBroadcast 1), r) # tr)) \<Longrightarrow> wp (set_broadcast K d) Q tr"
  "(\<And>r. Q (r = 0) ((Setsockopt d (recv_option os), r) # tr)) \<Longrightarrow> wp (enable_recv_interface K os d) Q tr"
  by (simp_all add: set_broadcast_def enable_recv_interface_def wp_def sys_def)

lemma listen_socket_wp:
  assumes "fresh_fds K"
  shows "wp (listen_socket K os) (opened tr) tr"
  unfolding listen_socket_def
  by (rule wp_call [OF udp_bind_wp [OF assms]]) (auto intro!: wps simp: opened_def split: sum.splits)

lemma broadcast_socket_wp:
  assumes "fresh_fds K"
  shows "wp (create_broadcast_send_socket K os iface_ips) (opened tr) tr"
proof -
  have plain: "wp (do { r \<leftarrow> udp_bind K 0 0;
      case r of Inl e \<Rightarrow> fail e
      | Inr d \<Rightarrow> do { ok \<leftarrow> set_broadcast K d;
          if ok then State_Monad.return (Inr d) else close_fail K d (CallFailed (Setsockopt d (SoBroadcast 1))) } })
      (opened tr) tr"
    by (rule wp_call [OF udp_bind_wp [OF assms]])
      (auto intro!: wps simp: opened_def split: sum.splits)
  have "wp (do { r \<leftarrow> udp_bind K ip 0;
      case r of Inl e \<Rightarrow> fail e
      | Inr d \<Rightarrow> do { ok \<leftarrow> set_broadcast K d;
          if \<not> ok then close_fail K d (CallFailed (Setsockopt d (SoBroadcast 1)))
          else do { ret \<leftarrow> sys K (Setsockopt d (SoDontroute 1));
            if ret \<noteq> 0 then close_fail K d (CallFailed (Setsockopt d (SoDontroute 1)))
            else State_Monad.return (Inr d) } } }) (opened tr) tr" for ip
    by (rule wp_call [OF udp_bind_wp [OF assms]])
      (auto intro!: wps simp: opened_def split: sum.splits)
  with plain show ?thesis
    by (simp add: create_broadcast_send_socket_def Let_def split: target_os.split list.split)
qed

lemma get_iface_mac_wp:
  assumes "fresh_fds K"
  shows "wp (get_iface_mac_os K os hw ifaddrs iface) (\<lambda>_ tr'. open_fds tr' = open_fds tr) tr"
  using fresh_fdsD [OF assms, of "Socket UdpInet" tr]
  by (cases os) (auto simp: get_iface_mac_os_def Let_def intro!: wps)

lemma send_raw_wp:
  assumes "fresh_fds K" and "cstring_ok iface" and "6 \<le> length frame"
  shows "wp (send_raw_l2_frame K os sz iface frame) (\<lambda>_ tr'. open_fds tr' = open_fds tr) tr"
  using fresh_fdsD [OF assms(1), of "Socket RawPacket" tr] fresh_fdsD [OF assms(1), of "OpenFile ''/dev/bpf''" tr] assms(2,3)
  by (cases os) (auto simp: send_raw_l2_frame_def send_raw_linux_def send_raw_freebsd_def Let_def intro!: wps)

lemma frame_long: "6 \<le> length (send_dhcp_raw_l2_broadcast mac src dst payload)"
  by (simp add: send_dhcp_raw_l2_broadcast_def build_l2_udp_frame_def Let_def)

text \<open>The sockets of the cache.\<close>

definition cached :: "bcast_sockets \<Rightarrow> fd set" where
  "cached cache = {d. \<exists>i. cache i = Some (Some d)}"

text \<open>What is open besides \<open>F\<close>: the cached sockets, and only those of managed interfaces.\<close>

definition holds :: "config \<Rightarrow> fd set \<Rightarrow> bcast_sockets \<Rightarrow> trace \<Rightarrow> bool" where
  "holds cfg F cache tr \<longleftrightarrow> open_fds tr = F \<union> cached cache \<and> dom cache \<subseteq> set (listen_interfaces cfg)"

lemma cached_upd:
  "cache i = None \<Longrightarrow> cached (cache(i \<mapsto> e)) = cached cache \<union> set_option e"
  by (auto simp: cached_def split: if_splits) (metis option.distinct(1))

lemma send_reply_wp:
  assumes fresh: "fresh_fds K" and name: "cstring_ok iface" "iface \<in> set (listen_interfaces cfg)"
    and h: "holds cfg F cache tr"
  shows "wp (send_reply K os sz hw ifaddrs main iface packet response cache) (\<lambda>c. holds cfg F c) tr"
proof -
  let ?ips = "get_interface_ips iface ifaddrs"
  obtain dest_ip dest_port where dest: "response_dest packet response = (dest_ip, dest_port)" by fastforce
  have raw: "wp (do { mac \<leftarrow> get_iface_mac_os K os hw ifaddrs iface;
      send_raw_l2_frame K os sz iface (send_dhcp_raw_l2_broadcast mac src dst payload);
      State_Monad.return cache }) (\<lambda>c. holds cfg F c) tr" for src dst payload
    by (rule wp_call [OF get_iface_mac_wp [OF fresh]], rule wp_call [OF send_raw_wp [OF fresh name(1) frame_long]])
      (use h in \<open>auto intro!: wps simp: holds_def\<close>)
  have plain: "wp (do { sys K (Sendto main b a); State_Monad.return cache }) (\<lambda>c. holds cfg F c) tr" for b a
    using h by (intro wps) (simp add: holds_def)
  have entry: "wp (case cache iface of
        Some e \<Rightarrow> State_Monad.return e
      | None \<Rightarrow> do { r \<leftarrow> create_broadcast_send_socket K os ?ips;
          State_Monad.return (case r of Inl _ \<Rightarrow> None | Inr d \<Rightarrow> Some d) })
      (\<lambda>e tr'. holds cfg F (cache(iface \<mapsto> e)) tr') tr"
  proof (cases "cache iface")
    case None
    have "wp (do { r \<leftarrow> create_broadcast_send_socket K os ?ips;
          State_Monad.return (case r of Inl _ \<Rightarrow> None | Inr d \<Rightarrow> Some d) })
        (\<lambda>e tr'. holds cfg F (cache(iface \<mapsto> e)) tr') tr"
      by (rule wp_call [OF broadcast_socket_wp [OF fresh]])
        (use h None name in \<open>auto intro!: wps simp: holds_def opened_def cached_upd split: sum.splits\<close>)
    with None show ?thesis by simp
  next
    case (Some e)
    with h have "holds cfg F (cache(iface \<mapsto> e)) tr" by (simp add: map_upd_triv)
    with Some show ?thesis by (auto intro: wps)
  qed
  have "wp (do { entry \<leftarrow> (case cache iface of
        Some e \<Rightarrow> State_Monad.return e
      | None \<Rightarrow> do { r \<leftarrow> create_broadcast_send_socket K os ?ips;
          State_Monad.return (case r of Inl _ \<Rightarrow> None | Inr d \<Rightarrow> Some d) });
      sys K (Sendto (case entry of Some d \<Rightarrow> d | None \<Rightarrow> main) b a);
      State_Monad.return (cache(iface \<mapsto> entry)) }) (\<lambda>c. holds cfg F c) tr" for b a
    by (rule wp_call [OF entry], intro wps) (simp add: holds_def)
  with raw plain show ?thesis by (simp add: send_reply_def Let_def dest)
qed

lemma listen_turn_wp:
  assumes fresh: "fresh_fds K" and h: "holds cfg F cache tr"
  shows "wp (listen_turn K os sz hw if_indextoname D cfg main tn cache) (\<lambda>x. holds cfg F (fst x)) tr"
proof -
  have same: "wp (State_Monad.return (cache, db)) (\<lambda>x. holds cfg F (fst x)) tr" for db
    using h by (auto intro: wps)
  have "wp (do { cache' \<leftarrow> send_reply K os sz hw ifaddrs main iface packet response cache;
      State_Monad.return (cache', db) }) (\<lambda>x. holds cfg F (fst x)) tr"
    if "recv_with_interface os if_indextoname msg = Inr (buf, src, iface)" "iface \<in> set (listen_interfaces cfg)"
    for msg buf src iface ifaddrs packet response db
    by (rule wp_call [OF send_reply_wp [OF fresh recv_cstring [OF that(1)] that(2) h]]) (auto intro: wps)
  with same show ?thesis
    by (auto simp: listen_turn_def split: sum.split option.split prod.split)
qed

lemma listen_turns_wp:
  assumes fresh: "fresh_fds K" and h: "holds cfg F cache tr"
  shows "wp (listen_turns K os sz hw if_indextoname D cfg main tns cache) (\<lambda>c. holds cfg F c) tr"
  using h
proof (induction tns arbitrary: cache tr)
  case (Cons tn tns)
  show ?case
    unfolding listen_turns.simps by (rule wp_call [OF listen_turn_wp [OF fresh Cons.prems]]) (rule Cons.IH)
qed (auto intro: wps)

lemma card_cached:
  assumes "dom cache \<subseteq> set is"
  shows "finite (cached cache) \<and> card (cached cache) \<le> length is"
proof -
  have "cached cache \<subseteq> (the \<circ> the \<circ> cache) ` set is"
    using assms by (force simp: cached_def)
  then show ?thesis
    by (meson List.finite_set card_image_le card_length card_mono finite_imageI finite_subset le_trans)
qed

section \<open>What is sent\<close>

lemma get_iface_mac_sent: "wp (get_iface_mac_os K os hw ifaddrs iface) (\<lambda>_ tr'. sent tr' = sent tr) tr"
  by (cases os) (auto simp: get_iface_mac_os_def Let_def intro!: wps)

lemma udp_bind_sent: "wp (udp_bind K ip port) (\<lambda>_ tr'. sent tr' = sent tr) tr"
  unfolding udp_bind_def by (intro wps) simp_all

lemma broadcast_socket_sent: "wp (create_broadcast_send_socket K os iface_ips) (\<lambda>_ tr'. sent tr' = sent tr) tr"
  unfolding create_broadcast_send_socket_def Let_def
  by (auto intro!: wps wp_call [OF udp_bind_sent] split: target_os.split list.split sum.splits)

text \<open>At most the frame leaves, to its own hardware address or through the device.\<close>

definition raw_sent :: "target_os \<Rightarrow> bytes \<Rightarrow> (fd \<times> bytes \<times> sockaddr option) list \<Rightarrow> bool" where
  "raw_sent os frame xs \<longleftrightarrow> xs = [] \<or> (\<exists>d idx. xs = [(d, frame,
     case os of Linux \<Rightarrow> Some (SaLinkLayer 0x0008 idx (take 6 frame)) | FreeBSD \<Rightarrow> None)])"

lemma send_raw_sent:
  "wp (send_raw_l2_frame K os sz iface frame) (\<lambda>_ tr'. \<exists>xs. raw_sent os frame xs \<and> sent tr' = sent tr @ xs) tr"
  by (cases os) (auto simp: send_raw_l2_frame_def send_raw_linux_def send_raw_freebsd_def Let_def raw_sent_def
      intro!: wps)

text \<open>What a turn sends for the action that \<open>Dhcp_Server\<close> decides.\<close>

definition performed :: "target_os \<Rightarrow> fd \<Rightarrow> send_action \<Rightarrow> trace \<Rightarrow> trace \<Rightarrow> bool" where
  "performed os main action tr tr' \<longleftrightarrow>
     (case action of
        NoSend \<Rightarrow> tr' = tr
      | RawFrame frame \<Rightarrow> \<exists>xs. raw_sent os frame xs \<and> sent tr' = sent tr @ xs
      | BroadcastSocket (ip, port) b \<Rightarrow> \<exists>d. sent tr' = sent tr @ [(d, b, Some (SaInet ip port))]
      | MainSocket (ip, port) b \<Rightarrow> sent tr' = sent tr @ [(main, b, Some (SaInet ip port))])"

lemma send_reply_sent:
  "wp (send_reply K os sz hw ifaddrs main iface packet response cache) (\<lambda>_ tr'.
     \<exists>mac. performed os main (send_response (get_interface_ips iface ifaddrs) mac packet response) tr tr') tr"
proof -
  obtain dest_ip dest_port where dest: "response_dest packet response = (dest_ip, dest_port)" by fastforce
  have raw: "wp (do { mac \<leftarrow> get_iface_mac_os K os hw ifaddrs iface;
      send_raw_l2_frame K os sz iface (f mac); State_Monad.return cache })
      (\<lambda>_ tr'. \<exists>mac xs. raw_sent os (f mac) xs \<and> sent tr' = sent tr @ xs) tr" for f
    by (rule wp_call [OF get_iface_mac_sent], rule wp_call [OF send_raw_sent]) (auto intro!: wps)
  have entry: "wp (case cache iface of
        Some e \<Rightarrow> State_Monad.return e
      | None \<Rightarrow> do { r \<leftarrow> create_broadcast_send_socket K os (get_interface_ips iface ifaddrs);
          State_Monad.return (case r of Inl _ \<Rightarrow> None | Inr d \<Rightarrow> Some d) }) (\<lambda>_ tr'. sent tr' = sent tr) tr"
    by (auto intro!: wps wp_call [OF broadcast_socket_sent] split: option.split)
  have bcast: "wp (do { entry \<leftarrow> (case cache iface of
        Some e \<Rightarrow> State_Monad.return e
      | None \<Rightarrow> do { r \<leftarrow> create_broadcast_send_socket K os (get_interface_ips iface ifaddrs);
          State_Monad.return (case r of Inl _ \<Rightarrow> None | Inr d \<Rightarrow> Some d) });
      sys K (Sendto (case entry of Some d \<Rightarrow> d | None \<Rightarrow> main) b a);
      State_Monad.return (cache(iface \<mapsto> entry)) }) (\<lambda>_ tr'. \<exists>d. sent tr' = sent tr @ [(d, b, Some a)]) tr" for b a
    by (rule wp_call [OF entry], intro wps) simp
  have plain: "wp (do { sys K (Sendto main b a); State_Monad.return cache })
      (\<lambda>_ tr'. sent tr' = sent tr @ [(main, b, Some a)]) tr" for b a
    by (intro wps) simp
  note defs = send_reply_def send_response_def performed_def Let_def dest
  show ?thesis
  proof (cases "ciaddr packet = 0 \<and> giaddr packet = 0")
    case True
    then show ?thesis by (simp add: defs raw)
  next
    case False
    then show ?thesis by (cases "dest_ip = BROADCAST") (auto simp: defs bcast plain)
  qed
qed

lemma listen_turn_sent:
  assumes "recv_with_interface os if_indextoname (turn_recv tn) = Inr (data, src, iface)"
  shows "wp (listen_turn K os sz hw if_indextoname D cfg main tn cache) (\<lambda>x tr'. \<exists>mac action.
    listen_step D cfg (\<lambda>i. get_interface_ips i (turn_ifaddrs tn)) (\<lambda>_. mac) (turn_t1 tn) (turn_t2 tn) iface data
      (turn_db tn) = (action, snd x) \<and> performed os main action tr tr') tr"
proof -
  have "wp (do { cache' \<leftarrow> send_reply K os sz hw ifaddrs main iface packet response cache;
      State_Monad.return (cache', db) }) (\<lambda>x tr'. \<exists>mac.
        performed os main (send_response (get_interface_ips iface ifaddrs) mac packet response) tr tr' \<and> snd x = db) tr"
    for ifaddrs packet response db
    by (rule wp_call [OF send_reply_sent]) (auto intro!: wps)
  note reply = this [THEN wp_weaken]
  have none: "performed os main NoSend tr tr" by (simp add: performed_def)
  show ?thesis
    using assms none
    by (auto simp: listen_turn_def listen_step_def Let_def intro!: wps reply split: sum.split option.split prod.split)
qed

section \<open>Properties\<close>

text \<open>
  C21. The server leaks no descriptor: however many datagrams it handles, on whatever interfaces,
  with whatever system calls failing, besides the descriptors that were open before it holds its
  main socket and at most one broadcast socket for each managed interface; when the main socket
  cannot be set up it holds none.
\<close>

theorem listen_loop_descriptors:
  assumes "fresh_fds K"
    and "run_state (listen_loop K os sizeof_ifreq hw if_indextoname D cfg tns) tr = (r, tr')"
  shows "case r of
      None \<Rightarrow> open_fds tr' = open_fds tr
    | Some (main, cache) \<Rightarrow> main \<notin> open_fds tr \<and>
        open_fds tr' = insert main (open_fds tr) \<union> cached cache \<and>
        card (cached cache) \<le> length (listen_interfaces cfg)"
proof -
  let ?post = "\<lambda>r tr'. case r of None \<Rightarrow> open_fds tr' = open_fds tr
    | Some (main, cache) \<Rightarrow> main \<notin> open_fds tr \<and> holds cfg (insert main (open_fds tr)) cache tr'"
  have "wp (listen_loop K os sizeof_ifreq hw if_indextoname D cfg tns) ?post tr"
    unfolding listen_loop_def
  proof (rule wp_call [OF listen_socket_wp [OF assms(1)]])
    fix r tr1 assume r: "opened tr r tr1"
    show "wp (case r of Inl _ \<Rightarrow> State_Monad.return None
        | Inr main \<Rightarrow> do { cache \<leftarrow> listen_turns K os sizeof_ifreq hw if_indextoname D cfg main tns Map.empty;
            State_Monad.return (Some (main, cache)) }) ?post tr1"
    proof (cases r)
      case (Inr main)
      with r have new: "main \<notin> open_fds tr" and "holds cfg (insert main (open_fds tr)) Map.empty tr1"
        by (simp_all add: opened_def holds_def cached_def)
      have "wp (do { cache \<leftarrow> listen_turns K os sizeof_ifreq hw if_indextoname D cfg main tns Map.empty;
          State_Monad.return (Some (main, cache)) }) ?post tr1"
        by (rule wp_call [OF listen_turns_wp [OF assms(1) \<open>holds _ _ _ _\<close>]]) (auto intro!: wps new)
      with Inr show ?thesis by simp
    qed (use r in \<open>auto intro!: wps simp: opened_def\<close>)
  qed
  from wpD [OF this assms(2)] show ?thesis
    by (auto simp: holds_def card_cached split: option.splits)
qed

text \<open>A client asks for an address on a managed interface of a kernel where every call succeeds.\<close>

definition lab_turn :: "memory_db turn" where
  "lab_turn = \<lparr> turn_t1 = 10, turn_t2 = 10, turn_db = lab_db,
     turn_ifaddrs = Some [\<lparr> ifa_name = [101, 116, 104, 48], ifa_addr = Some (AfInet 0xC0A80101) \<rparr>],
     turn_recv = Inr (packet_to_bytes (lab_client Request 0xC0A80164 1),
       \<lparr> ss_family = AF_INET, sin_port = (0, 68), sin_addr = (0, 0, 0, 0) \<rparr>, [OtherCmsg, PktInfo 2]) \<rparr>"

abbreviation lab_names :: "u32 \<Rightarrow> bytes option" where
  "lab_names \<equiv> (\<lambda>i. if i = 2 then Some [101, 116, 104, 48, 0, 7] else None)"

theorem listen_loop_descriptors_witness:
  "\<exists>main cache tr'. run_state (listen_loop plain_kernel Linux 40 (\<lambda>_. [2, 0, 0, 0, 0, 9]) lab_names memory_database
       (config_default Linux) [lab_turn, lab_turn\<lparr> turn_recv := Inl ''EINTR'' \<rparr>]) [] = (Some (main, cache), tr') \<and>
     open_fds tr' = {main} \<union> cached cache \<and> length (sent tr') = 1"
proof -
  let ?run = "run_state (listen_loop plain_kernel Linux 40 (\<lambda>_. [2, 0, 0, 0, 0, 9]) lab_names memory_database
    (config_default Linux) [lab_turn, lab_turn\<lparr> turn_recv := Inl ''EINTR'' \<rparr>]) []"
  have "\<not> Option.is_none (fst ?run)" and one: "length (sent (snd ?run)) = 1" by code_simp+
  then obtain main cache where run: "?run = (Some (main, cache), snd ?run)"
    by (cases ?run) (auto simp: Option.is_none_def)
  from listen_loop_descriptors [OF plain_kernel_fresh run] run one show ?thesis by auto
qed



text \<open>
  On Linux a name with a zero byte makes \<open>send_raw_l2_frame\<close> return between opening its socket and
  closing it. The names of the loop have none, so the branch is not reached from there.
\<close>

theorem raw_frame_leaks:
  "fresh_fds K \<Longrightarrow> \<not> cstring_ok iface \<Longrightarrow> 0 \<le> K tr (Socket RawPacket) \<Longrightarrow>
   open_fds (snd (run_state (send_raw_l2_frame K Linux sz iface frame) tr)) \<noteq> open_fds tr"
  using fresh_fdsD [of K "Socket RawPacket" tr]
  by (auto simp: send_raw_l2_frame_def send_raw_linux_def sys_def fail_def)

end
