(* ===== verification/Ra_Socket.thy ===== *)
theory Ra_Socket
  imports Os_Calls Ra_Server
begin

text \<open>
  The socket of the Router Advertisement server (\<open>crates/ndhcpd/src/ra/server.rs\<close>): its
  configuration, the advertisement that leaves through it and the address of a datagram that
  arrives.
\<close>

section \<open>Configuration\<close>

definition O_NONBLOCK :: "target_os \<Rightarrow> int" where
  "O_NONBLOCK os = (case os of Linux \<Rightarrow> 0x800 | FreeBSD \<Rightarrow> 4)"

definition all_routers :: ipv6 where
  "all_routers = 0xff020000000000000000000000000002"

definition all_nodes :: ipv6 where
  "all_nodes = 0xff020000000000000000000000000001"

text \<open>The loop over the two hop limits: the first that cannot be set is the failure.\<close>

fun set_options :: "kernel \<Rightarrow> fd \<Rightarrow> socket_option list \<Rightarrow> 'a os_result \<Rightarrow> 'a os_result" where
  "set_options K d [] rest = rest"
| "set_options K d (opt # opts) rest =
     do { ret \<leftarrow> sys K (Setsockopt d opt);
          if ret \<noteq> 0 then close_fail K d (CallFailed (Setsockopt d opt)) else set_options K d opts rest }"

definition create_ra_socket :: "kernel \<Rightarrow> target_os \<Rightarrow> u32 \<Rightarrow> ipv6 \<Rightarrow> fd os_result" where
  "create_ra_socket K os ifindex link_local =
     do { sock_fd \<leftarrow> sys K (Socket RawIcmp6);
          if sock_fd < 0 then fail (CallFailed (Socket RawIcmp6))
          else do {
            flags \<leftarrow> sys K (FcntlGetfl sock_fd);
            set \<leftarrow> (if flags < 0 then State_Monad.return flags
                    else sys K (FcntlSetfl sock_fd (flags OR O_NONBLOCK os)));
            if flags < 0 \<or> set < 0 then close_fail K sock_fd (CallFailed (FcntlGetfl sock_fd))
            else set_options K sock_fd [Ipv6MulticastHops 255, Ipv6UnicastHops 255]
              (do { ret \<leftarrow> sys K (Setsockopt sock_fd (Ipv6MulticastIf (sint ifindex)));
                 if ret \<noteq> 0 then close_fail K sock_fd (CallFailed (Setsockopt sock_fd (Ipv6MulticastIf (sint ifindex))))
                 else do {
                   sys K (Setsockopt sock_fd (Ipv6MulticastLoop 0));
                   ret \<leftarrow> sys K (Setsockopt sock_fd (Ipv6JoinGroup all_routers ifindex));
                   if ret \<noteq> 0 then close_fail K sock_fd (CallFailed (Setsockopt sock_fd (Ipv6JoinGroup all_routers ifindex)))
                   else do {
                     sys K (Setsockopt sock_fd (Icmp6FilterOpt ra_filter));
                     ret \<leftarrow> sys K (Bind sock_fd (SaInet6 link_local 0 ifindex));
                     if ret \<noteq> 0 then close_fail K sock_fd (CallFailed (Bind sock_fd (SaInet6 link_local 0 ifindex)))
                     else State_Monad.return (Inr sock_fd) } } }) } }"

section \<open>Sending and receiving\<close>

definition do_send_ra :: "kernel \<Rightarrow> fd \<Rightarrow> bytes \<Rightarrow> u32 \<Rightarrow> unit os_result" where
  "do_send_ra K sock_fd payload ifindex =
     do { ret \<leftarrow> sys K (Sendto sock_fd payload (SaInet6 all_nodes 0 ifindex));
          if ret < 0 then fail (CallFailed (Sendto sock_fd payload (SaInet6 all_nodes 0 ifindex)))
          else State_Monad.return (Inr ()) }"

text \<open>\<open>send_ra\<close> with its socket: errors are logged.\<close>

fun send_payloads :: "kernel \<Rightarrow> fd \<Rightarrow> u32 \<Rightarrow> bytes list \<Rightarrow> unit os" where
  "send_payloads K sock_fd ifindex [] = State_Monad.return ()"
| "send_payloads K sock_fd ifindex (p # ps) =
     do { do_send_ra K sock_fd p ifindex; send_payloads K sock_fd ifindex ps }"

text \<open>
  The task of an interface: the loop of \<open>Ra_Server\<close> with the calls it makes. \<open>registered\<close> is
  whether the runtime accepts the socket. The socket is owned by the task and closed when it
  ends; an event list without \<open>FdError\<close> is a task that still waits.
\<close>

fun ra_serve ::
  "kernel \<Rightarrow> (ipv6 list \<Rightarrow> ipv6 list) \<Rightarrow> 'db database \<Rightarrow> ra_config \<Rightarrow> string \<Rightarrow> fd \<Rightarrow> u32 \<Rightarrow>
   (ra_event \<times> 'db) list \<Rightarrow> unit os" where
  "ra_serve K hash_order D cfg iface d ifindex [] = State_Monad.return ()"
| "ra_serve K hash_order D cfg iface d ifindex ((Tick, db) # es) =
     do { send_payloads K d ifindex (send_ra hash_order D cfg iface db);
          ra_serve K hash_order D cfg iface d ifindex es }"
| "ra_serve K hash_order D cfg iface d ifindex ((Readable ds, db) # es) =
     do { send_payloads K d ifindex (drain (send_ra hash_order D cfg iface db) ds);
          ra_serve K hash_order D cfg iface d ifindex es }"
| "ra_serve K hash_order D cfg iface d ifindex ((FdError, db) # es) =
     do { sys K (Close d); State_Monad.return () }"

definition ra_own ::
  "kernel \<Rightarrow> bool \<Rightarrow> (ipv6 list \<Rightarrow> ipv6 list) \<Rightarrow> 'db database \<Rightarrow> ra_config \<Rightarrow> string \<Rightarrow> 'db \<Rightarrow>
   (ra_event \<times> 'db) list \<Rightarrow> u32 \<Rightarrow> os_error + fd \<Rightarrow> (fd \<times> u32) os_result" where
  "ra_own K registered hash_order D cfg iface db events ifindex r =
     (case r of
        Inl e \<Rightarrow> fail e
      | Inr sock_fd \<Rightarrow>
          if \<not> registered then close_fail K sock_fd NotRegistered
          else do {
            send_payloads K sock_fd ifindex (send_ra hash_order D cfg iface db);
            ra_serve K hash_order D cfg iface sock_fd ifindex events;
            State_Monad.return (Inr (sock_fd, ifindex)) })"

definition ra_task ::
  "kernel \<Rightarrow> target_os \<Rightarrow> bool \<Rightarrow> (ipv6 list \<Rightarrow> ipv6 list) \<Rightarrow> 'db database \<Rightarrow> ra_config \<Rightarrow> ifaddr list option \<Rightarrow>
   string \<Rightarrow> 'db \<Rightarrow> (ra_event \<times> 'db) list \<Rightarrow> (fd \<times> u32) os_result" where
  "ra_task K os registered hash_order D cfg ifaddrs iface db events =
     do { idx \<leftarrow> get_ifindex K iface;
          case idx of
            None \<Rightarrow> fail NoInterface
          | Some ifindex \<Rightarrow>
              (case get_link_local_addr iface ifaddrs of
                 None \<Rightarrow> fail NoAddress
               | Some link_local \<Rightarrow>
                   do { r \<leftarrow> create_ra_socket K os ifindex link_local;
                        ra_own K registered hash_order D cfg iface db events ifindex r }) }"

section \<open>Lemmas\<close>

lemma wp_set_options [wps]:
  "wp (sys K (Setsockopt d opt)) (\<lambda>ret. wp (if ret \<noteq> 0 then close_fail K d (CallFailed (Setsockopt d opt))
     else set_options K d opts rest) Q) tr \<Longrightarrow> wp (set_options K d (opt # opts) rest) Q tr"
  by (simp add: wp_bind)

lemma wp_set_options_nil [wps]: "wp rest Q tr \<Longrightarrow> wp (set_options K d [] rest) Q tr"
  by simp

text \<open>The calls of a socket that was configured without an error.\<close>

definition ra_configured :: "target_os \<Rightarrow> u32 \<Rightarrow> ipv6 \<Rightarrow> fd \<Rightarrow> trace \<Rightarrow> trace \<Rightarrow> bool" where
  "ra_configured os ifindex link_local d tr tr' \<longleftrightarrow>
     (\<exists>flags set no_loop filt. 0 \<le> d \<and> 0 \<le> flags \<and> 0 \<le> set \<and> tr' =
        [(Bind d (SaInet6 link_local 0 ifindex), 0), (Setsockopt d (Icmp6FilterOpt ra_filter), filt),
         (Setsockopt d (Ipv6JoinGroup all_routers ifindex), 0), (Setsockopt d (Ipv6MulticastLoop 0), no_loop),
         (Setsockopt d (Ipv6MulticastIf (sint ifindex)), 0),
         (Setsockopt d (Ipv6UnicastHops 255), 0), (Setsockopt d (Ipv6MulticastHops 255), 0),
         (FcntlSetfl d (flags OR O_NONBLOCK os), set), (FcntlGetfl d, flags), (Socket RawIcmp6, d)] @ tr)"

lemma create_ra_socket_wp:
  assumes "fresh_fds K"
  shows "wp (create_ra_socket K os ifindex link_local) (\<lambda>r tr'.
    case r of Inl _ \<Rightarrow> open_fds tr' = open_fds tr \<and> sent tr' = sent tr
    | Inr d \<Rightarrow> d \<notin> open_fds tr \<and> ra_configured os ifindex link_local d tr tr') tr"
  unfolding create_ra_socket_def
  using fresh_fdsD [OF assms, of "Socket RawIcmp6" tr]
  by (intro wps) (auto simp: ra_configured_def)

lemma ra_configured_fds:
  "ra_configured os ifindex link_local d tr tr' \<Longrightarrow> open_fds tr' = insert d (open_fds tr)"
  by (auto simp: ra_configured_def)

lemma ra_configured_sent: "ra_configured os ifindex link_local d tr tr' \<Longrightarrow> sent tr' = sent tr"
  by (auto simp: ra_configured_def)

lemma wp_send_payloads:
  "wp (send_payloads K d ifindex ps) (\<lambda>_ tr'. open_fds tr' = open_fds tr \<and>
     sent tr' = sent tr @ map (\<lambda>p. (d, p, Some (SaInet6 all_nodes 0 ifindex))) ps) tr"
proof (induction ps arbitrary: tr)
  case (Cons p ps)
  have "wp (do_send_ra K d p ifindex) (\<lambda>_ tr'. open_fds tr' = open_fds tr \<and>
      sent tr' = sent tr @ [(d, p, Some (SaInet6 all_nodes 0 ifindex))]) tr"
    unfolding do_send_ra_def by (intro wps) simp_all
  then show ?case
    unfolding send_payloads.simps by (rule wp_call) (rule wp_weaken [OF Cons.IH], simp)
qed (simp add: wp_def)

lemma wp_ra_serve:
  "wp (ra_serve K hash_order D cfg iface d ifindex es) (\<lambda>_ tr'.
     open_fds tr' = (if FdError \<in> fst ` set es then open_fds tr - {d} else open_fds tr) \<and>
     sent tr' = sent tr @ map (\<lambda>p. (d, p, Some (SaInet6 all_nodes 0 ifindex))) (concat (ra_loop hash_order D cfg iface es))) tr"
proof (induction K hash_order D cfg iface d ifindex es arbitrary: tr rule: ra_serve.induct)
  case (2 K hash_order D cfg iface d ifindex db es)
  show ?case
    unfolding ra_serve.simps by (rule wp_call [OF wp_send_payloads]) (rule wp_weaken [OF 2], simp)
next
  case (3 K hash_order D cfg iface d ifindex ds db es)
  show ?case
    unfolding ra_serve.simps by (rule wp_call [OF wp_send_payloads]) (rule wp_weaken [OF 3], simp)
qed (simp_all add: wp_def sys_def)

text \<open>What the task leaves behind.\<close>

definition ra_task_post ::
  "target_os \<Rightarrow> (ipv6 list \<Rightarrow> ipv6 list) \<Rightarrow> 'db database \<Rightarrow> ra_config \<Rightarrow> ifaddr list option \<Rightarrow> string \<Rightarrow> 'db \<Rightarrow>
   (ra_event \<times> 'db) list \<Rightarrow> trace \<Rightarrow> os_error + fd \<times> u32 \<Rightarrow> trace \<Rightarrow> bool" where
  "ra_task_post os hash_order D cfg ifaddrs iface db events tr r tr' \<longleftrightarrow>
     (case r of
        Inl _ \<Rightarrow> open_fds tr' = open_fds tr \<and> sent tr' = sent tr
      | Inr (d, ifindex) \<Rightarrow> d \<notin> open_fds tr \<and>
          open_fds tr' = (if FdError \<in> fst ` set events then open_fds tr else insert d (open_fds tr)) \<and>
          (\<exists>link_local i tr1 adv. get_link_local_addr iface ifaddrs = Some link_local \<and>
             ra_configured os ifindex link_local d ((IfNametoindex (bytes_of iface), i) # tr) tr1 \<and>
             run_on_interface hash_order D cfg (\<lambda>_. Some ifindex) ifaddrs (\<lambda>_ _ _. True) iface db events = Some adv \<and>
             sent tr' = sent tr @ map (\<lambda>p. (d, p, Some (SaInet6 all_nodes 0 ifindex))) (concat adv)))"

lemma ra_own_wp:
  assumes ll: "get_link_local_addr iface ifaddrs = Some link_local"
    and r: "case r of Inl _ \<Rightarrow> open_fds tr1 = open_fds tr \<and> sent tr1 = sent tr
      | Inr d \<Rightarrow> d \<notin> open_fds tr \<and> ra_configured os ifindex link_local d ((IfNametoindex (bytes_of iface), i) # tr) tr1"
  shows "wp (ra_own K registered hash_order D cfg iface db events ifindex r)
    (ra_task_post os hash_order D cfg ifaddrs iface db events tr) tr1"
proof (cases r)
  case (Inl e)
  with r show ?thesis unfolding ra_own_def by (auto intro!: wps simp: ra_task_post_def)
next
  case (Inr d)
  let ?post = "ra_task_post os hash_order D cfg ifaddrs iface db events tr"
  from r Inr have new: "d \<notin> open_fds tr"
    and conf: "ra_configured os ifindex link_local d ((IfNametoindex (bytes_of iface), i) # tr) tr1" by simp_all
  note same = ra_configured_fds [OF conf] ra_configured_sent [OF conf]
  have "wp (close_fail K d NotRegistered) ?post tr1"
    using same new by (intro wps) (simp add: ra_task_post_def)
  moreover have "wp (do { send_payloads K d ifindex (send_ra hash_order D cfg iface db);
      ra_serve K hash_order D cfg iface d ifindex events; State_Monad.return (Inr (d, ifindex)) }) ?post tr1"
  proof (rule wp_call [OF wp_send_payloads], rule wp_call [OF wp_ra_serve], rule wp_return)
    fix tr2 tr3
    assume "open_fds tr2 = open_fds tr1 \<and>
        sent tr2 = sent tr1 @ map (\<lambda>p. (d, p, Some (SaInet6 all_nodes 0 ifindex))) (send_ra hash_order D cfg iface db)"
      and "open_fds tr3 = (if FdError \<in> fst ` set events then open_fds tr2 - {d} else open_fds tr2) \<and>
        sent tr3 = sent tr2 @ map (\<lambda>p. (d, p, Some (SaInet6 all_nodes 0 ifindex))) (concat (ra_loop hash_order D cfg iface events))"
    with new ll conf same show "?post (Inr (d, ifindex)) tr3"
      by (auto simp: ra_task_post_def run_on_interface_def)
  qed
  ultimately show ?thesis using Inr by (simp add: ra_own_def)
qed

lemma ra_task_wp:
  assumes "fresh_fds K"
  shows "wp (ra_task K os registered hash_order D cfg ifaddrs iface db events)
    (ra_task_post os hash_order D cfg ifaddrs iface db events tr) tr"
proof -
  let ?post = "ra_task_post os hash_order D cfg ifaddrs iface db events tr"
  have none: "?post (Inl e) tr'" if "open_fds tr' = open_fds tr" "sent tr' = sent tr" for e tr'
    using that by (simp add: ra_task_post_def)
  have "wp (create_ra_socket K os ifindex link_local \<bind> ra_own K registered hash_order D cfg iface db events ifindex)
      ?post ((IfNametoindex (bytes_of iface), i) # tr)"
    if "get_link_local_addr iface ifaddrs = Some link_local" for ifindex link_local i
    by (rule wp_call [OF create_ra_socket_wp [OF assms]], rule ra_own_wp [OF that, where i = i])
      (auto split: sum.splits)
  then show ?thesis
    unfolding ra_task_def get_ifindex_def
    by (intro wps) (auto intro!: wps none split: option.split)
qed

section \<open>Properties\<close>



end
