(* ===== verification/Spec2Isabelle.thy ===== *)
theory Spec2Isabelle
  imports Daemon_Liveness Config_File Api_Secrecy Ra_Receive Api_Tokens Suite_Api Suite_Codec Suite_Dhcp Logging Program_Loops Dhcp_Sockets
    Ra_Socket Sqlite_Theorems
begin

text \<open>
  Verification of ndhcpd, a DHCPv4 server with IPv6 Router Advertisements, a REST interface and a
  command line tool (Rust, \<open>src/crates\<close>).

  \<^bold>\<open>The program.\<close> The daemon (\<open>ndhcpd/src/main.rs\<close>) opens an SQLite database and runs, on the same
  database: the DHCP server (\<open>dhcp/server.rs\<close>, with the message codec of the crate
  \<open>dhcp-proto\<close>), a task that purges expired leases, the Router Advertisement server
  (\<open>ra\<close>), and the REST interface (\<open>handlers\<close>, \<open>auth\<close>) on a Unix socket and on TCP. The database
  is behind the trait \<open>Database\<close> (\<open>db/mod.rs\<close>), implemented in memory and with SQLite. The tool
  \<open>ndhcp-cli\<close> sends requests to the interface.

  \<^bold>\<open>Theories.\<close>
  \<^item> \<open>Ndhcp_Prelude\<close>: machine integers, bytes, iterator idioms, shared lemmas. \<open>Rust_Text\<close> and
    \<open>Ipv6_Text\<close>: what the code uses of \<open>std\<close>'s text: splitting, trimming, numbers, UTF-8, the text
    of IPv4 and IPv6 addresses in both directions. \<open>Await_Logic\<close>: programs whose atomic actions are
    the awaited calls of the database, what they do alone, against given databases and with other
    tasks in between.
  \<^item> \<open>Mac_Address\<close>, \<open>Dhcp_Option\<close>, \<open>Dhcp_Packet\<close>: the crate \<open>dhcp-proto\<close>, parser and
    serialiser, with the round trips.
  \<^item> \<open>Models\<close>: the records of \<open>models.rs\<close> and \<open>config.rs\<close> with their defaults.
  \<^item> \<open>Database\<close>: the trait as a record of methods over a state, and the contracts its clients
    rely on, as locales: \<open>id_table\<close> and \<open>id_table_update\<close> (tables with generated identifiers,
    abstracted to maps), \<open>config_store\<close>, \<open>lease_store\<close>, \<open>dhcp_store\<close> (what the DHCP server
    needs; no law says that a method succeeds), \<open>reliable_store\<close> (methods succeed) and
    \<open>admin_store\<close> (the writes of the interface leave leases alone).
  \<^item> \<open>Memory_Db\<close>: \<open>db/memory.rs\<close>, all methods, and the interpretation of every contract on them.
  \<^item> \<open>Sqlite_Db\<close>: \<open>db/sqlite.rs\<close>, all methods as statements over tables of stored rows, with the
    constraints of the migrations. \<open>Sqlite_Store\<close>: the invariant of the tables and the same
    contracts, as sublocales. \<open>Sqlite_Refinement\<close>: the tables read as records refine the schema
    (keys, references, cascades). \<open>Sqlite_Theorems\<close>: the server on this database.
  \<^item> \<open>Network_Util\<close>, \<open>Interface_Info\<close>: \<open>utils/network.rs\<close> and the address helpers of
    \<open>dhcp/server.rs\<close>: masks, overlap, checksum, the forged frame, the walks over
    \<open>getifaddrs(3)\<close>. \<open>Program_Loops\<close>: the loops over the options of a message and of the checksum
    as they are written, with checked accesses. \<open>Logging\<close>: \<open>utils/logging.rs\<close>, the line and the
    severity of an event.
  \<^item> \<open>Dhcp_Server\<close>: the handlers of \<open>dhcp/server.rs\<close>, the destination of a reply, one turn of
    the receive loop and of the purge. \<open>Dhcp_Safety\<close> and \<open>Dhcp_Offers\<close>: what the handlers do
    over any database with the contract, as case rules proved in the locales. \<open>Dhcp_Runs\<close>: the
    running server as a step relation. \<open>Dhcp_Theorems\<close>: the properties. \<open>Dhcp_Concurrent\<close>: the
    handlers as programs over their awaits, interleaved with the other tasks. \<open>Dhcp_Awaits\<close>: what
    the answer of such a program tells about the databases it found.
  \<^item> \<open>Os_Calls\<close>: system calls in the state monad over their trace, and the descriptors they leave
    open. \<open>Dhcp_Sockets\<close> and \<open>Ra_Socket\<close>: the socket code of both servers in this monad.
  \<^item> \<open>Ra_Packet\<close>, \<open>Ra_Server\<close>: the advertisement, a decoder written from the RFCs, the
    ICMPv6 filter and the loop of an interface. \<open>Ra_Receive\<close>: the inner loop that empties the socket,
    with its buffer.
  \<^item> \<open>Api_Handlers\<close>, \<open>Api_Server\<close>: the handlers with their status codes, authentication and
    the router. \<open>Api_Concurrent\<close>: the whole router over its awaits. \<open>Api_Tokens\<close>: the generation and
    the life of a token, over the contract \<open>token_store\<close> that both databases keep. \<open>Api_Secrecy\<close>: what
    the interface reveals of stored tokens, over the contract \<open>secret_store\<close>. \<open>Api_Routes\<close>: the
    table of routes and the OpenAPI documentation as data.
  \<^item> \<open>Cli_Client\<close>, \<open>Cli_Commands\<close>, \<open>Cli_Theorems\<close>: the tool \<open>ndhcp-cli\<close>: its HTTP client, every
    command with its output, and the commands against the router and the database.
  \<^item> \<open>Startup\<close>: what \<open>main\<close> decides, its actions in order and how they fail. \<open>Config_File\<close>: the
    configuration file field by field, with what an absent field means.
    \<open>Daemon\<close>: the tasks that \<open>main\<close> starts as one step relation, with an executable form.
    \<open>Daemon_Liveness\<close>: its infinite executions under a fair scheduler.
  \<^item> \<open>Suite_Db\<close>, \<open>Suite_Dhcp\<close>, \<open>Suite_Codec\<close>, \<open>Suite_Api\<close>: the repository's own tests, run on the
    models.
  \<^item> this theory: from the start of the daemon to its runs.

  \<^bold>\<open>Correspondence.\<close> A struct is a record, an enum a datatype; \<open>Ipv4Addr\<close> is a 32-bit word,
  \<open>Ipv6Addr\<close> a 128-bit word, a \<open>String\<close> its UTF-8 bytes. Unsigned arithmetic wraps, as the
  release build does; an \<open>i64\<close> is an integer with the wrap-around written out in \<open>i64_add\<close>. An
  \<open>anyhow::Result\<close> is a sum; every \<open>return None\<close>, \<open>?\<close> and \<open>continue\<close> is a branch. A
  method of the database takes and returns its state. The code is given at two grains: a handler as
  a function on that state (\<open>handle_packet\<close>, \<open>route\<close>), whole handlers taking turns in
  \<open>server_step\<close>; and the same handler as a program whose atomic actions are the calls of the
  database (\<open>packet_prog\<close>, \<open>router_prog\<close>), with the steps of other tasks between any two of them in
  \<open>daemon_step\<close>. Run alone, the programs are the functions (C7, \<open>router_prog_alone\<close>). The receive
  loop handles one packet at a time; any number of requests are in flight. Readings of the clock are
  arguments \<open>t1\<close> and \<open>t2\<close>; a run assumes that they do not go back. Third-party code is a parameter:
  \<open>sqlite_env\<close> (failures, row order and foreign keys of SQLite and sqlx), \<open>http_stack\<close> and
  \<open>json_decoders\<close> (hyper and serde), \<open>kernel\<close> (the operating system), the YAML functions, Argon2,
  base64, the random generator and the iteration order of a \<open>HashSet\<close>. Of axum's router the
  theory \<open>Api_Routes\<close> uses what its documentation says of a captured segment.

  \<^bold>\<open>What is shown.\<close> For the daemon as a whole: once \<open>main\<close> has started on SQLite, every run is safe
  (C1); over every database with the contract an address has one holder, every ACK is backed and
  every authenticated answer had a valid token, whatever the tasks interleave (C2 to C4); and under a
  fair scheduler every packet is finished and every request answered (C5). For the
  DHCP server: one holder in every run (C6), one lease on SQLite while no statement fails (C8), and no
  stored value that makes the server panic (C9); acknowledgements are backed by a lease or a static
  assignment (C10); held addresses are refused (C11); the exchange of DISCOVER and REQUEST completes
  (C12); other clients and the configuration are not touched (C13); offers are sound and complete
  (C14, C15); static clients and releases (C16, C17); replies on the wire and their transport (C18,
  C19), down to the system calls, with a bound on the descriptors (C20, C21); timers (C22). For the
  databases: SQLite refines the schema and agrees with the in-memory one (C23, C24). For the
  interface: the life of a token (C25, C26), the secrecy of the stored hashes (C27), disjoint
  subnets (C28), the agreement of router and documentation (C29), and the command line tool on
  top of it (C30). For the codecs and helpers: C31 to C34. For Router Advertisements: C35 to C37. For
  the start of the daemon and its configuration: C38 to C40. The models pass the repository's tests of
  the databases, the DHCP server, the codecs and the router (\<open>database_suite_passes\<close>,
  \<open>dhcp_suite_passes\<close>, \<open>codec_suite_passes\<close>, \<open>router_suite_passes\<close>). Theorems without a number
  are further properties, such as \<open>ack_backed_interleaved\<close>, \<open>authenticated_interleaved\<close>,
  \<open>api_only_administers\<close>, \<open>requests_routed\<close>, \<open>cli_one_request\<close>, \<open>startup_plan\<close> and
  \<open>checksum_loop_terminates\<close>, or give concrete inputs on which the code does not
  do what it should, such as \<open>reserved_address_given_away\<close>, \<open>static_mac_case_ambiguous\<close>,
  \<open>overlap_race\<close>, \<open>toggle_race\<close> and \<open>flood_never_drained\<close>.

  \<^bold>\<open>Bounds.\<close> No definition uses fuel: the loops over addresses, options and carries are
  functions with a termination proof, C32 and \<open>checksum_loop_terminates\<close> show that the loops as
  written end with their results, and \<open>packet_finishes\<close> that a packet in progress is always finished
  by its own steps. The one loop that may not end, that of \<open>Ra_Receive\<close>, is a partial function into
  an option, and C37 says exactly when it returns. The parameter of \<open>mem_inv\<close> and \<open>sql_inv\<close> (\<open>inv\<close> in the contracts) is the number
  of insertions the \<open>i64\<close> identifiers still have room for; a run of \<open>k\<close> steps needs \<open>k\<close>, which for
  a new database is any \<open>k\<close> below \<open>2 ^ 63 - 1\<close>.

  \<^bold>\<open>Not modelled.\<close> The build script, which prints one cargo directive; the schemas that utoipa derives
  for the documentation and the Swagger UI; the connection to syslog; the tests of serde, Argon2 and
  the random generator, which test third-party code. The connections of the accept loops appear as the
  requests they carry. What is left of the sources are imports, module declarations and these.
\<close>

section \<open>The interface and the DHCP server together\<close>

context admin_store
begin

lemma admin_ops:
  "inv (length xs + n) db \<Longrightarrow>
   inv n (foldl (\<lambda>d x. admin_apply D x d) db xs) \<and> leases (foldl (\<lambda>d x. admin_apply D x d) db xs) \<subseteq> leases db"
proof (induction xs arbitrary: db)
  case (Cons x xs)
  then have "inv (length xs + n) (admin_apply D x db)" and "leases (admin_apply D x db) \<subseteq> leases db"
    using admin_inv [of "length xs + n" db x] admin_leases [of "length xs + n" db x] by simp_all
  with Cons.IH [of "admin_apply D x db"] show ?case by auto
qed simp

lemma inv_le: "inv n db \<Longrightarrow> m \<le> n \<Longrightarrow> inv m db"
  by (induction n) (auto simp: le_Suc_eq dest: inv_mono)

lemma administers_leases:
  assumes "administers D n db db'" and "inv n db"
  shows "inv 0 db' \<and> leases db' \<subseteq> leases db"
proof -
  obtain xs where "length xs \<le> n" and db': "db' = foldl (\<lambda>d x. admin_apply D x d) db xs"
    using assms(1) unfolding administers_def by blast
  then have "inv (length xs + 0) db" using assms(2) inv_le by simp
  from admin_ops [OF this] db' show ?thesis by simp
qed

end

text \<open>
  The two servers share the database safely: a request to the interface, authenticated or
  not, over any connection, adds and changes no lease, so after it an address still has at most
  one holder, over every database that keeps the contract.
\<close>

theorem api_keeps_owners:
  assumes "admin_store D subnets ranges statics leases valid"
    and "valid 2 db" and "owners_ok now (leases db)"
    and "create_router_with_auth D cfg verify require_auth now tok hashed conn auth req db = (r, db')"
  shows "valid 0 db' \<and> leases db' \<subseteq> leases db \<and> owners_ok now (leases db')"
proof -
  have "administers D 2 db db'"
    using administers_router [of D db cfg verify require_auth now tok hashed conn auth req] assms(4) by simp
  from admin_store.administers_leases [OF assms(1) this assms(2)] assms(3) show ?thesis
    by (auto intro: owners_ok_subset)
qed

theorem api_keeps_owners_witness:
  "\<exists>r db'. create_router_with_auth memory_database ra_default (token_verify Some (=)) False 20 [] (Inl [])
     None None (DelSubnet 1) (lab_leased 2) = (r, db') \<and> m_subnets db' = [] \<and>
     owners_ok 20 (set (m_leases db'))"
proof -
  let ?run = "create_router_with_auth memory_database ra_default (token_verify Some (=)) False 20 [] (Inl [])
    None None (DelSubnet 1) (lab_leased 2)"
  have run: "?run = (fst ?run, snd ?run)" by simp
  have inv: "mem_inv 2 (lab_leased 2)" using lab_inv(2) by (rule mem_inv_mono) simp
  have "owners_ok 20 (set (m_leases (lab_leased 2)))" by (simp add: lab_leased_eq owners_ok_def)
  from api_keeps_owners [OF mem_admin.admin_store_axioms inv this run]
  have "owners_ok 20 (set (m_leases (snd ?run)))" by simp
  moreover have "m_subnets (snd ?run) = []" by code_simp
  ultimately show ?thesis using run by blast
qed

section \<open>From the start to the running daemon\<close>

text \<open>Without arguments and files, the tool looks for the daemon where the daemon listens.\<close>

theorem tool_finds_daemon: "UnixListener default_socket False \<in> set (api_listeners (config_default os))"
  by (simp add: default_socket_def api_listeners_def config_default_def)

text \<open>What a task does belongs to an action of \<open>main\<close>.\<close>

fun planned :: "start_action list \<Rightarrow> event \<Rightarrow> bool" where
  "planned acts (Received j) \<longleftrightarrow> (\<exists>ifs. StartDhcp ifs \<in> set acts \<and> j_iface j \<in> set ifs)"
| "planned acts (Accepted c) \<longleftrightarrow> ServeApi (c_listener c) \<in> set acts"
| "planned acts (Advertised iface payloads) \<longleftrightarrow> (\<exists>tasks. StartRa tasks \<in> set acts \<and> iface \<in> set tasks)"
| "planned acts (Purged t) \<longleftrightarrow> (\<exists>secs. StartPurge secs \<in> set acts)"
| "planned acts e \<longleftrightarrow> True"

lemma main_run_started:
  assumes "main_run db_opens unix_binds tcp_binds config = (acts, None)"
  shows "\<And>l. l \<in> set (api_listeners config) \<Longrightarrow> ServeApi l \<in> set acts"
    and "StartDhcp (listen_interfaces config) \<in> set acts" and "\<exists>secs. StartPurge secs \<in> set acts"
    and "\<And>iface. iface \<in> set (ra_tasks config) \<Longrightarrow> StartRa (ra_tasks config) \<in> set acts"
  using assms
  by (auto simp: main_run_def main_tcp_def main_servers_def api_listeners_def ra_tasks_def Let_def map_prod_def
      split: option.splits if_splits prod.splits)

lemma run_planned:
  assumes "main_run db_opens unix_binds tcp_binds config = (acts, None)"
    and "daemon_run D config verify hash_order s tr s'"
  shows "list_all (\<lambda>(e, d). planned acts e) tr"
  using assms(2)
proof induction
  case (dr_step tr s1 e s2)
  from dr_step.hyps(2) have "planned acts e"
    by cases (use main_run_started [OF assms(1)] in auto)
  with dr_step.IH show ?case by simp
qed simp


text \<open>The default configuration, and a request on the Unix socket that creates a subnet.\<close>

definition lab_args :: args where
  "lab_args = \<lparr> arg_config = DEFAULT_CONFIG_PATH Linux, arg_data_dir = None, arg_unix_socket = None \<rparr>"

definition lab_start :: "start_action list \<times> main_error option" where
  "lab_start = main_run (\<lambda>_. True) (\<lambda>_. True) (\<lambda>_ _. True) (apply_args lab_args (load_config Linux None None))"

definition lab_sqlite_execution :: "((event \<times> sqlite_db) list \<times> sqlite_db daemon) option" where
  "lab_sqlite_execution =
     run_commands (sqlite_database plain_env) (apply_args lab_args (load_config Linux None None)) (token_verify Some (=)) id
       [Connect \<lparr> c_listener = UnixListener ''/var/run/ndhcpd.sock'' False, c_now = 5, c_token = [], c_hashed = Inl [],
          c_auth = None, c_request = PostSubnet lab_subnet \<rparr>, Serve 0, Serve 0, Answer 0, Purge 6]
       (idle 0 sqlite_new)"


end
